(* ===== verification/Prelude.thy ===== *)
theory Prelude
  imports Main "HOL-Library.Word"
begin

text \<open>
  Shared vocabulary of the development: the outcome of a fallible Rust computation
  (a value, an error that can be handled, or a panic that cannot), the integer casts the
  services perform between their Rust and Postgres integer types, hash maps as association
  lists, decimal rendering, and the list lemmas several components use.
\<close>

named_theorems outcome_simps \<open>equations that evaluate outcome combinators\<close>
named_theorems cast_simps \<open>equations for in-range integer casts\<close>
named_theorems hm_simps \<open>hash map lookups after updates\<close>

section \<open>Outcomes: value, error, panic\<close>

text \<open>
  \<open>Err\<close> is Rust's \<open>Result::Err\<close>, which callers may match on; \<open>Panic\<close> is an index out of
  bounds, a failed assertion or an \<open>expect\<close> on \<open>None\<close>: no caller in the repository
  catches it, so every combinator below propagates it.
\<close>

datatype ('e, 'a) outcome = Ok 'a | Err 'e | Panic

fun obind :: "('e, 'a) outcome \<Rightarrow> ('a \<Rightarrow> ('e, 'b) outcome) \<Rightarrow> ('e, 'b) outcome" where
  "obind (Ok x) f = f x"
| "obind (Err e) f = Err e"
| "obind Panic f = Panic"

text \<open>The error side of \<open>map_err\<close> and \<open>with_context\<close>.\<close>

fun map_err :: "('e \<Rightarrow> 'f) \<Rightarrow> ('e, 'a) outcome \<Rightarrow> ('f, 'a) outcome" where
  "map_err f (Ok x) = Ok x"
| "map_err f (Err e) = Err (f e)"
| "map_err f Panic = Panic"

text \<open>\<open>Option::ok_or\<close> and \<open>anyhow::ensure!\<close>.\<close>

definition ok_or :: "'e \<Rightarrow> 'a option \<Rightarrow> ('e, 'a) outcome" where
  "ok_or e x = (case x of None \<Rightarrow> Err e | Some v \<Rightarrow> Ok v)"

definition ensure :: "bool \<Rightarrow> 'e \<Rightarrow> ('e, unit) outcome" where
  "ensure b e = (if b then Ok () else Err e)"

text \<open>\<open>iter().map(f).collect::<Result<Vec<_>>>()\<close>: the first failure ends the traversal.\<close>

fun omap :: "('a \<Rightarrow> ('e, 'b) outcome) \<Rightarrow> 'a list \<Rightarrow> ('e, 'b list) outcome" where
  "omap f [] = Ok []"
| "omap f (x # xs) = obind (f x) (\<lambda>y. obind (omap f xs) (\<lambda>ys. Ok (y # ys)))"

text \<open>A \<open>for\<close> loop whose body may fail, threading a state.\<close>

fun ofold :: "('a \<Rightarrow> 's \<Rightarrow> ('e, 's) outcome) \<Rightarrow> 'a list \<Rightarrow> 's \<Rightarrow> ('e, 's) outcome" where
  "ofold f [] s = Ok s"
| "ofold f (x # xs) s = obind (f x s) (ofold f xs)"

text \<open>A fallible computation over a store that keeps its writes when it fails.\<close>

fun sbind :: "('e, 'a) outcome \<times> 's \<Rightarrow> ('a \<Rightarrow> 's \<Rightarrow> ('e, 'b) outcome \<times> 's) \<Rightarrow> ('e, 'b) outcome \<times> 's" where
  "sbind (Ok x, s) f = f x s"
| "sbind (Err e, s) f = (Err e, s)"
| "sbind (Panic, s) f = (Panic, s)"

lemma obind_cong [fundef_cong]:
  "m = m' \<Longrightarrow> (\<And>x. m' = Ok x \<Longrightarrow> f x = g x) \<Longrightarrow> obind m f = obind m' g"
  by (cases m') simp_all

lemma obind_Ok_iff [simp]: "obind m f = Ok y \<longleftrightarrow> (\<exists>x. m = Ok x \<and> f x = Ok y)"
  by (cases m) simp_all

lemma obind_Panic_iff: "obind m f = Panic \<longleftrightarrow> m = Panic \<or> (\<exists>x. m = Ok x \<and> f x = Panic)"
  by (cases m) simp_all

lemma obind_assoc: "obind (obind m f) g = obind m (\<lambda>x. obind (f x) g)"
  by (cases m) simp_all

lemma map_err_Ok_iff [simp]: "map_err f m = Ok x \<longleftrightarrow> m = Ok x"
  by (cases m) simp_all

lemma map_err_Panic_iff [simp]: "map_err f m = Panic \<longleftrightarrow> m = Panic"
  by (cases m) simp_all

lemma ok_or_simps [simp, outcome_simps]:
  "ok_or e None = Err e" "ok_or e (Some v) = Ok v"
  by (simp_all add: ok_or_def)

lemma ok_or_Ok_iff [simp]: "ok_or e x = Ok v \<longleftrightarrow> x = Some v"
  by (cases x) simp_all

lemma ensure_Ok_iff [simp]: "ensure b e = Ok u \<longleftrightarrow> b"
  by (simp add: ensure_def)

lemma omap_Ok_length: "omap f xs = Ok ys \<Longrightarrow> length ys = length xs"
  by (induction xs arbitrary: ys) auto

lemma omap_all_Ok: "(\<And>x. x \<in> set xs \<Longrightarrow> f x = Ok (g x)) \<Longrightarrow> omap f xs = Ok (map g xs)"
  by (induction xs) simp_all

lemma omap_Ok_iff: "omap f xs = Ok ys \<longleftrightarrow> list_all2 (\<lambda>x y. f x = Ok y) xs ys"
proof (induction xs arbitrary: ys)
  case (Cons x xs)
  then show ?case by (cases ys) auto
qed auto

lemma omap_Ok_map:
  assumes "omap f xs = Ok ys" and "\<And>x y. x \<in> set xs \<Longrightarrow> f x = Ok y \<Longrightarrow> y = g x"
  shows "ys = map g xs"
  using assms by (induction xs arbitrary: ys) auto

lemma omap_Ok_all: "omap f xs = Ok ys \<Longrightarrow> x \<in> set xs \<Longrightarrow> \<exists>y. f x = Ok y"
  by (induction xs arbitrary: ys) auto

lemma ofold_append: "ofold f (xs @ ys) s = obind (ofold f xs s) (ofold f ys)"
  by (induction xs arbitrary: s) (auto simp: obind_assoc intro: obind_cong)

text \<open>An invariant of the loop body is an invariant of the loop.\<close>

lemma ofold_invariant:
  assumes "ofold f xs s = Ok t" and "I s"
    and "\<And>x u v. x \<in> set xs \<Longrightarrow> I u \<Longrightarrow> f x u = Ok v \<Longrightarrow> I v"
  shows "I t"
  using assms
proof (induction xs arbitrary: s)
  case Nil
  then show ?case by simp
next
  case (Cons x xs)
  from Cons.prems(1) obtain u where u: "f x s = Ok u" and rest: "ofold f xs u = Ok t"
    by auto
  have "I u" using Cons.prems(2,3) u by auto
  with rest show ?case using Cons.prems(3) by (auto intro: Cons.IH)
qed

section \<open>Integer casts\<close>

text \<open>
  Rust's \<open>as\<close> between integer types truncates to the target width and reinterprets the
  sign bit. Unsigned values are naturals, signed ones integers, with the wrap-around
  written out.
\<close>

definition as_i32 :: "nat \<Rightarrow> int" where
  "as_i32 n = (let m = int n mod 2 ^ 32 in if m < 2 ^ 31 then m else m - 2 ^ 32)"

definition as_i64 :: "nat \<Rightarrow> int" where
  "as_i64 n = (let m = int n mod 2 ^ 64 in if m < 2 ^ 63 then m else m - 2 ^ 64)"

definition as_u32 :: "int \<Rightarrow> nat" where
  "as_u32 i = nat (i mod 2 ^ 32)"

definition as_u64 :: "int \<Rightarrow> nat" where
  "as_u64 i = nat (i mod 2 ^ 64)"

text \<open>Overflowing unsigned additions wrap in a release build.\<close>

definition u32_add :: "nat \<Rightarrow> nat \<Rightarrow> nat" where
  "u32_add a b = (a + b) mod 2 ^ 32"

definition u64_add :: "nat \<Rightarrow> nat \<Rightarrow> nat" where
  "u64_add a b = (a + b) mod 2 ^ 64"

definition u64_sat_mul :: "nat \<Rightarrow> nat \<Rightarrow> nat" where
  "u64_sat_mul a b = min (a * b) (2 ^ 64 - 1)"

definition u128_sat_mul :: "nat \<Rightarrow> nat \<Rightarrow> nat" where
  "u128_sat_mul a b = min (a * b) (2 ^ 128 - 1)"

text \<open>Signed arithmetic: wrap-around, and the saturating forms.\<close>

definition wrap_i32 :: "int \<Rightarrow> int" where
  "wrap_i32 i = (i + 2 ^ 31) mod 2 ^ 32 - 2 ^ 31"

definition wrap_i64 :: "int \<Rightarrow> int" where
  "wrap_i64 i = (i + 2 ^ 63) mod 2 ^ 64 - 2 ^ 63"

definition i64_sat_sub :: "int \<Rightarrow> int \<Rightarrow> int" where
  "i64_sat_sub a b = max (- (2 ^ 63)) (min (a - b) (2 ^ 63 - 1))"

definition u32_sat_add :: "nat \<Rightarrow> nat \<Rightarrow> nat" where
  "u32_sat_add a b = min (a + b) (2 ^ 32 - 1)"

definition u128_add :: "nat \<Rightarrow> nat \<Rightarrow> nat" where
  "u128_add a b = (a + b) mod 2 ^ 128"

lemma wrap_i32_id [cast_simps]: "- (2 ^ 31) \<le> i \<Longrightarrow> i < 2 ^ 31 \<Longrightarrow> wrap_i32 i = i"
  by (simp add: wrap_i32_def)

lemma wrap_i64_id [cast_simps]: "- (2 ^ 63) \<le> i \<Longrightarrow> i < 2 ^ 63 \<Longrightarrow> wrap_i64 i = i"
  by (simp add: wrap_i64_def)

lemma i64_sat_sub_id [cast_simps]:
  "- (2 ^ 63) \<le> a - b \<Longrightarrow> a - b < 2 ^ 63 \<Longrightarrow> i64_sat_sub a b = a - b"
  by (simp add: i64_sat_sub_def)

lemma as_i32_id [cast_simps]: "n < 2 ^ 31 \<Longrightarrow> as_i32 n = int n"
  by (simp add: as_i32_def Let_def)

lemma as_i64_id [cast_simps]: "n < 2 ^ 63 \<Longrightarrow> as_i64 n = int n"
  by (simp add: as_i64_def Let_def)

lemma as_u32_int [cast_simps]: "n < 2 ^ 32 \<Longrightarrow> as_u32 (int n) = n"
  by (simp add: as_u32_def nat_mod_distrib)

lemma as_u64_int [cast_simps]: "n < 2 ^ 64 \<Longrightarrow> as_u64 (int n) = n"
  by (simp add: as_u64_def nat_mod_distrib)

lemma as_u32_as_i32 [simp]: "n < 2 ^ 32 \<Longrightarrow> as_u32 (as_i32 n) = n"
  by (auto simp: as_u32_def as_i32_def Let_def)

lemma as_u64_as_i64 [simp]: "n < 2 ^ 64 \<Longrightarrow> as_u64 (as_i64 n) = n"
  by (auto simp: as_u64_def as_i64_def Let_def)

lemma as_i32_inject: "m < 2 ^ 32 \<Longrightarrow> n < 2 ^ 32 \<Longrightarrow> as_i32 m = as_i32 n \<longleftrightarrow> m = n"
  by (metis as_u32_as_i32)

lemma u32_add_id [cast_simps]: "a + b < 2 ^ 32 \<Longrightarrow> u32_add a b = a + b"
  by (simp add: u32_add_def)

lemma u64_add_id [cast_simps]: "a + b < 2 ^ 64 \<Longrightarrow> u64_add a b = a + b"
  by (simp add: u64_add_def)

section \<open>Hash maps\<close>

text \<open>
  A Rust \<open>HashMap\<close> whose entries are also iterated over: an association list with
  distinct keys, looked up with \<^const>\<open>map_of\<close>. Inserting an existing key replaces it.
\<close>

definition hm_insert :: "'k \<Rightarrow> 'v \<Rightarrow> ('k \<times> 'v) list \<Rightarrow> ('k \<times> 'v) list" where
  "hm_insert k v m = filter (\<lambda>p. fst p \<noteq> k) m @ [(k, v)]"

definition hm_from_iter :: "('k \<times> 'v) list \<Rightarrow> ('k \<times> 'v) list" where
  "hm_from_iter kvs = fold (\<lambda>(k, v). hm_insert k v) kvs []"

lemma map_of_filter_neq: "map_of (filter (\<lambda>p. fst p \<noteq> k) m) = (map_of m)(k := None)"
  by (induction m) (auto simp: fun_eq_iff)

lemma map_of_hm_insert [simp, hm_simps]: "map_of (hm_insert k v m) = (map_of m)(k \<mapsto> v)"
  by (auto simp: hm_insert_def map_of_filter_neq map_add_def fun_eq_iff split: option.splits)

lemma keys_hm_insert [simp]: "fst ` set (hm_insert k v m) = insert k (fst ` set m)"
  by (auto simp: hm_insert_def image_iff)

lemma distinct_hm_insert: "distinct (map fst m) \<Longrightarrow> distinct (map fst (hm_insert k v m))"
  by (auto simp: hm_insert_def distinct_map_filter)

lemma hm_insert_fresh: "k \<notin> fst ` set m \<Longrightarrow> hm_insert k v m = m @ [(k, v)]"
  by (auto simp: hm_insert_def filter_id_conv)

lemma map_of_hm_from_iter: "map_of (hm_from_iter kvs) = map_of (rev kvs)"
proof (induction kvs rule: rev_induct)
  case Nil
  then show ?case by (simp add: hm_from_iter_def)
next
  case (snoc p kvs)
  obtain k v where p: "p = (k, v)" by (cases p)
  have "hm_from_iter (kvs @ [p]) = hm_insert k v (hm_from_iter kvs)"
    by (simp add: hm_from_iter_def p)
  then show ?case by (simp add: snoc p)
qed

section \<open>Decimal rendering\<close>

definition digit_char :: "nat \<Rightarrow> char" where
  "digit_char d = char_of (48 + d)"

function show_nat :: "nat \<Rightarrow> string" where
  "show_nat n = (if n < 10 then [digit_char n] else show_nat (n div 10) @ [digit_char (n mod 10)])"
  by pat_completeness auto
termination
  by (relation "measure id") auto

declare show_nat.simps [simp del]

definition show_int :: "int \<Rightarrow> string" where
  "show_int i = (if i < 0 then ''-'' @ show_nat (nat (- i)) else show_nat (nat i))"

text \<open>\<open>format!("{:0w$}", n)\<close>: zero padding to a minimum width.\<close>

definition pad_nat :: "nat \<Rightarrow> nat \<Rightarrow> string" where
  "pad_nat w n = (let s = show_nat n in replicate (w - length s) (CHR ''0'') @ s)"

text \<open>\<open>str::parse\<close> for an unsigned type with values below \<open>bound\<close>: at least one digit
  after an optional plus sign, nothing else, no overflow.\<close>

definition is_digit :: "char \<Rightarrow> bool" where
  "is_digit c \<longleftrightarrow> 48 \<le> (of_char c :: nat) \<and> (of_char c :: nat) \<le> 57"

definition digit_value :: "char \<Rightarrow> nat" where
  "digit_value c = of_char c - 48"

definition parse_unsigned :: "nat \<Rightarrow> string \<Rightarrow> nat option" where
  "parse_unsigned bound s =
     (let ds = (case s of c # cs \<Rightarrow> if c = CHR ''+'' then cs else s | [] \<Rightarrow> [])
      in if ds = [] \<or> \<not> list_all is_digit ds then None
         else let n = foldl (\<lambda>acc c. acc * 10 + digit_value c) 0 ds
              in if n < bound then Some n else None)"

text \<open>\<open>str::trim\<close> on ASCII text.\<close>

definition is_space :: "char \<Rightarrow> bool" where
  "is_space c \<longleftrightarrow> (9 \<le> (of_char c :: nat) \<and> (of_char c :: nat) \<le> 13) \<or> (of_char c :: nat) = 32"

definition trim :: "string \<Rightarrow> string" where
  "trim s = rev (dropWhile is_space (rev (dropWhile is_space s)))"

lemma of_char_digit_char: "d < 10 \<Longrightarrow> (of_char (digit_char d) :: nat) = 48 + d"
  by (simp add: digit_char_def of_char_of)

lemma is_digit_digit_char [simp]: "d < 10 \<Longrightarrow> is_digit (digit_char d)"
  by (simp add: is_digit_def of_char_digit_char)

lemma digit_value_digit_char [simp]: "d < 10 \<Longrightarrow> digit_value (digit_char d) = d"
  by (simp add: digit_value_def of_char_digit_char)

lemma show_nat_not_Nil [simp]: "show_nat n \<noteq> []"
  by (subst show_nat.simps) simp

lemma show_nat_digits: "list_all is_digit (show_nat n)"
proof (induction n rule: show_nat.induct)
  case (1 n)
  then show ?case
    by (cases "n < 10") (simp_all add: show_nat.simps [of n])
qed

lemma show_nat_value: "foldl (\<lambda>acc c. acc * 10 + digit_value c) 0 (show_nat n) = n"
proof (induction n rule: show_nat.induct)
  case (1 n)
  then show ?case
    by (cases "n < 10") (simp_all add: show_nat.simps [of n])
qed

lemma plus_not_digit: "is_digit c \<Longrightarrow> c \<noteq> CHR ''+''"
  by (auto simp: is_digit_def)

lemma foldl_leading_zeros:
  "foldl (\<lambda>acc c. acc * 10 + digit_value c) 0 (replicate k (CHR ''0'') @ s) =
   foldl (\<lambda>acc c. acc * 10 + digit_value c) 0 s"
  by (induction k) (simp_all add: digit_value_def)

lemma list_all_digit_pad: "list_all is_digit (pad_nat w n)"
  using show_nat_digits [of n] by (auto simp: pad_nat_def Let_def list_all_iff is_digit_def)

lemma pad_nat_not_Nil [simp]: "pad_nat w n \<noteq> []"
  by (simp add: pad_nat_def Let_def)

lemma parse_unsigned_digits:
  assumes "ds \<noteq> []" and "list_all is_digit ds"
    and "foldl (\<lambda>acc c. acc * 10 + digit_value c) 0 ds = n" and "n < bound"
  shows "parse_unsigned bound ds = Some n"
  using assms by (cases ds) (auto simp: parse_unsigned_def Let_def dest: plus_not_digit)

lemma parse_pad_nat: "n < bound \<Longrightarrow> parse_unsigned bound (pad_nat w n) = Some n"
proof (rule parse_unsigned_digits)
  show "foldl (\<lambda>acc c. acc * 10 + digit_value c) 0 (pad_nat w n) = n"
    by (simp add: pad_nat_def Let_def foldl_leading_zeros show_nat_value del: foldl_append)
qed (simp_all add: list_all_digit_pad)

lemma parse_show_nat: "n < bound \<Longrightarrow> parse_unsigned bound (show_nat n) = Some n"
  by (rule parse_unsigned_digits) (simp_all add: show_nat_digits show_nat_value)

section \<open>Lists\<close>

lemma take_length_append [simp]: "length xs = n \<Longrightarrow> take n (xs @ ys) = xs"
  by simp

lemma find_None_iff_notin: "List.find P xs = None \<longleftrightarrow> (\<forall>x \<in> set xs. \<not> P x)"
  by (auto simp: find_None_iff)

lemma find_Some_in: "List.find P xs = Some x \<Longrightarrow> x \<in> set xs \<and> P x"
  by (induction xs) (auto split: if_splits)

lemma ex_less_split:
  "m \<le> n \<Longrightarrow> (\<exists>k < n. Q k) \<longleftrightarrow> (\<exists>k < m. Q k) \<or> (\<exists>k \<ge> m. k < n \<and> Q k)" for m n :: nat
  by (meson leI less_le_trans)

section \<open>Text\<close>

definition strip_prefix :: "string \<Rightarrow> string \<Rightarrow> string option" where
  "strip_prefix pre s = (if take (length pre) s = pre then Some (drop (length pre) s) else None)"

definition strip_suffix :: "string \<Rightarrow> string \<Rightarrow> string option" where
  "strip_suffix suf s =
     (if length suf \<le> length s \<and> drop (length s - length suf) s = suf
      then Some (take (length s - length suf) s) else None)"

text \<open>\<open>str::split\<close> at a character.\<close>

fun split_at :: "char \<Rightarrow> string \<Rightarrow> string list" where
  "split_at c [] = [[]]"
| "split_at c (x # xs) =
     (if x = c then [] # split_at c xs
      else (case split_at c xs of [] \<Rightarrow> [[x]] | w # ws \<Rightarrow> (x # w) # ws))"

lemma split_at_none: "c \<notin> set s \<Longrightarrow> split_at c s = [s]"
  by (induction s) auto

lemma split_at_two: "c \<notin> set s \<Longrightarrow> split_at c (s @ c # t) = s # split_at c t"
  by (induction s) auto

lemma strip_suffix_append: "strip_suffix suf (s @ suf) = Some s"
  by (simp add: strip_suffix_def)

lemma strip_prefix_append: "strip_prefix pre (pre @ s) = Some s"
  by (simp add: strip_prefix_def)

end
