(* ===== verification/Byte_Codec.thy ===== *)
theory Byte_Codec
  imports Prelude
begin

text \<open>
  Byte-level reading and writing as the payload format uses it: fixed-width little- and
  big-endian integers (\<open>to_le_bytes\<close>, \<open>from_be_bytes\<close>), \<open>Read::read_exact\<close> on a slice, and the
  locale of the interface every field of the format satisfies: reading back what was
  written, with whatever follows it left untouched.
\<close>

type_synonym u8 = "8 word"

section \<open>Fixed-width integers\<close>

fun le_bytes :: "nat \<Rightarrow> nat \<Rightarrow> u8 list" where
  "le_bytes 0 v = []"
| "le_bytes (Suc k) v = of_nat (v mod 256) # le_bytes k (v div 256)"

definition from_le_bytes :: "u8 list \<Rightarrow> nat" where
  "from_le_bytes bs = foldr (\<lambda>b acc. unat b + 256 * acc) bs 0"

definition be_bytes :: "nat \<Rightarrow> nat \<Rightarrow> u8 list" where
  "be_bytes k v = rev (le_bytes k v)"

definition from_be_bytes :: "u8 list \<Rightarrow> nat" where
  "from_be_bytes bs = from_le_bytes (rev bs)"

lemma length_le_bytes [simp]: "length (le_bytes k v) = k"
  by (induction k arbitrary: v) simp_all

lemma length_be_bytes [simp]: "length (be_bytes k v) = k"
  by (simp add: be_bytes_def)

lemma from_le_bytes_simps [simp]:
  "from_le_bytes [] = 0"
  "from_le_bytes (b # bs) = unat b + 256 * from_le_bytes bs"
  by (simp_all add: from_le_bytes_def)

lemma unat_of_nat_byte [simp]: "unat (of_nat (v mod 256) :: u8) = v mod 256"
  by (simp add: unat_of_nat)

lemma from_le_bytes_le_bytes [simp]: "v < 256 ^ k \<Longrightarrow> from_le_bytes (le_bytes k v) = v"
proof (induction k arbitrary: v)
  case 0
  then show ?case by simp
next
  case (Suc k)
  then have "v div 256 < 256 ^ k" by (simp add: less_mult_imp_div_less mult.commute)
  then show ?case using Suc.IH by (simp add: mod_mult_div_eq)
qed

lemma from_le_bytes_bound: "from_le_bytes bs < 256 ^ length bs"
proof (induction bs)
  case Nil
  then show ?case by simp
next
  case (Cons b bs)
  have "unat b < 256" using unsigned_less [of b, where ?'a = nat] by simp
  with Cons show ?case by simp
qed

lemma from_be_bytes_be_bytes [simp]: "v < 256 ^ k \<Longrightarrow> from_be_bytes (be_bytes k v) = v"
  by (simp add: from_be_bytes_def be_bytes_def)

section \<open>Hexadecimal text\<close>

text \<open>\<open>hex::encode\<close>: two lower-case digits per byte, high nibble first; \<open>hex::decode\<close> reads
  either case and refuses an odd length or any other character.\<close>

definition hex_digit :: "nat \<Rightarrow> char" where
  "hex_digit d = (if d < 10 then char_of (48 + d) else char_of (87 + d))"

definition hex_value :: "char \<Rightarrow> nat option" where
  "hex_value c =
     (let n = of_char c :: nat
      in if 48 \<le> n \<and> n \<le> 57 then Some (n - 48)
         else if 97 \<le> n \<and> n \<le> 102 then Some (n - 87)
         else if 65 \<le> n \<and> n \<le> 70 then Some (n - 55)
         else None)"

definition hex_encode :: "u8 list \<Rightarrow> string" where
  "hex_encode bs = concat (map (\<lambda>b. [hex_digit (unat b div 16), hex_digit (unat b mod 16)]) bs)"

fun hex_decode :: "string \<Rightarrow> u8 list option" where
  "hex_decode [] = Some []"
| "hex_decode [c] = None"
| "hex_decode (c # d # s) =
     (case (hex_value c, hex_value d, hex_decode s) of
        (Some h, Some l, Some bs) \<Rightarrow> Some (of_nat (16 * h + l) # bs)
      | _ \<Rightarrow> None)"

definition strip_0x :: "string \<Rightarrow> string" where
  "strip_0x s = (if take 2 s = ''0x'' then drop 2 s else s)"

lemma hex_value_digit [simp]: "d < 16 \<Longrightarrow> hex_value (hex_digit d) = Some d"
  by (auto simp: hex_value_def hex_digit_def of_char_of Let_def)

lemma hex_decode_encode [simp]: "hex_decode (hex_encode bs) = Some bs"
proof (induction bs)
  case Nil
  then show ?case by (simp add: hex_encode_def)
next
  case (Cons b bs)
  have "unat b < 256" using unsigned_less [of b, where ?'a = nat] by simp
  then have "unat b div 16 < 16" by simp
  moreover have "(of_nat (16 * (unat b div 16) + unat b mod 16) :: u8) = b" by simp
  ultimately show ?case using Cons by (simp add: hex_encode_def del: of_nat_add of_nat_mult)
qed

lemma length_hex_encode [simp]: "length (hex_encode bs) = 2 * length bs"
  by (induction bs) (simp_all add: hex_encode_def)

lemma hex_encode_inject: "hex_encode xs = hex_encode ys \<longleftrightarrow> xs = ys"
  by (metis hex_decode_encode option.inject)

section \<open>Reading from a slice\<close>

text \<open>\<open>read_exact\<close> on \<open>&[u8]\<close>: fails with \<open>UnexpectedEof\<close> when fewer bytes are left.\<close>

definition read_exact :: "nat \<Rightarrow> u8 list \<Rightarrow> (string, u8 list \<times> u8 list) outcome" where
  "read_exact n bs = (if length bs < n then Err ''failed to fill whole buffer''
                      else Ok (take n bs, drop n bs))"

text \<open>A loop that reads \<open>n\<close> items one after the other.\<close>

fun read_n :: "(u8 list \<Rightarrow> ('e, 'a \<times> u8 list) outcome) \<Rightarrow> nat \<Rightarrow> u8 list
                 \<Rightarrow> ('e, 'a list \<times> u8 list) outcome" where
  "read_n rd 0 bs = Ok ([], bs)"
| "read_n rd (Suc n) bs =
     obind (rd bs) (\<lambda>(x, bs'). obind (read_n rd n bs') (\<lambda>(xs, bs''). Ok (x # xs, bs'')))"

lemma read_exact_append [simp]: "length xs = n \<Longrightarrow> read_exact n (xs @ rest) = Ok (xs, rest)"
  by (simp add: read_exact_def)

lemma read_exact_no_panic [simp]: "read_exact n bs \<noteq> Panic"
  by (simp add: read_exact_def)

lemma read_exact_OkD: "read_exact n bs = Ok (xs, rest) \<Longrightarrow> bs = xs @ rest \<and> length xs = n"
  by (auto simp: read_exact_def split: if_splits)

lemma read_n_no_panic: "(\<And>bs. rd bs \<noteq> Panic) \<Longrightarrow> read_n rd n bs \<noteq> Panic"
  by (induction n arbitrary: bs) (auto simp: obind_Panic_iff split: prod.splits)

lemma read_n_all:
  assumes "read_n rd n bs = Ok (xs, rest)" and "\<And>bs x r. rd bs = Ok (x, r) \<Longrightarrow> P x"
  shows "length xs = n \<and> list_all P xs"
  using assms(1)
proof (induction n arbitrary: bs xs)
  case 0
  then show ?case by simp
next
  case (Suc n)
  then show ?case using assms(2) by fastforce
qed

section \<open>The interface of a field codec\<close>

locale stream_codec =
  fixes enc :: "'a \<Rightarrow> u8 list"
    and dec :: "u8 list \<Rightarrow> ('e, 'a \<times> u8 list) outcome"
    and valid :: "'a \<Rightarrow> bool"
  assumes dec_enc: "valid x \<Longrightarrow> dec (enc x @ rest) = Ok (x, rest)"
begin

lemma prefix_free:
  assumes "valid x" and "valid y" and "enc x @ r = enc y @ s"
  shows "x = y \<and> r = s"
proof -
  have "Ok (x, r) = (Ok (y, s) :: ('e, 'a \<times> u8 list) outcome)"
    by (metis assms dec_enc)
  then show ?thesis by simp
qed

lemma injective: "valid x \<Longrightarrow> valid y \<Longrightarrow> enc x = enc y \<Longrightarrow> x = y"
  using prefix_free [of x y "[]" "[]"] by simp

lemma read_many:
  "list_all valid xs \<Longrightarrow> read_n dec (length xs) (concat (map enc xs) @ rest) = Ok (xs, rest)"
  by (induction xs) (simp_all add: dec_enc)

end

text \<open>The fixed-width integers are such fields.\<close>

definition read_le :: "nat \<Rightarrow> u8 list \<Rightarrow> (string, nat \<times> u8 list) outcome" where
  "read_le k bs = obind (read_exact k bs) (\<lambda>(xs, rest). Ok (from_le_bytes xs, rest))"

interpretation le_int: stream_codec "le_bytes k" "read_le k" "\<lambda>v. v < 256 ^ k" for k
  by unfold_locales (simp add: read_le_def)

end
