(* ===== verification/Pod2_Containers.thy ===== *)
theory Pod2_Containers
  imports Byte_Codec
begin

text \<open>
  The Merkle containers the synchronizer keeps (\<open>synchronizer/src/container_db.rs\<close>), over pod2's
  containers as a parameter: a record of the operations the services call, with the type of
  hashes, of array and set handles and of Merkle proofs left open. What the services rely on
  is stated by two predicates: \<open>pod2_sound\<close> (every answer that comes back is right with
  respect to a view of the handles as partial maps and sets) and \<open>pod2_live\<close> (the storage
  answers). A symbolic instance at the end satisfies both.
\<close>

section \<open>The parameter\<close>

text \<open>An Ethereum 32-byte value, as its bytes.\<close>

type_synonym b256 = "u8 list"

datatype 'h pod_value = IntVal int | HashVal 'h

record ('h, 'a, 's, 'mp) pod2 =
  EMPTY_HASH :: 'h
  hash_of_limbs :: "nat list \<Rightarrow> 'h"
  array_new_commitment :: "'h pod_value list \<Rightarrow> 'h"
  array_from_db :: "'h \<Rightarrow> (string, 'a) outcome"
  array_get :: "'a \<Rightarrow> nat \<Rightarrow> (string, 'h option) outcome"
  array_insert :: "'a \<Rightarrow> nat \<Rightarrow> 'h \<Rightarrow> (string, 'a) outcome"
  array_commitment :: "'a \<Rightarrow> 'h"
  array_prove :: "'a \<Rightarrow> nat \<Rightarrow> (string, 'h \<times> 'mp) outcome"
  set_from_db :: "'h \<Rightarrow> (string, 's) outcome"
  set_contains :: "'s \<Rightarrow> 'h \<Rightarrow> (string, bool) outcome"
  set_insert :: "'s \<Rightarrow> 'h \<Rightarrow> (string, 's) outcome"
  set_commitment :: "'s \<Rightarrow> 'h"

text \<open>The partial map of an array filled from index 0.\<close>

definition nth_opt :: "'x list \<Rightarrow> nat \<Rightarrow> 'x option" where
  "nth_opt xs i = (if i < length xs then Some (xs ! i) else None)"

definition arrays_sound :: "('h, 'a, 's, 'mp) pod2 \<Rightarrow> ('a \<Rightarrow> nat \<Rightarrow> 'h option) \<Rightarrow> bool" where
  "arrays_sound P va \<longleftrightarrow>
     (\<forall>a i v. array_get P a i = Ok v \<longrightarrow> v = va a i)
     \<and> (\<forall>a i v a'. va a i = None \<longrightarrow> array_insert P a i v = Ok a' \<longrightarrow> va a' = (va a)(i \<mapsto> v))
     \<and> (\<forall>a i v pr. array_prove P a i = Ok (v, pr) \<longrightarrow> va a i = Some v)
     \<and> (\<forall>a b. array_from_db P (array_commitment P a) = Ok b \<longrightarrow> va b = va a)
     \<and> (\<forall>b. array_from_db P (EMPTY_HASH P) = Ok b \<longrightarrow> va b = (\<lambda>_. None))"

definition sets_sound :: "('h, 'a, 's, 'mp) pod2 \<Rightarrow> ('s \<Rightarrow> 'h set) \<Rightarrow> bool" where
  "sets_sound P vs \<longleftrightarrow>
     (\<forall>s x b. set_contains P s x = Ok b \<longrightarrow> b = (x \<in> vs s))
     \<and> (\<forall>s x s'. x \<notin> vs s \<longrightarrow> set_insert P s x = Ok s' \<longrightarrow> vs s' = insert x (vs s))
     \<and> (\<forall>s t. set_from_db P (set_commitment P s) = Ok t \<longrightarrow> vs t = vs s)
     \<and> (\<forall>t. set_from_db P (EMPTY_HASH P) = Ok t \<longrightarrow> vs t = {})"

definition pod2_sound ::
    "('h, 'a, 's, 'mp) pod2 \<Rightarrow> ('a \<Rightarrow> nat \<Rightarrow> 'h option) \<Rightarrow> ('s \<Rightarrow> 'h set) \<Rightarrow> bool" where
  "pod2_sound P va vs \<longleftrightarrow> arrays_sound P va \<and> sets_sound P vs"

text \<open>Storage that answers: roots of existing containers reopen, reads succeed, insertions
  of absent entries succeed, present indices can be proved.\<close>

definition pod2_live ::
    "('h, 'a, 's, 'mp) pod2 \<Rightarrow> ('a \<Rightarrow> nat \<Rightarrow> 'h option) \<Rightarrow> ('s \<Rightarrow> 'h set) \<Rightarrow> bool" where
  "pod2_live P va vs \<longleftrightarrow>
     (\<forall>a. \<exists>b. array_from_db P (array_commitment P a) = Ok b)
     \<and> (\<exists>b. array_from_db P (EMPTY_HASH P) = Ok b)
     \<and> (\<forall>a i. \<exists>v. array_get P a i = Ok v)
     \<and> (\<forall>a i v. va a i = None \<longrightarrow> (\<exists>a'. array_insert P a i v = Ok a'))
     \<and> (\<forall>a i v. va a i = Some v \<longrightarrow> (\<exists>pr. array_prove P a i = Ok (v, pr)))
     \<and> (\<forall>s. \<exists>t. set_from_db P (set_commitment P s) = Ok t)
     \<and> (\<exists>t. set_from_db P (EMPTY_HASH P) = Ok t)
     \<and> (\<forall>s x. \<exists>b. set_contains P s x = Ok b)
     \<and> (\<forall>s x. x \<notin> vs s \<longrightarrow> (\<exists>s'. set_insert P s x = Ok s'))"

section \<open>Execution blocks, roots and state headers (don_state.rs)\<close>

record 'h state_roots =
  created_root :: 'h
  nullifiers_root :: 'h
  prior_state_history :: 'h
  next_state_history :: 'h

definition state_roots_empty :: "('h, 'a, 's, 'mp) pod2 \<Rightarrow> 'h state_roots" where
  "state_roots_empty P = \<lparr> created_root = EMPTY_HASH P, nullifiers_root = EMPTY_HASH P,
     prior_state_history = EMPTY_HASH P, next_state_history = EMPTY_HASH P \<rparr>"

record execution_block =
  eb_number :: nat
  eb_timestamp :: nat
  eb_hash :: b256

record 'h state_metadata =
  state_root :: 'h
  md_block :: execution_block
  created_count :: nat
  nullifier_count :: nat
  state_root_count :: nat

record 'h don_state =
  roots :: "'h state_roots"
  metadata :: "'h state_metadata"

text \<open>\<open>txlib::StateHeader\<close> and its commitment.\<close>

record 'h state_header_rec =
  block_number :: int
  block_timestamp :: int
  block_hash :: 'h
  h_created_root :: 'h
  h_nullifiers_root :: 'h
  h_prior_state_history_root :: 'h

definition header_array :: "'h state_header_rec \<Rightarrow> 'h pod_value list" where
  "header_array h =
     [IntVal (block_number h), IntVal (block_timestamp h), HashVal (block_hash h),
      HashVal (h_created_root h), HashVal (h_nullifiers_root h),
      HashVal (h_prior_state_history_root h)]"

definition header_hash :: "('h, 'a, 's, 'mp) pod2 \<Rightarrow> 'h state_header_rec \<Rightarrow> 'h" where
  "header_hash P h = array_new_commitment P (header_array h)"

text \<open>The 32 bytes as four little-endian limbs, each taken into the field by pod2.\<close>

definition b256_to_hash :: "('h, 'a, 's, 'mp) pod2 \<Rightarrow> b256 \<Rightarrow> 'h" where
  "b256_to_hash P v =
     hash_of_limbs P (map (\<lambda>i. from_le_bytes (take 8 (drop (8 * i) v))) [0, 1, 2, 3])"

definition state_header ::
    "('h, 'a, 's, 'mp) pod2 \<Rightarrow> execution_block \<Rightarrow> 'h \<Rightarrow> 'h \<Rightarrow> 'h \<Rightarrow> 'h state_header_rec" where
  "state_header P block cr nr ph =
     \<lparr> block_number = as_i64 (eb_number block), block_timestamp = as_i64 (eb_timestamp block),
       block_hash = b256_to_hash P (eb_hash block), h_created_root = cr,
       h_nullifiers_root = nr, h_prior_state_history_root = ph \<rparr>"

definition don_state_header :: "('h, 'a, 's, 'mp) pod2 \<Rightarrow> 'h don_state \<Rightarrow> 'h state_header_rec" where
  "don_state_header P st =
     state_header P (md_block (metadata st)) (created_root (roots st))
       (nullifiers_root (roots st)) (prior_state_history (roots st))"

section \<open>Container queries (container_db.rs)\<close>

definition open_created :: "('h, 'a, 's, 'mp) pod2 \<Rightarrow> 'h \<Rightarrow> (string, 'a) outcome" where
  "open_created P root = array_from_db P root"

definition open_nullifiers :: "('h, 'a, 's, 'mp) pod2 \<Rightarrow> 'h \<Rightarrow> (string, 's) outcome" where
  "open_nullifiers P root = set_from_db P root"

definition open_next_state_history :: "('h, 'a, 's, 'mp) pod2 \<Rightarrow> 'h \<Rightarrow> (string, 'a) outcome" where
  "open_next_state_history P root = array_from_db P root"

text \<open>The index comes from a \<open>BIGINT\<close> column and is cast to \<open>usize\<close>.\<close>

definition created_array_holds ::
    "('h, 'a, 's, 'mp) pod2 \<Rightarrow> 'a \<Rightarrow> int \<Rightarrow> 'h \<Rightarrow> (string, bool) outcome" where
  "created_array_holds P created index commitment =
     obind (array_get P created (as_u64 index)) (\<lambda>v. Ok (v = Some commitment))"

definition prove_created_for ::
    "('h, 'a, 's, 'mp) pod2 \<Rightarrow> 'h state_roots \<Rightarrow> 'h list \<Rightarrow> ('h \<times> int) list
     \<Rightarrow> (string, (int \<times> 'mp) option list) outcome" where
  "prove_created_for P rs obj_commitments indices =
     obind (open_created P (created_root rs)) (\<lambda>created.
       omap (\<lambda>commitment.
         case map_of indices commitment of
           None \<Rightarrow> Ok None
         | Some index \<Rightarrow>
             (case array_prove P created (as_u64 index) of
                Panic \<Rightarrow> Panic
              | Err _ \<Rightarrow> Ok None
              | Ok (v, proof) \<Rightarrow> if v = commitment then Ok (Some (index, proof)) else Ok None))
         obj_commitments)"

definition created_exists_for ::
    "('h, 'a, 's, 'mp) pod2 \<Rightarrow> 'h state_roots \<Rightarrow> 'h list \<Rightarrow> ('h \<times> int) list
     \<Rightarrow> (string, bool list) outcome" where
  "created_exists_for P rs obj_commitments indices =
     obind (open_created P (created_root rs)) (\<lambda>created.
       omap (\<lambda>commitment.
         case map_of indices commitment of
           None \<Rightarrow> Ok False
         | Some index \<Rightarrow> created_array_holds P created index commitment) obj_commitments)"

definition nullifier_exists_batch ::
    "('h, 'a, 's, 'mp) pod2 \<Rightarrow> 'h state_roots \<Rightarrow> 'h list \<Rightarrow> (string, bool list) outcome" where
  "nullifier_exists_batch P rs hs =
     obind (open_nullifiers P (nullifiers_root rs)) (\<lambda>s. omap (set_contains P s) hs)"

section \<open>Consequences of the contracts\<close>

lemma nth_opt_snoc [simp]: "nth_opt (xs @ [x]) = (nth_opt xs)(length xs \<mapsto> x)"
  by (auto simp: nth_opt_def fun_eq_iff nth_append)

lemma nth_opt_Nil [simp]: "nth_opt [] = (\<lambda>_. None)"
  by (auto simp: nth_opt_def)

lemma nth_opt_length [simp]: "nth_opt xs (length xs) = None"
  by (simp add: nth_opt_def)

lemma nth_opt_Some_iff: "nth_opt xs i = Some x \<longleftrightarrow> i < length xs \<and> xs ! i = x"
  by (simp add: nth_opt_def)

lemma sound_array_get: "pod2_sound P va vs \<Longrightarrow> array_get P a i = Ok v \<Longrightarrow> v = va a i"
  by (simp add: pod2_sound_def arrays_sound_def)

lemma sound_array_insert:
  "pod2_sound P va vs \<Longrightarrow> array_insert P a i v = Ok a' \<Longrightarrow> va a i = None \<Longrightarrow> va a' = (va a)(i \<mapsto> v)"
  by (simp add: pod2_sound_def arrays_sound_def)

lemma sound_array_prove:
  "pod2_sound P va vs \<Longrightarrow> array_prove P a i = Ok (v, pr) \<Longrightarrow> va a i = Some v"
  by (simp add: pod2_sound_def arrays_sound_def)

lemma sound_array_reopen:
  "pod2_sound P va vs \<Longrightarrow> array_from_db P (array_commitment P a) = Ok b \<Longrightarrow> va b = va a"
  by (simp add: pod2_sound_def arrays_sound_def)

lemma sound_array_empty:
  "pod2_sound P va vs \<Longrightarrow> array_from_db P (EMPTY_HASH P) = Ok b \<Longrightarrow> va b = nth_opt []"
  by (simp add: pod2_sound_def arrays_sound_def)

lemma sound_set_contains: "pod2_sound P va vs \<Longrightarrow> set_contains P s x = Ok b \<Longrightarrow> b = (x \<in> vs s)"
  by (simp add: pod2_sound_def sets_sound_def)

lemma sound_set_insert:
  "pod2_sound P va vs \<Longrightarrow> set_insert P s x = Ok s' \<Longrightarrow> x \<notin> vs s \<Longrightarrow> vs s' = insert x (vs s)"
  by (simp add: pod2_sound_def sets_sound_def)

lemma sound_set_reopen:
  "pod2_sound P va vs \<Longrightarrow> set_from_db P (set_commitment P s) = Ok t \<Longrightarrow> vs t = vs s"
  by (simp add: pod2_sound_def sets_sound_def)

lemma sound_set_empty: "pod2_sound P va vs \<Longrightarrow> set_from_db P (EMPTY_HASH P) = Ok t \<Longrightarrow> vs t = {}"
  by (simp add: pod2_sound_def sets_sound_def)

lemma created_array_holds_sound:
  assumes "pod2_sound P va vs" and "created_array_holds P a i x = Ok b"
  shows "b \<longleftrightarrow> va a (as_u64 i) = Some x"
  using assms by (auto simp: created_array_holds_def dest: sound_array_get)

section \<open>A symbolic instance\<close>

text \<open>
  Hashes as terms: the root of a container is the container. The empty array and the empty set share
  the root \<open>Atom 0\<close>, as in pod2.
\<close>

datatype sym = Atom nat | ArrRoot "(nat \<times> sym) list" | SetRoot "sym list" | Limbs "nat list"
  | Values "sym pod_value list"

definition sym_array_root :: "(nat \<times> sym) list \<Rightarrow> sym" where
  "sym_array_root l = (if l = [] then Atom 0 else ArrRoot l)"

definition sym_set_root :: "sym list \<Rightarrow> sym" where
  "sym_set_root l = (if l = [] then Atom 0 else SetRoot l)"

fun sym_array_open :: "sym \<Rightarrow> (string, (nat \<times> sym) list) outcome" where
  "sym_array_open (Atom n) = (if n = 0 then Ok [] else Err ''no array at root'')"
| "sym_array_open (ArrRoot l) = Ok l"
| "sym_array_open _ = Err ''no array at root''"

fun sym_set_open :: "sym \<Rightarrow> (string, sym list) outcome" where
  "sym_set_open (Atom n) = (if n = 0 then Ok [] else Err ''no set at root'')"
| "sym_set_open (SetRoot l) = Ok l"
| "sym_set_open _ = Err ''no set at root''"

definition sym_pod2 :: "(sym, (nat \<times> sym) list, sym list, nat) pod2" where
  "sym_pod2 = \<lparr>
     EMPTY_HASH = Atom 0,
     hash_of_limbs = Limbs,
     array_new_commitment = Values,
     array_from_db = sym_array_open,
     array_get = (\<lambda>a i. Ok (map_of a i)),
     array_insert = (\<lambda>a i v. if map_of a i = None then Ok ((i, v) # a) else Err ''key exists''),
     array_commitment = sym_array_root,
     array_prove = (\<lambda>a i. case map_of a i of None \<Rightarrow> Err ''key not found'' | Some v \<Rightarrow> Ok (v, i)),
     set_from_db = sym_set_open,
     set_contains = (\<lambda>s x. Ok (x \<in> set s)),
     set_insert = (\<lambda>s x. if x \<in> set s then Err ''key exists'' else Ok (x # s)),
     set_commitment = sym_set_root \<rparr>"

lemma sym_pod2_sound: "pod2_sound sym_pod2 map_of set"
  by (auto simp: pod2_sound_def arrays_sound_def sets_sound_def sym_pod2_def sym_array_root_def
      sym_set_root_def split: if_splits option.splits)

lemma sym_pod2_live: "pod2_live sym_pod2 map_of set"
  by (auto simp: pod2_live_def sym_pod2_def sym_array_root_def sym_set_root_def)

end
