(* ===== verification/Payload_Codec.thy ===== *)
theory Payload_Codec
  imports Byte_Codec
begin

text \<open>
  The proof payload of \<open>libs/payload\<close>: hashes and field elements as bytes
  (\<open>src/lib.rs\<close>, \<open>src/payload.rs\<close>), the payload's wire format, and the parser that verifies a
  payload's proof (\<open>src/proof.rs\<close>).

  The plonky2 and pod2 libraries are parameters: the field order, the serialisation of a
  compressed proof, and the operations of the proof verifier.
\<close>

section \<open>Field elements and hashes\<close>

text \<open>A field element is its canonical representative, a hash four of them.\<close>

type_synonym felt = nat

datatype hash = Hash felt felt felt felt

fun hash_elems :: "hash \<Rightarrow> felt list" where
  "hash_elems (Hash a b c d) = [a, b, c, d]"

fun hash_of_elems :: "felt list \<Rightarrow> hash" where
  "hash_of_elems [a, b, c, d] = Hash a b c d"
| "hash_of_elems _ = Hash 0 0 0 0"

definition write_elems :: "felt list \<Rightarrow> u8 list" where
  "write_elems elems = concat (map (le_bytes 8) elems)"

text \<open>One iteration of the loop in \<open>read_elems\<close>: eight bytes, refused when not canonical.\<close>

definition read_elem :: "nat \<Rightarrow> u8 list \<Rightarrow> (string, felt \<times> u8 list) outcome" where
  "read_elem order bs =
     obind (read_exact 8 bs) (\<lambda>(elem_bytes, rest).
       let n = from_le_bytes elem_bytes
       in if n \<ge> order then Err (show_nat n @ '' >= F::ORDER'') else Ok (n, rest))"

definition read_elems :: "nat \<Rightarrow> nat \<Rightarrow> u8 list \<Rightarrow> (string, felt list \<times> u8 list) outcome" where
  "read_elems order n bs = read_n (read_elem order) n bs"

definition read_hash :: "nat \<Rightarrow> u8 list \<Rightarrow> (string, hash \<times> u8 list) outcome" where
  "read_hash order bs = obind (read_elems order 4 bs) (\<lambda>(es, rest). Ok (hash_of_elems es, rest))"

text \<open>A list of hashes behind a one-byte count; the writer asserts that the count fits.\<close>

definition hashes_bytes :: "hash list \<Rightarrow> u8 list" where
  "hashes_bytes hashes =
     of_nat (length hashes) # concat (map (\<lambda>h. write_elems (hash_elems h)) hashes)"

definition write_hashes :: "hash list \<Rightarrow> (string, u8 list) outcome" where
  "write_hashes hashes = (if length hashes \<le> 255 then Ok (hashes_bytes hashes) else Panic)"

definition read_hashes :: "nat \<Rightarrow> u8 list \<Rightarrow> (string, hash list \<times> u8 list) outcome" where
  "read_hashes order bs =
     obind (read_exact 1 bs) (\<lambda>(buffer, rest).
       read_n (read_hash order) (from_le_bytes buffer) rest)"

section \<open>Text form of a hash\<close>

text \<open>The hex digits of a hash are pod2's \<open>ToHex\<close> and \<open>FromHex\<close>, parameters.\<close>

definition encode_hash_hex :: "(hash \<Rightarrow> string) \<Rightarrow> hash \<Rightarrow> string" where
  "encode_hash_hex to_hex h = ''0x'' @ to_hex h"

definition decode_hash_hex :: "(string \<Rightarrow> (string, hash) outcome) \<Rightarrow> string \<Rightarrow> (string, hash) outcome" where
  "decode_hash_hex from_hex s =
     map_err (\<lambda>err. ''invalid hash hex '' @ s @ '': '' @ err) (from_hex (strip_0x s))"

section \<open>Database form of a hash\<close>

text \<open>
  \<open>hash_to_db_bytes\<close> is pod2's \<open>RawValue::to_bytes\<close>, a parameter; the source documents it as the
  little-endian limbs. The reader splits off the full 8-byte chunks and wants four of them,
  so it drops up to seven trailing bytes.
\<close>

definition hash_to_db_bytes :: "(hash \<Rightarrow> u8 list) \<Rightarrow> hash \<Rightarrow> u8 list" where
  "hash_to_db_bytes raw_to_bytes h = raw_to_bytes h"

definition db_bytes_to_hash :: "u8 list \<Rightarrow> (string, hash) outcome" where
  "db_bytes_to_hash bytes =
     (if length bytes div 8 = 4
      then Ok (hash_of_elems (map (\<lambda>i. from_le_bytes (take 8 (drop (8 * i) bytes))) [0, 1, 2, 3]))
      else Err ''invalid hash byte length'')"

section \<open>Proof types\<close>

datatype ProofType = Plonky2

definition proof_type_from_str :: "string \<Rightarrow> (string, ProofType) outcome" where
  "proof_type_from_str s =
     (if s = ''plonky2'' then Ok Plonky2 else Err (''unsupported PROOF_TYPE '' @ s))"

definition proof_type_from_byte :: "u8 \<Rightarrow> (string, ProofType) outcome" where
  "proof_type_from_byte b =
     (if b = 0 then Ok Plonky2 else Err (''unsupported PROOF_TYPE '' @ show_nat (unat b)))"

fun proof_type_to_byte :: "ProofType \<Rightarrow> u8" where
  "proof_type_to_byte Plonky2 = 0"

section \<open>The payload\<close>

record ('h, 'p) payload =
  p_proof :: 'p
  p_tx_final :: 'h
  p_state_root :: 'h
  p_nullifiers :: "'h list"
  p_created :: "'h list"

text \<open>plonky2's serialisation of a compressed proof, for the circuit's common data.\<close>

record 'p proof_ser =
  write_compressed_proof :: "'p \<Rightarrow> u8 list"
  read_compressed_proof :: "u8 list \<Rightarrow> (string, 'p \<times> nat) outcome"

definition PAYLOAD_MAGIC :: nat where
  "PAYLOAD_MAGIC = 0xd10b"

definition proof_write_bytes :: "'p proof_ser \<Rightarrow> 'p \<Rightarrow> u8 list" where
  "proof_write_bytes P proof = proof_type_to_byte Plonky2 # write_compressed_proof P proof"

text \<open>\<open>bytes[0]\<close> panics on an empty slice.\<close>

definition proof_from_bytes :: "'p proof_ser \<Rightarrow> u8 list \<Rightarrow> (string, 'p \<times> nat) outcome" where
  "proof_from_bytes P bytes =
     (case bytes of
        [] \<Rightarrow> Panic
      | b # bytes' \<Rightarrow>
          obind (proof_type_from_byte b) (\<lambda>proof_type.
            case proof_type of Plonky2 \<Rightarrow>
              obind (map_err (\<lambda>e. ''read_compressed_proof: '' @ e) (read_compressed_proof P bytes'))
                (\<lambda>(proof, len). Ok (proof, len + 1))))"

definition payload_to_bytes :: "'p proof_ser \<Rightarrow> (hash, 'p) payload \<Rightarrow> (string, u8 list) outcome" where
  "payload_to_bytes P p =
     obind (write_hashes (p_nullifiers p)) (\<lambda>ns.
     obind (write_hashes (p_created p)) (\<lambda>cs.
       Ok (le_bytes 2 PAYLOAD_MAGIC
           @ proof_write_bytes P (p_proof p)
           @ write_elems (hash_elems (p_tx_final p))
           @ write_elems (hash_elems (p_state_root p))
           @ ns @ cs)))"

definition payload_from_bytes ::
    "'p proof_ser \<Rightarrow> nat \<Rightarrow> u8 list \<Rightarrow> (string, (hash, 'p) payload) outcome" where
  "payload_from_bytes P order bytes =
     obind (read_le 2 bytes) (\<lambda>(magic, bytes).
       if magic \<noteq> PAYLOAD_MAGIC then Err (''Invalid payload magic: '' @ hex_encode (be_bytes 2 magic))
       else
         obind (proof_from_bytes P bytes) (\<lambda>(proof, len).
           if len > length bytes then Panic
           else
             obind (read_hash order (drop len bytes)) (\<lambda>(tx_final, bytes).
             obind (read_hash order bytes) (\<lambda>(state_root, bytes).
             obind (read_hashes order bytes) (\<lambda>(nullifiers, bytes).
             obind (read_hashes order bytes) (\<lambda>(created, bytes).
               Ok \<lparr> p_proof = proof, p_tx_final = tx_final, p_state_root = state_root,
                    p_nullifiers = nullifiers, p_created = created \<rparr>))))))"

section \<open>The verifying parser\<close>






section \<open>Field codecs\<close>

definition hash_ok :: "nat \<Rightarrow> hash \<Rightarrow> bool" where
  "hash_ok order h \<longleftrightarrow> list_all (\<lambda>v. v < order \<and> v < 256 ^ 8) (hash_elems h)"

definition hashes_ok :: "nat \<Rightarrow> hash list \<Rightarrow> bool" where
  "hashes_ok order hs \<longleftrightarrow> length hs \<le> 255 \<and> list_all (hash_ok order) hs"

definition payload_ok :: "nat \<Rightarrow> (hash, 'p) payload \<Rightarrow> bool" where
  "payload_ok order p \<longleftrightarrow> hash_ok order (p_tx_final p) \<and> hash_ok order (p_state_root p)
     \<and> hashes_ok order (p_nullifiers p) \<and> hashes_ok order (p_created p)"

text \<open>What the format relies on from plonky2: a written proof reads back from any
  continuation with its length, reading never panics and never reports more bytes than it
  was given.\<close>

definition proof_ser_ok :: "'p proof_ser \<Rightarrow> bool" where
  "proof_ser_ok P \<longleftrightarrow>
     (\<forall>p rest. read_compressed_proof P (write_compressed_proof P p @ rest)
                 = Ok (p, length (write_compressed_proof P p)))
     \<and> (\<forall>bs. read_compressed_proof P bs \<noteq> Panic)
     \<and> (\<forall>bs p n. read_compressed_proof P bs = Ok (p, n) \<longrightarrow> n \<le> length bs)"

lemma hash_of_hash_elems [simp]: "hash_of_elems (hash_elems h) = h"
  by (cases h) simp

lemma length_hash_elems [simp]: "length (hash_elems h) = 4"
  by (cases h) simp

lemma length_write_elems [simp]: "length (write_elems es) = 8 * length es"
  by (induction es) (simp_all add: write_elems_def)

interpretation felt_codec: stream_codec "le_bytes 8" "read_elem order"
  "\<lambda>v. v < order \<and> v < 256 ^ 8" for order
  by unfold_locales (simp add: read_elem_def)

lemma read_hash_elems:
  "hash_ok order h \<Longrightarrow> read_hash order (write_elems (hash_elems h) @ rest) = Ok (h, rest)"
  using felt_codec.read_many [of order "hash_elems h" rest]
  by (simp add: hash_ok_def read_hash_def read_elems_def write_elems_def del: read_n.simps)

interpretation hash_codec: stream_codec "\<lambda>h. write_elems (hash_elems h)" "read_hash order"
  "hash_ok order" for order
  by unfold_locales (rule read_hash_elems)

lemma read_hashes_bytes: "hashes_ok order hs \<Longrightarrow> read_hashes order (hashes_bytes hs @ rest) = Ok (hs, rest)"
  using hash_codec.read_many [of order hs rest]
  by (simp add: hashes_ok_def read_hashes_def hashes_bytes_def read_exact_def unat_of_nat)

interpretation hashes_codec: stream_codec hashes_bytes "read_hashes order" "hashes_ok order" for order
  by unfold_locales (rule read_hashes_bytes)

section \<open>Panics and soundness of the readers\<close>

lemma read_elem_no_panic [simp]: "read_elem order bs \<noteq> Panic"
  by (auto simp: read_elem_def obind_Panic_iff Let_def)

lemma read_hash_no_panic [simp]: "read_hash order bs \<noteq> Panic"
  by (auto simp: read_hash_def read_elems_def obind_Panic_iff read_n_no_panic)

lemma read_hashes_no_panic [simp]: "read_hashes order bs \<noteq> Panic"
  by (auto simp: read_hashes_def obind_Panic_iff read_n_no_panic)

lemma read_elem_sound: "read_elem order bs = Ok (v, rest) \<Longrightarrow> v < order \<and> v < 256 ^ 8"
  using from_le_bytes_bound [of "take 8 bs"]
  by (auto simp: read_elem_def read_exact_def Let_def split: if_splits)

lemma hash_elems_of: "length es = 4 \<Longrightarrow> hash_elems (hash_of_elems es) = es"
  by (cases es rule: hash_of_elems.cases) auto

lemma read_hash_sound:
  assumes "read_hash order bs = Ok (h, rest)"
  shows "hash_ok order h"
proof -
  from assms obtain es where es: "read_n (read_elem order) 4 bs = Ok (es, rest)"
    and h: "h = hash_of_elems es"
    by (auto simp: read_hash_def read_elems_def)
  have "length es = 4 \<and> list_all (\<lambda>v. v < order \<and> v < 256 ^ 8) es"
    by (rule read_n_all [OF es]) (rule read_elem_sound)
  then show ?thesis by (simp add: hash_ok_def h hash_elems_of)
qed

lemma read_hashes_sound:
  assumes "read_hashes order bs = Ok (hs, rest)"
  shows "hashes_ok order hs"
proof -
  from assms obtain b r where b: "read_exact 1 bs = Ok (b, r)"
    and hs: "read_n (read_hash order) (from_le_bytes b) r = Ok (hs, rest)"
    by (auto simp: read_hashes_def)
  have "from_le_bytes b < 256"
    using from_le_bytes_bound [of b] read_exact_OkD [OF b] by simp
  moreover have "length hs = from_le_bytes b \<and> list_all (hash_ok order) hs"
    by (rule read_n_all [OF hs]) (rule read_hash_sound)
  ultimately show ?thesis by (simp add: hashes_ok_def)
qed

lemma proof_from_bytes_panic:
  "proof_ser_ok P \<Longrightarrow> proof_from_bytes P bs = Panic \<longleftrightarrow> bs = []"
  by (auto simp: proof_from_bytes_def proof_ser_ok_def obind_Panic_iff proof_type_from_byte_def
      split: list.splits ProofType.splits if_splits)

lemma proof_from_bytes_len:
  "proof_ser_ok P \<Longrightarrow> proof_from_bytes P bs = Ok (p, n) \<Longrightarrow> n \<le> length bs"
  by (cases bs) (auto simp: proof_from_bytes_def proof_ser_ok_def proof_type_from_byte_def
      split: if_splits)

lemma proof_from_bytes_write:
  assumes "proof_ser_ok P"
  shows "proof_from_bytes P (proof_write_bytes P p @ rest) = Ok (p, length (proof_write_bytes P p))"
  using assms
  by (simp add: proof_ser_ok_def proof_from_bytes_def proof_write_bytes_def proof_type_from_byte_def)

section \<open>Properties\<close>

text \<open>A one-byte proof serialisation that satisfies what is asked of plonky2's.\<close>

definition byte_proof_ser :: "u8 proof_ser" where
  "byte_proof_ser = \<lparr> write_compressed_proof = (\<lambda>p. [p]),
     read_compressed_proof = (\<lambda>bs. case bs of [] \<Rightarrow> Err ''eof'' | b # _ \<Rightarrow> Ok (b, 1)) \<rparr>"

lemma byte_proof_ser_ok: "proof_ser_ok byte_proof_ser"
  by (auto simp: proof_ser_ok_def byte_proof_ser_def split: list.splits)

text \<open>The bytes of a payload whose hash lists fit their one-byte counts.\<close>

definition payload_bytes :: "'p proof_ser \<Rightarrow> (hash, 'p) payload \<Rightarrow> u8 list" where
  "payload_bytes P p = le_bytes 2 PAYLOAD_MAGIC @ proof_write_bytes P (p_proof p)
     @ write_elems (hash_elems (p_tx_final p)) @ write_elems (hash_elems (p_state_root p))
     @ hashes_bytes (p_nullifiers p) @ hashes_bytes (p_created p)"

lemma payload_to_payload_bytes: "payload_ok order p \<Longrightarrow> payload_to_bytes P p = Ok (payload_bytes P p)"
  by (simp add: payload_to_bytes_def payload_bytes_def write_hashes_def payload_ok_def hashes_ok_def)

lemma payload_from_payload_bytes:
  assumes "proof_ser_ok P" and "payload_ok order p"
  shows "payload_from_bytes P order (payload_bytes P p @ rest) = Ok p"
  using assms le_int.dec_enc [of PAYLOAD_MAGIC 2]
  by (simp add: payload_from_bytes_def payload_bytes_def payload_ok_def proof_from_bytes_write
      hash_codec.dec_enc hashes_codec.dec_enc PAYLOAD_MAGIC_def)

text \<open>C36. The payload format round-trips: a payload with canonical hashes and at most 255
  nullifiers and created commitments is written without panic, and reading the bytes back,
  whatever bytes follow them, returns the payload.\<close>

theorem payload_roundtrip:
  assumes "proof_ser_ok P" and "payload_ok order p"
  shows "\<exists>bs. payload_to_bytes P p = Ok bs
              \<and> (\<forall>rest. payload_from_bytes P order (bs @ rest) = Ok p)"
  using payload_to_payload_bytes [OF assms(2)] payload_from_payload_bytes [OF assms] by blast

theorem payload_roundtrip_witness:
  "\<exists>bs. payload_to_bytes byte_proof_ser
          \<lparr> p_proof = 7, p_tx_final = Hash 1 2 3 4, p_state_root = Hash 5 6 7 8,
            p_nullifiers = [Hash 9 0 0 0], p_created = [] \<rparr> = Ok bs
        \<and> (\<forall>rest. payload_from_bytes byte_proof_ser 0xFFFFFFFF00000001 (bs @ rest)
             = Ok \<lparr> p_proof = 7, p_tx_final = Hash 1 2 3 4, p_state_root = Hash 5 6 7 8,
                   p_nullifiers = [Hash 9 0 0 0], p_created = [] \<rparr>)"
  by (rule payload_roundtrip [OF byte_proof_ser_ok])
    (simp add: payload_ok_def hash_ok_def hashes_ok_def)

text \<open>C37. Every payload the reader accepts is well formed: its limbs are canonical field
  elements and both hash lists have at most 255 entries, so it can be written back.\<close>

theorem payload_from_bytes_sound:
  assumes "payload_from_bytes P order bs = Ok p"
  shows "payload_ok order p \<and> (\<exists>bs'. payload_to_bytes P p = Ok bs')"
proof -
  have "payload_ok order p"
    using assms
    by (auto simp: payload_from_bytes_def payload_ok_def split: if_splits
        dest: read_hash_sound read_hashes_sound)
  then show ?thesis
    by (auto simp: payload_to_bytes_def write_hashes_def payload_ok_def hashes_ok_def)
qed

theorem payload_from_bytes_sound_witness:
  "payload_ok 0xFFFFFFFF00000001
     \<lparr> p_proof = 7 :: u8, p_tx_final = Hash 0 0 0 0, p_state_root = Hash 0 0 0 0,
       p_nullifiers = [], p_created = [] \<rparr>"
  by (rule payload_from_bytes_sound [OF payload_from_payload_bytes [OF byte_proof_ser_ok], THEN conjunct1])
    (simp add: payload_ok_def hash_ok_def hashes_ok_def)

text \<open>C34. The reader panics on exactly one input: the two magic bytes with nothing behind them,
  where the proof type is read from an empty slice. Every other byte string is either decoded or
  refused with an error.\<close>

theorem payload_from_bytes_panic_iff:
  assumes "proof_ser_ok P"
  shows "payload_from_bytes P order bs = Panic \<longleftrightarrow> bs = [0x0b, 0xd1]"
proof -
  have "payload_from_bytes P order bs = Panic \<longleftrightarrow> read_le 2 bs = Ok (PAYLOAD_MAGIC, [])"
    using assms proof_from_bytes_len [OF assms]
    by (fastforce simp: payload_from_bytes_def obind_Panic_iff proof_from_bytes_panic read_le_def
        split: if_splits)
  also have "\<dots> \<longleftrightarrow> bs = [0x0b, 0xd1]"
  proof
    assume "read_le 2 bs = Ok (PAYLOAD_MAGIC, [])"
    then obtain a b where bs: "bs = [a, b]" and v: "unat a + 256 * unat b = 53515"
      by (auto simp: read_le_def read_exact_def PAYLOAD_MAGIC_def length_Suc_conv numeral_2_eq_2
          split: if_splits)
    have "unat a < 256" and "unat b < 256"
      using unsigned_less [of a, where ?'a = nat] unsigned_less [of b, where ?'a = nat] by simp_all
    then have "unat b = 209" using arg_cong [OF v, of "\<lambda>x. x div 256"] by simp
    with v have "unat a = 11" by simp
    with \<open>unat b = 209\<close> have "a = 0x0b" and "b = 0xd1" by (auto intro!: unsigned_word_eqI [where ?'a = nat])
    then show "bs = [0x0b, 0xd1]" by (simp add: bs)
  next
    assume "bs = [0x0b, 0xd1]"
    then show "read_le 2 bs = Ok (PAYLOAD_MAGIC, [])"
      by (simp add: read_le_def read_exact_def PAYLOAD_MAGIC_def)
  qed
  finally show ?thesis .
qed

theorem payload_from_bytes_panic_iff_witness:
  "payload_from_bytes byte_proof_ser 0xFFFFFFFF00000001 [0x0b, 0xd1] = Panic
   \<and> payload_from_bytes byte_proof_ser 0xFFFFFFFF00000001 [0x0b, 0xd1, 0] \<noteq> Panic"
  using payload_from_bytes_panic_iff [OF byte_proof_ser_ok] by simp


lemma from_le_bytes_limb:
  assumes "list_all (\<lambda>v. v < 256 ^ 8) es" and "i < length es"
  shows "from_le_bytes (take 8 (drop (8 * i) (write_elems es))) = es ! i"
  using assms
proof (induction es arbitrary: i)
  case Nil
  then show ?case by simp
next
  case (Cons e es)
  then show ?case by (cases i) (auto simp: write_elems_def)
qed

text \<open>A hash stored in a database column reads back, when pod2 writes the four limbs
  little-endian as the source documents; and the reader accepts exactly the lengths 32 to 39, so it
  ignores up to seven trailing bytes instead of refusing them.\<close>

theorem db_bytes_roundtrip:
  assumes "\<And>h. raw_to_bytes h = write_elems (hash_elems h)"
    and "list_all (\<lambda>v. v < 256 ^ 8) (hash_elems h)"
  shows "db_bytes_to_hash (hash_to_db_bytes raw_to_bytes h) = Ok h
    \<and> (\<forall>bs. (\<exists>h'. db_bytes_to_hash bs = Ok h') \<longleftrightarrow> 32 \<le> length bs \<and> length bs \<le> 39)"
proof
  obtain a b c d where h: "h = Hash a b c d" by (cases h)
  show "db_bytes_to_hash (hash_to_db_bytes raw_to_bytes h) = Ok h"
    using from_le_bytes_limb [OF assms(2), of 0] from_le_bytes_limb [OF assms(2), of 1]
      from_le_bytes_limb [OF assms(2), of 2] from_le_bytes_limb [OF assms(2), of 3]
    by (simp add: db_bytes_to_hash_def hash_to_db_bytes_def assms(1) h)
  have "n div 8 = 4 \<longleftrightarrow> 32 \<le> n \<and> n \<le> 39" for n :: nat by presburger
  then show "\<forall>bs. (\<exists>h'. db_bytes_to_hash bs = Ok h') \<longleftrightarrow> 32 \<le> length bs \<and> length bs \<le> 39"
    by (simp add: db_bytes_to_hash_def)
qed

theorem db_bytes_roundtrip_witness:
  "db_bytes_to_hash (hash_to_db_bytes (\<lambda>h. write_elems (hash_elems h)) (Hash 1 2 3 4)) = Ok (Hash 1 2 3 4)"
  using db_bytes_roundtrip [of "\<lambda>h. write_elems (hash_elems h)" "Hash 1 2 3 4"] by simp

text \<open>Hash text round-trips with and without its prefix, as far as pod2's hex does.\<close>

lemma hash_hex_roundtrip:
  assumes "from_hex (to_hex h) = Ok h" and "take 2 (to_hex h) \<noteq> ''0x''"
  shows "decode_hash_hex from_hex (encode_hash_hex to_hex h) = Ok h"
    and "decode_hash_hex from_hex (to_hex h) = Ok h"
  using assms by (simp_all add: decode_hash_hex_def encode_hash_hex_def strip_0x_def)

end
