(* ===== verification/State_Machine.thy ===== *)
theory State_Machine
  imports Pod2_Containers Payload_Codec
begin

text \<open>
  Slot derivation (\<open>synchronizer/src/state_machine.rs\<close>): parsing a block's blobs, validating and
  applying one payload against the working containers, and deriving the next state. The
  abstract ledger below (the list of objects ever created, the list of spent nullifiers)
  is what the derivation refines.
\<close>

section \<open>Statuses and target transactions\<close>

record 'h blob_status =
  bs_tx_final :: "'h option"
  bs_error :: "string option"

record 'h tx_status =
  ts_tx_hash :: b256
  ts_blobs :: "'h blob_status list"

text \<open>A target transaction at one stage: blobs by position, \<open>None\<close> for one dropped earlier.\<close>

record ('h, 'x) target_tx =
  tt_blobs :: "(nat \<times> 'x) option list"
  tt_status :: "'h tx_status"

text \<open>Why a payload is rejected, and the text recorded for it.\<close>

datatype rejection =
    RootUnknown
  | RootTooOld int int
  | DuplicateCreatedInPayload
  | CreationCollision
  | DuplicateNullifierInPayload
  | DuplicateNullifier

fun rejection_text :: "rejection \<Rightarrow> string" where
  "rejection_text RootUnknown = ''Blob proof state_root not found in recent state root history''"
| "rejection_text (RootTooOld age blk) =
     ''Blob proof state_root is too old: '' @ show_int age @ '' blocks (state root at block ''
     @ show_int blk @ '')''"
| "rejection_text DuplicateCreatedInPayload = ''Duplicate created object within payload''"
| "rejection_text CreationCollision = ''Created object already exists (creation collision)''"
| "rejection_text DuplicateNullifierInPayload = ''Duplicate nullifier within payload''"
| "rejection_text DuplicateNullifier = ''Duplicate nullifier''"

definition MAX_STATE_ROOT_AGE_BLOCKS :: int where
  "MAX_STATE_ROOT_AGE_BLOCKS = 50400"

definition grounding_aged_out :: "int \<Rightarrow> int \<Rightarrow> bool" where
  "grounding_aged_out block grounding_block \<longleftrightarrow> block - grounding_block > MAX_STATE_ROOT_AGE_BLOCKS"

section \<open>Working state and payload application\<close>

record ('h, 'a, 's) working_state =
  w_created_count :: nat
  w_nullifier_count :: nat
  w_created :: 'a
  w_nullifiers :: 's
  w_next_state_history :: 'a
  w_recent_state_roots :: "('h \<times> int) list"
  w_created_added :: "('h \<times> int) list"

record 'h derived_slot =
  ds_state :: "'h don_state"
  ds_created_added :: "('h \<times> int) list"

definition already_created ::
    "('h, 'a, 's, 'mp) pod2 \<Rightarrow> ('h, 'a, 's) working_state \<Rightarrow> ('h \<times> int) list \<Rightarrow> 'h
     \<Rightarrow> (string, bool) outcome" where
  "already_created P state prior_indices obj =
     (if map_of (w_created_added state) obj \<noteq> None then Ok True
      else case map_of prior_indices obj of
             Some index \<Rightarrow> created_array_holds P (w_created state) index obj
           | None \<Rightarrow> Ok False)"

text \<open>The two pre-check loops; \<open>seen\<close> is the hash set of the entries met so far. The result
  is the first violation, if any.\<close>

fun check_created ::
    "('h, 'a, 's, 'mp) pod2 \<Rightarrow> ('h, 'a, 's) working_state \<Rightarrow> ('h \<times> int) list \<Rightarrow> 'h set \<Rightarrow> 'h list
     \<Rightarrow> (string, rejection option) outcome" where
  "check_created P state prior_indices seen [] = Ok None"
| "check_created P state prior_indices seen (obj # objs) =
     (if obj \<in> seen then Ok (Some DuplicateCreatedInPayload)
      else obind (already_created P state prior_indices obj) (\<lambda>dup.
             if dup then Ok (Some CreationCollision)
             else check_created P state prior_indices (insert obj seen) objs))"

fun check_nullifiers ::
    "('h, 'a, 's, 'mp) pod2 \<Rightarrow> ('h, 'a, 's) working_state \<Rightarrow> 'h set \<Rightarrow> 'h list
     \<Rightarrow> (string, rejection option) outcome" where
  "check_nullifiers P state seen [] = Ok None"
| "check_nullifiers P state seen (n # ns) =
     (if n \<in> seen then Ok (Some DuplicateNullifierInPayload)
      else obind (set_contains P (w_nullifiers state) n) (\<lambda>dup.
             if dup then Ok (Some DuplicateNullifier)
             else check_nullifiers P state (insert n seen) ns))"

text \<open>Bodies of the two mutation loops.\<close>

definition append_created ::
    "('h, 'a, 's, 'mp) pod2 \<Rightarrow> 'h \<Rightarrow> ('h, 'a, 's) working_state
     \<Rightarrow> (string, ('h, 'a, 's) working_state) outcome" where
  "append_created P obj state =
     (let index = w_created_count state
      in obind (array_insert P (w_created state) index obj) (\<lambda>arr.
           Ok (state\<lparr> w_created := arr,
                      w_created_added := hm_insert obj (as_i64 index) (w_created_added state),
                      w_created_count := u64_add index 1 \<rparr>)))"

definition insert_nullifier ::
    "('h, 'a, 's, 'mp) pod2 \<Rightarrow> 'h \<Rightarrow> ('h, 'a, 's) working_state
     \<Rightarrow> (string, ('h, 'a, 's) working_state) outcome" where
  "insert_nullifier P n state =
     obind (set_insert P (w_nullifiers state) n) (\<lambda>s.
       Ok (state\<lparr> w_nullifiers := s, w_nullifier_count := u64_add (w_nullifier_count state) 1 \<rparr>))"

definition apply_payload ::
    "('h, 'a, 's, 'mp) pod2 \<Rightarrow> ('h, 'a, 's) working_state \<Rightarrow> ('h, 'p) payload \<Rightarrow> ('h \<times> int) list \<Rightarrow> nat
     \<Rightarrow> (string, rejection option \<times> ('h, 'a, 's) working_state) outcome" where
  "apply_payload P state payload prior_indices block_num =
     (case map_of (w_recent_state_roots state) (p_state_root payload) of
        None \<Rightarrow> Ok (Some RootUnknown, state)
      | Some state_root_block \<Rightarrow>
          let age = as_i64 block_num - state_root_block
          in if grounding_aged_out (as_i64 block_num) state_root_block
             then Ok (Some (RootTooOld age state_root_block), state)
             else
               obind (check_created P state prior_indices {} (p_created payload)) (\<lambda>rej.
                 case rej of
                   Some r \<Rightarrow> Ok (Some r, state)
                 | None \<Rightarrow>
                     obind (check_nullifiers P state {} (p_nullifiers payload)) (\<lambda>rej.
                       case rej of
                         Some r \<Rightarrow> Ok (Some r, state)
                       | None \<Rightarrow>
                           obind (ofold (append_created P) (p_created payload) state) (\<lambda>state.
                           obind (ofold (insert_nullifier P) (p_nullifiers payload) state) (\<lambda>state.
                             Ok (None, state))))))"

section \<open>Parsing and deriving a slot\<close>

text \<open>The loop over one transaction's blobs zipped with their statuses; a blob that panics
  the parser takes the task down.\<close>

fun parse_tx_blobs ::
    "(u8 list \<Rightarrow> (string, ('h, 'p) payload option) outcome) \<Rightarrow> (nat \<times> u8 list) option list
     \<Rightarrow> 'h blob_status list
     \<Rightarrow> (string, (nat \<times> ('h, 'p) payload) option list \<times> 'h blob_status list) outcome" where
  "parse_tx_blobs parse (b # bs) (s # ss) =
     (case b of
        None \<Rightarrow> obind (parse_tx_blobs parse bs ss) (\<lambda>(ps, ss'). Ok (None # ps, s # ss'))
      | Some (blob_index, bytes) \<Rightarrow>
          (case parse bytes of
             Panic \<Rightarrow> Panic
           | Ok (Some payload) \<Rightarrow>
               obind (parse_tx_blobs parse bs ss) (\<lambda>(ps, ss').
                 Ok (Some (blob_index, payload) # ps, s\<lparr> bs_tx_final := Some (p_tx_final payload) \<rparr> # ss'))
           | Ok None \<Rightarrow>
               obind (parse_tx_blobs parse bs ss) (\<lambda>(ps, ss').
                 Ok (None # ps,
                     s\<lparr> bs_error := Some ''Blob did not contain a valid TxFinalized proof'' \<rparr> # ss'))
           | Err e \<Rightarrow>
               obind (parse_tx_blobs parse bs ss) (\<lambda>(ps, ss').
                 Ok (None # ps,
                     s\<lparr> bs_error := Some (''Failed to parse/verify TxFinalized payload: '' @ e) \<rparr> # ss'))))"
| "parse_tx_blobs parse bs ss = Ok ([], ss)"

definition parse_blobs ::
    "(u8 list \<Rightarrow> (string, ('h, 'p) payload option) outcome) \<Rightarrow> ('h, u8 list) target_tx list
     \<Rightarrow> (string, ('h, ('h, 'p) payload) target_tx list) outcome" where
  "parse_blobs parse target_txs =
     omap (\<lambda>tx.
       obind (parse_tx_blobs parse (tt_blobs tx) (ts_blobs (tt_status tx))) (\<lambda>(ps, ss).
         Ok \<lparr> tt_blobs = ps, tt_status = (tt_status tx)\<lparr> ts_blobs := ss \<rparr> \<rparr>)) target_txs"

fun apply_tx_blobs ::
    "('h, 'a, 's, 'mp) pod2 \<Rightarrow> ('h \<times> int) list \<Rightarrow> nat \<Rightarrow> nat
     \<Rightarrow> (nat \<times> ('h, 'p) payload) option list \<Rightarrow> 'h blob_status list \<Rightarrow> ('h, 'a, 's) working_state
     \<Rightarrow> (string, 'h blob_status list \<times> ('h, 'a, 's) working_state) outcome" where
  "apply_tx_blobs P prior_indices slot block_num (b # bs) (s # ss) w =
     (case b of
        None \<Rightarrow>
          obind (apply_tx_blobs P prior_indices slot block_num bs ss w) (\<lambda>(ss', w'). Ok (s # ss', w'))
      | Some (blob_index, payload) \<Rightarrow>
          obind (map_err (\<lambda>e. ''applying blob at slot '' @ show_nat slot @ '', blob_index ''
                              @ show_nat blob_index @ '': '' @ e)
                   (apply_payload P w payload prior_indices block_num)) (\<lambda>(rejection, w).
          let s' = (case rejection of
                      None \<Rightarrow> s
                    | Some r \<Rightarrow> s\<lparr> bs_error := Some (rejection_text r) \<rparr>)
          in obind (apply_tx_blobs P prior_indices slot block_num bs ss w) (\<lambda>(ss', w'). Ok (s' # ss', w'))))"
| "apply_tx_blobs P prior_indices slot block_num bs ss w = Ok (ss, w)"

fun apply_target_txs ::
    "('h, 'a, 's, 'mp) pod2 \<Rightarrow> ('h \<times> int) list \<Rightarrow> nat \<Rightarrow> nat
     \<Rightarrow> ('h, ('h, 'p) payload) target_tx list \<Rightarrow> ('h, 'a, 's) working_state
     \<Rightarrow> (string, ('h, ('h, 'p) payload) target_tx list \<times> ('h, 'a, 's) working_state) outcome" where
  "apply_target_txs P prior_indices slot block_num [] w = Ok ([], w)"
| "apply_target_txs P prior_indices slot block_num (tx # txs) w =
     obind (apply_tx_blobs P prior_indices slot block_num (tt_blobs tx) (ts_blobs (tt_status tx)) w)
       (\<lambda>(ss, w).
     obind (apply_target_txs P prior_indices slot block_num txs w) (\<lambda>(txs', w).
       Ok (tx\<lparr> tt_status := (tt_status tx)\<lparr> ts_blobs := ss \<rparr> \<rparr> # txs', w)))"

definition base_roots_of :: "('h, 'a, 's, 'mp) pod2 \<Rightarrow> 'h don_state option \<Rightarrow> 'h state_roots" where
  "base_roots_of P base_state =
     (case base_state of None \<Rightarrow> state_roots_empty P | Some st \<Rightarrow> roots st)"

definition base_count :: "('h state_metadata \<Rightarrow> nat) \<Rightarrow> 'h don_state option \<Rightarrow> nat" where
  "base_count f base_state = (case base_state of None \<Rightarrow> 0 | Some st \<Rightarrow> f (metadata st))"

definition initial_working ::
    "'h don_state option \<Rightarrow> ('h \<times> int) list \<Rightarrow> 'a \<Rightarrow> 's \<Rightarrow> 'a \<Rightarrow> ('h, 'a, 's) working_state" where
  "initial_working base_state recent_state_roots created nullifiers history =
     \<lparr> w_created_count = base_count created_count base_state,
       w_nullifier_count = base_count nullifier_count base_state,
       w_created = created, w_nullifiers = nullifiers, w_next_state_history = history,
       w_recent_state_roots = hm_from_iter recent_state_roots, w_created_added = [] \<rparr>"

text \<open>The end of the derivation: the new header over the working containers, appended to the
  history.\<close>

definition close_slot ::
    "('h, 'a, 's, 'mp) pod2 \<Rightarrow> 'h state_roots \<Rightarrow> nat \<Rightarrow> execution_block \<Rightarrow> ('h, 'a, 's) working_state
     \<Rightarrow> (string, 'h don_state) outcome" where
  "close_slot P base_roots base_state_root_count block working =
     (let prior_state_history_root = next_state_history base_roots;
          new_state_root = header_hash P (state_header P block
            (array_commitment P (w_created working)) (set_commitment P (w_nullifiers working))
            prior_state_history_root)
      in obind (array_insert P (w_next_state_history working) base_state_root_count new_state_root)
           (\<lambda>history.
         Ok \<lparr> roots = \<lparr> created_root = array_commitment P (w_created working),
                         nullifiers_root = set_commitment P (w_nullifiers working),
                         prior_state_history = prior_state_history_root,
                         next_state_history = array_commitment P history \<rparr>,
              metadata = \<lparr> state_root = new_state_root, md_block = block,
                            created_count = w_created_count working,
                            nullifier_count = w_nullifier_count working,
                            state_root_count = u64_add base_state_root_count 1 \<rparr> \<rparr>))"

definition derive_slot_state ::
    "('h, 'a, 's, 'mp) pod2 \<Rightarrow> 'h don_state option \<Rightarrow> ('h \<times> int) list \<Rightarrow> nat \<Rightarrow> execution_block
     \<Rightarrow> ('h, ('h, 'p) payload) target_tx list \<Rightarrow> ('h \<times> int) list
     \<Rightarrow> (string, 'h derived_slot \<times> ('h, ('h, 'p) payload) target_tx list) outcome" where
  "derive_slot_state P base_state recent_state_roots slot block target_txs prior_indices =
     (let base_roots = base_roots_of P base_state
      in obind (open_created P (created_root base_roots)) (\<lambda>created.
         obind (open_nullifiers P (nullifiers_root base_roots)) (\<lambda>nullifiers.
         obind (open_next_state_history P (next_state_history base_roots)) (\<lambda>history.
         obind (apply_target_txs P prior_indices slot (eb_number block) target_txs
                  (initial_working base_state recent_state_roots created nullifiers history))
           (\<lambda>(txs, working).
         obind (close_slot P base_roots (base_count state_root_count base_state) block working)
           (\<lambda>new_state.
         Ok (\<lparr> ds_state = new_state, ds_created_added = w_created_added working \<rparr>, txs)))))))"

section \<open>The abstract ledger\<close>

record 'h ledger =
  l_created :: "'h list"
  l_nullifiers :: "'h list"

definition grounded :: "('h \<times> int) list \<Rightarrow> nat \<Rightarrow> ('h, 'p) payload \<Rightarrow> bool" where
  "grounded R n p \<longleftrightarrow>
     (case map_of R (p_state_root p) of
        None \<Rightarrow> False
      | Some b \<Rightarrow> as_i64 n - b \<le> MAX_STATE_ROOT_AGE_BLOCKS)"

definition acceptable :: "('h \<times> int) list \<Rightarrow> nat \<Rightarrow> 'h ledger \<Rightarrow> ('h, 'p) payload \<Rightarrow> bool" where
  "acceptable R n L p \<longleftrightarrow> grounded R n p
     \<and> distinct (p_created p) \<and> set (p_created p) \<inter> set (l_created L) = {}
     \<and> distinct (p_nullifiers p) \<and> set (p_nullifiers p) \<inter> set (l_nullifiers L) = {}"

definition ledger_extend :: "('h, 'p) payload \<Rightarrow> 'h ledger \<Rightarrow> 'h ledger" where
  "ledger_extend p L = L\<lparr> l_created := l_created L @ p_created p,
                          l_nullifiers := l_nullifiers L @ p_nullifiers p \<rparr>"

definition ledger_apply :: "('h \<times> int) list \<Rightarrow> nat \<Rightarrow> ('h, 'p) payload \<Rightarrow> 'h ledger \<Rightarrow> 'h ledger" where
  "ledger_apply R n p L = (if acceptable R n L p then ledger_extend p L else L)"

definition ledger_ok :: "'h ledger \<Rightarrow> bool" where
  "ledger_ok L \<longleftrightarrow> distinct (l_created L) \<and> distinct (l_nullifiers L)"

lemma ledger_apply_ok: "ledger_ok L \<Longrightarrow> ledger_ok (ledger_apply R n p L)"
  by (auto simp: ledger_ok_def ledger_apply_def ledger_extend_def acceptable_def)

section \<open>Simulation\<close>

text \<open>
  The working state implements a ledger: the created array and nullifier set hold exactly its
  entries, the counts are their lengths, and \<open>created_added\<close> indexes exactly the objects
  created after the base list \<open>C0\<close>.
\<close>

definition implements ::
    "('a \<Rightarrow> nat \<Rightarrow> 'h option) \<Rightarrow> ('s \<Rightarrow> 'h set) \<Rightarrow> 'h list \<Rightarrow> ('h, 'a, 's) working_state \<Rightarrow> 'h ledger \<Rightarrow> bool" where
  "implements va vs C0 w L \<longleftrightarrow> ledger_ok L
     \<and> va (w_created w) = nth_opt (l_created L) \<and> w_created_count w = length (l_created L)
     \<and> vs (w_nullifiers w) = set (l_nullifiers L) \<and> w_nullifier_count w = length (l_nullifiers L)
     \<and> take (length C0) (l_created L) = C0
     \<and> distinct (map fst (w_created_added w))
     \<and> (\<forall>x i. map_of (w_created_added w) x = Some i \<longleftrightarrow>
          (\<exists>k. length C0 \<le> k \<and> k < length (l_created L) \<and> l_created L ! k = x \<and> i = as_i64 k))"

text \<open>Index hints are complete for the given objects: an object of the base list comes with its
  position. Hints for objects that are not there are allowed.\<close>

definition hints_complete :: "('h \<times> int) list \<Rightarrow> 'h list \<Rightarrow> 'h set \<Rightarrow> bool" where
  "hints_complete prior C0 X \<longleftrightarrow>
     (\<forall>k < length C0. C0 ! k \<in> X \<longrightarrow> map_of prior (C0 ! k) = Some (as_i64 k))"

definition fits :: "'h ledger \<Rightarrow> ('h, 'p) payload list \<Rightarrow> bool" where
  "fits L ps \<longleftrightarrow> length (l_created L) + sum_list (map (\<lambda>p. length (p_created p)) ps) < 2 ^ 64
     \<and> length (l_nullifiers L) + sum_list (map (\<lambda>p. length (p_nullifiers p)) ps) < 2 ^ 64"

lemma already_created_iff:
  assumes snd: "pod2_sound P va vs" and imp: "implements va vs C0 w L"
    and hints: "hints_complete prior C0 X" and obj: "obj \<in> X"
    and fit: "length (l_created L) < 2 ^ 64"
    and res: "already_created P w prior obj = Ok b"
  shows "b \<longleftrightarrow> obj \<in> set (l_created L)"
proof (cases "map_of (w_created_added w) obj")
  case (Some i)
  then have "obj \<in> set (l_created L)" using imp by (auto simp: implements_def)
  with Some res show ?thesis by (simp add: already_created_def)
next
  case None
  have old: "k < length C0 \<and> C0 ! k = obj" if "k < length (l_created L)" "l_created L ! k = obj" for k
  proof -
    have "\<not> length C0 \<le> k" using None imp that by (metis implements_def option.distinct(1))
    then show ?thesis using imp that by (metis implements_def not_le nth_take)
  qed
  show ?thesis
  proof (cases "map_of prior obj")
    case None': None
    then have "obj \<notin> set (l_created L)"
      using old hints obj by (metis hints_complete_def in_set_conv_nth option.distinct(1))
    with None None' res show ?thesis by (simp add: already_created_def)
  next
    case (Some i)
    with None res have b: "b \<longleftrightarrow> nth_opt (l_created L) (as_u64 i) = Some obj"
      using created_array_holds_sound [OF snd] imp
      by (fastforce simp: already_created_def implements_def)
    have "as_u64 i = k" if "k < length (l_created L)" "l_created L ! k = obj" for k
      using old [OF that] hints obj Some fit that by (auto simp: hints_complete_def)
    then show ?thesis unfolding b by (auto simp: nth_opt_Some_iff in_set_conv_nth)
  qed
qed

lemma check_created_iff:
  assumes "pod2_sound P va vs" and "implements va vs C0 w L" and "hints_complete prior C0 X"
    and "length (l_created L) < 2 ^ 64" and "set objs \<subseteq> X"
    and "check_created P w prior seen objs = Ok r"
  shows "r = None \<longleftrightarrow> distinct objs \<and> set objs \<inter> (seen \<union> set (l_created L)) = {}"
  using assms(5,6)
proof (induction objs arbitrary: seen)
  case Nil
  then show ?case by simp
next
  case (Cons obj objs)
  show ?case
  proof (cases "obj \<in> seen")
    case True
    then show ?thesis using Cons.prems by auto
  next
    case False
    with Cons.prems obtain b where b: "already_created P w prior obj = Ok b"
      and r: "(if b then Ok (Some CreationCollision)
               else check_created P w prior (insert obj seen) objs) = Ok r"
      by auto
    have "b \<longleftrightarrow> obj \<in> set (l_created L)"
      using already_created_iff [OF assms(1-3) _ assms(4) b] Cons.prems(1) by simp
    then show ?thesis using Cons.IH [of "insert obj seen"] Cons.prems(1) r False
      by (auto split: if_splits)
  qed
qed

lemma check_nullifiers_iff:
  assumes "pod2_sound P va vs" and "vs (w_nullifiers w) = S"
    and "check_nullifiers P w seen ns = Ok r"
  shows "r = None \<longleftrightarrow> distinct ns \<and> set ns \<inter> (seen \<union> S) = {}"
  using assms(3)
proof (induction ns arbitrary: seen)
  case Nil
  then show ?case by simp
next
  case (Cons n ns)
  show ?case
  proof (cases "n \<in> seen")
    case True
    then show ?thesis using Cons.prems by auto
  next
    case False
    with Cons.prems obtain b where b: "set_contains P (w_nullifiers w) n = Ok b"
      and r: "(if b then Ok (Some DuplicateNullifier)
               else check_nullifiers P w (insert n seen) ns) = Ok r"
      by auto
    have "b \<longleftrightarrow> n \<in> S" using sound_set_contains [OF assms(1) b] assms(2) by simp
    then show ?thesis using Cons.IH [of "insert n seen"] r False
      by (auto split: if_splits)
  qed
qed

lemma append_created_step:
  assumes snd: "pod2_sound P va vs" and imp: "implements va vs C0 w L"
    and new: "obj \<notin> set (l_created L)" and fit: "length (l_created L) + 1 < 2 ^ 64"
    and res: "append_created P obj w = Ok w'"
  shows "implements va vs C0 w' (L\<lparr> l_created := l_created L @ [obj] \<rparr>)"
proof -
  let ?n = "length (l_created L)"
  from res imp obtain arr where ins: "array_insert P (w_created w) ?n obj = Ok arr"
    and w': "w' = w\<lparr> w_created := arr, w_created_added := hm_insert obj (as_i64 ?n) (w_created_added w),
                     w_created_count := u64_add ?n 1 \<rparr>"
    by (auto simp: append_created_def Let_def implements_def)
  have "va arr = nth_opt (l_created L @ [obj])"
    using sound_array_insert [OF snd ins] imp by (simp add: implements_def)
  moreover have "u64_add ?n 1 = ?n + 1" using fit by (simp add: cast_simps)
  moreover have "length C0 \<le> ?n" using imp by (metis implements_def length_take min.cobounded1 min.commute)
  moreover have "map_of (w_created_added w) obj = None"
    using imp new by (metis implements_def not_None_eq nth_mem)
  ultimately show ?thesis
    using imp new
    by (auto simp: implements_def w' ledger_ok_def nth_append less_Suc_eq distinct_hm_insert)
qed

lemma insert_nullifier_step:
  assumes snd: "pod2_sound P va vs" and imp: "implements va vs C0 w L"
    and new: "n \<notin> set (l_nullifiers L)" and fit: "length (l_nullifiers L) + 1 < 2 ^ 64"
    and res: "insert_nullifier P n w = Ok w'"
  shows "implements va vs C0 w' (L\<lparr> l_nullifiers := l_nullifiers L @ [n] \<rparr>)"
proof -
  from res obtain s where ins: "set_insert P (w_nullifiers w) n = Ok s"
    and w': "w' = w\<lparr> w_nullifiers := s, w_nullifier_count := u64_add (w_nullifier_count w) 1 \<rparr>"
    by (auto simp: insert_nullifier_def)
  have "vs s = insert n (set (l_nullifiers L))"
    using sound_set_insert [OF snd ins] imp new by (simp add: implements_def)
  moreover have "u64_add (w_nullifier_count w) 1 = length (l_nullifiers L) + 1"
    using fit imp by (simp add: cast_simps implements_def)
  ultimately show ?thesis
    using imp new by (simp add: implements_def w' ledger_ok_def)
qed

lemma append_created_loop:
  assumes snd: "pod2_sound P va vs"
    and "implements va vs C0 w L" and "distinct objs" and "set objs \<inter> set (l_created L) = {}"
    and "length (l_created L) + length objs < 2 ^ 64"
    and "ofold (append_created P) objs w = Ok w'"
  shows "implements va vs C0 w' (L\<lparr> l_created := l_created L @ objs \<rparr>)"
  using assms(2-)
proof (induction objs arbitrary: w L)
  case Nil
  then show ?case by simp
next
  case (Cons obj objs)
  from Cons.prems(5) obtain w1 where w1: "append_created P obj w = Ok w1"
    and rest: "ofold (append_created P) objs w1 = Ok w'" by auto
  have "implements va vs C0 w1 (L\<lparr> l_created := l_created L @ [obj] \<rparr>)"
    using append_created_step [OF snd Cons.prems(1) _ _ w1] Cons.prems(3,4) by simp
  from Cons.IH [OF this _ _ _ rest] Cons.prems show ?case by simp
qed

lemma insert_nullifier_loop:
  assumes snd: "pod2_sound P va vs"
    and "implements va vs C0 w L" and "distinct ns" and "set ns \<inter> set (l_nullifiers L) = {}"
    and "length (l_nullifiers L) + length ns < 2 ^ 64"
    and "ofold (insert_nullifier P) ns w = Ok w'"
  shows "implements va vs C0 w' (L\<lparr> l_nullifiers := l_nullifiers L @ ns \<rparr>)"
  using assms(2-)
proof (induction ns arbitrary: w L)
  case Nil
  then show ?case by simp
next
  case (Cons n ns)
  from Cons.prems(5) obtain w1 where w1: "insert_nullifier P n w = Ok w1"
    and rest: "ofold (insert_nullifier P) ns w1 = Ok w'" by auto
  have "implements va vs C0 w1 (L\<lparr> l_nullifiers := l_nullifiers L @ [n] \<rparr>)"
    using insert_nullifier_step [OF snd Cons.prems(1) _ _ w1] Cons.prems(3,4) by simp
  from Cons.IH [OF this _ _ _ rest] Cons.prems show ?case by simp
qed

text \<open>The loops touch neither the history handle nor the grounding window.\<close>

lemma append_created_frame:
  "ofold (append_created P) objs w = Ok w' \<Longrightarrow>
   w_next_state_history w' = w_next_state_history w \<and> w_recent_state_roots w' = w_recent_state_roots w"
  by (rule ofold_invariant [where I = "\<lambda>u. w_next_state_history u = w_next_state_history w
      \<and> w_recent_state_roots u = w_recent_state_roots w"]) (auto simp: append_created_def Let_def)

lemma insert_nullifier_frame:
  "ofold (insert_nullifier P) ns w = Ok w' \<Longrightarrow>
   w_next_state_history w' = w_next_state_history w \<and> w_recent_state_roots w' = w_recent_state_roots w"
  by (rule ofold_invariant [where I = "\<lambda>u. w_next_state_history u = w_next_state_history w
      \<and> w_recent_state_roots u = w_recent_state_roots w"]) (auto simp: insert_nullifier_def)

text \<open>The two ways \<open>apply_payload\<close> returns.\<close>

lemma apply_payload_cases:
  assumes "apply_payload P w p prior n = Ok (rej, w')"
  obtains (applied) w1 where "rej = None" "grounded (w_recent_state_roots w) n p"
      "check_created P w prior {} (p_created p) = Ok None"
      "check_nullifiers P w {} (p_nullifiers p) = Ok None"
      "ofold (append_created P) (p_created p) w = Ok w1"
      "ofold (insert_nullifier P) (p_nullifiers p) w1 = Ok w'"
  | (rejected) r where "rej = Some r" "w' = w"
      "\<not> grounded (w_recent_state_roots w) n p
       \<or> check_created P w prior {} (p_created p) = Ok (Some r)
       \<or> check_nullifiers P w {} (p_nullifiers p) = Ok (Some r)"
  using assms
  by (auto simp: apply_payload_def grounded_def grounding_aged_out_def Let_def
      split: option.splits if_splits)

text \<open>Applying one payload: exactly the acceptable ones extend the ledger; a rejected one
  leaves the working state as it was.\<close>

lemma apply_payload_simulates:
  assumes snd: "pod2_sound P va vs" and imp: "implements va vs C0 w L"
    and hints: "hints_complete prior C0 (set (p_created p))" and fit: "fits L [p]"
    and res: "apply_payload P w p prior n = Ok (rej, w')"
  shows "(rej = None \<longleftrightarrow> acceptable (w_recent_state_roots w) n L p)
    \<and> implements va vs C0 w' (ledger_apply (w_recent_state_roots w) n p L)
    \<and> (rej \<noteq> None \<longrightarrow> w' = w)
    \<and> w_next_state_history w' = w_next_state_history w
    \<and> w_recent_state_roots w' = w_recent_state_roots w"
proof -
  have fc: "length (l_created L) + length (p_created p) < 2 ^ 64"
    and fn: "length (l_nullifiers L) + length (p_nullifiers p) < 2 ^ 64"
    using fit by (simp_all add: fits_def)
  have c: "rc = None \<longleftrightarrow> distinct (p_created p) \<and> set (p_created p) \<inter> set (l_created L) = {}"
    if "check_created P w prior {} (p_created p) = Ok rc" for rc
    using check_created_iff [OF snd imp hints _ _ that] fc by simp
  have d: "rn = None \<longleftrightarrow> distinct (p_nullifiers p) \<and> set (p_nullifiers p) \<inter> set (l_nullifiers L) = {}"
    if "check_nullifiers P w {} (p_nullifiers p) = Ok rn" for rn
    using check_nullifiers_iff [OF snd _ that] imp by (simp add: implements_def)
  from res show ?thesis
  proof (cases rule: apply_payload_cases)
    case (applied w1)
    have acc: "acceptable (w_recent_state_roots w) n L p"
      using applied(2) c [OF applied(3)] d [OF applied(4)] by (simp add: acceptable_def)
    have "implements va vs C0 w1 (L\<lparr> l_created := l_created L @ p_created p \<rparr>)"
      using append_created_loop [OF snd imp _ _ fc applied(5)] acc by (simp add: acceptable_def)
    from insert_nullifier_loop [OF snd this _ _ _ applied(6)] acc fn
    have "implements va vs C0 w' (ledger_extend p L)"
      by (simp add: acceptable_def ledger_extend_def)
    then show ?thesis
      using acc applied(1) append_created_frame [OF applied(5)] insert_nullifier_frame [OF applied(6)]
      by (simp add: ledger_apply_def)
  next
    case (rejected r)
    then have "\<not> acceptable (w_recent_state_roots w) n L p"
      using c [of "Some r"] d [of "Some r"] by (auto simp: acceptable_def)
    with rejected(1,2) imp show ?thesis by (simp add: ledger_apply_def)
  qed
qed

section \<open>A whole slot\<close>

text \<open>The payloads a slot applies, in order, and the errors recorded for them.\<close>

definition kept :: "(nat \<times> 'x) option list \<Rightarrow> 'h blob_status list \<Rightarrow> ('x \<times> 'h blob_status) list" where
  "kept bs ss = concat (map (\<lambda>(b, s). case b of None \<Rightarrow> [] | Some (i, x) \<Rightarrow> [(x, s)]) (zip bs ss))"

definition slot_kept :: "('h, 'x) target_tx list \<Rightarrow> ('x \<times> 'h blob_status) list" where
  "slot_kept txs = concat (map (\<lambda>tx. kept (tt_blobs tx) (ts_blobs (tt_status tx))) txs)"

definition slot_payloads :: "('h, ('h, 'p) payload) target_tx list \<Rightarrow> ('h, 'p) payload list" where
  "slot_payloads txs = map fst (slot_kept txs)"

definition slot_errors :: "('h, 'x) target_tx list \<Rightarrow> string option list" where
  "slot_errors txs = map (\<lambda>ps. bs_error (snd ps)) (slot_kept txs)"

definition ledger_run :: "('h \<times> int) list \<Rightarrow> nat \<Rightarrow> ('h, 'p) payload list \<Rightarrow> 'h ledger \<Rightarrow> 'h ledger" where
  "ledger_run R n ps L = fold (ledger_apply R n) ps L"

fun verdicts :: "('h \<times> int) list \<Rightarrow> nat \<Rightarrow> ('h, 'p) payload list \<Rightarrow> 'h ledger \<Rightarrow> bool list" where
  "verdicts R n [] L = []"
| "verdicts R n (p # ps) L = acceptable R n L p # verdicts R n ps (ledger_apply R n p L)"

definition created_of :: "('h, 'p) payload list \<Rightarrow> 'h set" where
  "created_of ps = (\<Union>p \<in> set ps. set (p_created p))"

lemma kept_simps [simp]:
  "kept [] ss = []" "kept bs [] = []"
  "kept (None # bs) (s # ss) = kept bs ss"
  "kept (Some (i, x) # bs) (s # ss) = (x, s) # kept bs ss"
  by (simp_all add: kept_def)

lemma slot_kept_simps [simp]:
  "slot_kept [] = []"
  "slot_kept (tx # txs) = kept (tt_blobs tx) (ts_blobs (tt_status tx)) @ slot_kept txs"
  by (simp_all add: slot_kept_def)

lemma ledger_run_simps [simp]:
  "ledger_run R n [] L = L"
  "ledger_run R n (p # ps) L = ledger_run R n ps (ledger_apply R n p L)"
  "ledger_run R n (ps @ qs) L = ledger_run R n qs (ledger_run R n ps L)"
  by (simp_all add: ledger_run_def)

lemma verdicts_append [simp]:
  "verdicts R n (ps @ qs) L = verdicts R n ps L @ verdicts R n qs (ledger_run R n ps L)"
  by (induction ps arbitrary: L) simp_all

lemma created_of_simps [simp]:
  "created_of [] = {}" "created_of (p # ps) = set (p_created p) \<union> created_of ps"
  "created_of (ps @ qs) = created_of ps \<union> created_of qs"
  by (auto simp: created_of_def)

lemma hints_complete_mono: "hints_complete prior C0 X \<Longrightarrow> Y \<subseteq> X \<Longrightarrow> hints_complete prior C0 Y"
  by (auto simp: hints_complete_def)

lemma fits_Cons: "fits L (p # ps) \<Longrightarrow> fits L [p] \<and> fits (ledger_apply R n p L) ps"
  by (auto simp: fits_def ledger_apply_def ledger_extend_def)

lemma fits_append: "fits L (ps @ qs) \<Longrightarrow> fits L ps \<and> fits (ledger_run R n ps L) qs"
proof (induction ps arbitrary: L)
  case Nil
  then show ?case by (simp add: fits_def)
next
  case (Cons p ps)
  then have "fits (ledger_apply R n p L) (ps @ qs)" by (simp add: fits_Cons)
  with Cons.IH Cons.prems show ?case by (auto simp: fits_def)
qed

lemma ledger_run_ok: "ledger_ok L \<Longrightarrow> ledger_ok (ledger_run R n ps L)"
  by (induction ps arbitrary: L) (simp_all add: ledger_apply_ok)

text \<open>What a pass over blobs establishes: the ledger is advanced, the recorded errors are
  exactly the refusals, history and grounding window are kept.\<close>

definition pass_ok ::
    "('a \<Rightarrow> nat \<Rightarrow> 'h option) \<Rightarrow> ('s \<Rightarrow> 'h set) \<Rightarrow> 'h list \<Rightarrow> nat \<Rightarrow> ('h, 'a, 's) working_state \<Rightarrow> 'h ledger
     \<Rightarrow> (('h, 'p) payload \<times> 'h blob_status) list \<Rightarrow> (('h, 'p) payload \<times> 'h blob_status) list
     \<Rightarrow> ('h, 'a, 's) working_state \<Rightarrow> bool" where
  "pass_ok va vs C0 n w L ks ks' w' \<longleftrightarrow>
     implements va vs C0 w' (ledger_run (w_recent_state_roots w) n (map fst ks) L)
     \<and> w_next_state_history w' = w_next_state_history w
     \<and> w_recent_state_roots w' = w_recent_state_roots w
     \<and> map fst ks' = map fst ks
     \<and> ((\<forall>k \<in> set ks. bs_error (snd k) = None) \<longrightarrow>
          map (\<lambda>k. bs_error (snd k) = None) ks' = verdicts (w_recent_state_roots w) n (map fst ks) L)"

lemma apply_tx_blobs_simulates:
  assumes snd: "pod2_sound P va vs"
    and "implements va vs C0 w L"
    and "hints_complete prior C0 (created_of (map fst (kept bs ss)))"
    and "fits L (map fst (kept bs ss))"
    and "apply_tx_blobs P prior slot n bs ss w = Ok (ss', w')"
  shows "length ss' = length ss \<and> pass_ok va vs C0 n w L (kept bs ss) (kept bs ss') w'"
  using assms(2-)
proof (induction bs arbitrary: ss w L ss')
  case Nil
  then show ?case by (auto simp: pass_ok_def)
next
  case (Cons b bs)
  show ?case
  proof (cases ss)
    case Nil
    then show ?thesis using Cons.prems by (auto simp: pass_ok_def)
  next
    case ss: (Cons s sr)
    show ?thesis
    proof (cases b)
      case None
      then show ?thesis using Cons.prems Cons.IH [of w L sr] ss by (auto simp: pass_ok_def)
    next
      case (Some ip)
      then obtain i p where b: "b = Some (i, p)" by (cases ip) auto
      from Cons.prems(4) obtain rej w1 ss1 where ap: "apply_payload P w p prior n = Ok (rej, w1)"
        and tl: "apply_tx_blobs P prior slot n bs sr w1 = Ok (ss1, w')"
        and ss': "ss' = (case rej of None \<Rightarrow> s | Some r \<Rightarrow> s\<lparr> bs_error := Some (rejection_text r) \<rparr>) # ss1"
        unfolding ss b apply_tx_blobs.simps by (fastforce simp: Let_def)
      have hc: "hints_complete prior C0 (set (p_created p))"
          "hints_complete prior C0 (created_of (map fst (kept bs sr)))"
        using Cons.prems(2) by (auto simp: b ss intro: hints_complete_mono)
      have ft: "fits L [p]"
          "fits (ledger_apply (w_recent_state_roots w) n p L) (map fst (kept bs sr))"
        using Cons.prems(3) fits_Cons by (fastforce simp: b ss)+
      note step = apply_payload_simulates [OF snd Cons.prems(1) hc(1) ft(1) ap]
      have "length ss1 = length sr
          \<and> pass_ok va vs C0 n w1 (ledger_apply (w_recent_state_roots w) n p L)
              (kept bs sr) (kept bs ss1) w'"
        by (rule Cons.IH [OF _ hc(2) ft(2) tl]) (use step in simp)
      then show ?thesis using step by (auto simp: pass_ok_def ss' b ss split: option.splits)
    qed
  qed
qed

lemma pass_ok_append:
  assumes "pass_ok va vs C0 n w L ks ks' w1"
    and "pass_ok va vs C0 n w1 (ledger_run (w_recent_state_roots w) n (map fst ks) L) ms ms' w2"
  shows "pass_ok va vs C0 n w L (ks @ ms) (ks' @ ms') w2"
  using assms by (auto simp: pass_ok_def)

lemma apply_target_txs_simulates:
  assumes snd: "pod2_sound P va vs"
    and "implements va vs C0 w L"
    and "hints_complete prior C0 (created_of (slot_payloads txs))"
    and "fits L (slot_payloads txs)"
    and "apply_target_txs P prior slot n txs w = Ok (txs', w')"
  shows "pass_ok va vs C0 n w L (slot_kept txs) (slot_kept txs') w'"
  using assms(2-)
proof (induction txs arbitrary: w L txs')
  case Nil
  then show ?case by (auto simp: pass_ok_def)
next
  case (Cons tx txs)
  let ?ks = "kept (tt_blobs tx) (ts_blobs (tt_status tx))"
  let ?L1 = "ledger_run (w_recent_state_roots w) n (map fst ?ks) L"
  from Cons.prems(4) obtain ss w1 tl
    where t: "apply_tx_blobs P prior slot n (tt_blobs tx) (ts_blobs (tt_status tx)) w = Ok (ss, w1)"
      and tl: "apply_target_txs P prior slot n txs w1 = Ok (tl, w')"
      and txs': "txs' = tx\<lparr> tt_status := (tt_status tx)\<lparr> ts_blobs := ss \<rparr> \<rparr> # tl"
    by fastforce
  have hc: "hints_complete prior C0 (created_of (map fst ?ks))"
      "hints_complete prior C0 (created_of (slot_payloads txs))"
    using Cons.prems(2) by (auto simp: slot_payloads_def intro: hints_complete_mono)
  have ft: "fits L (map fst ?ks)" "fits ?L1 (slot_payloads txs)"
    using Cons.prems(3) fits_append by (fastforce simp: slot_payloads_def)+
  have head: "pass_ok va vs C0 n w L ?ks (kept (tt_blobs tx) ss) w1"
    using apply_tx_blobs_simulates [OF snd Cons.prems(1) hc(1) ft(1) t] by simp
  then have "implements va vs C0 w1 ?L1" by (simp add: pass_ok_def)
  from pass_ok_append [OF head Cons.IH [OF this hc(2) ft(2) tl]] show ?case
    by (simp add: txs')
qed

section \<open>States and the ledger they commit to\<close>

text \<open>A (possibly absent) base state commits to a ledger and a history of state roots.\<close>

definition commits_to ::
    "('h, 'a, 's, 'mp) pod2 \<Rightarrow> ('a \<Rightarrow> nat \<Rightarrow> 'h option) \<Rightarrow> ('s \<Rightarrow> 'h set) \<Rightarrow> 'h don_state option
     \<Rightarrow> 'h ledger \<Rightarrow> 'h list \<Rightarrow> bool" where
  "commits_to P va vs base L H \<longleftrightarrow> ledger_ok L
     \<and> (\<forall>a. array_from_db P (created_root (base_roots_of P base)) = Ok a \<longrightarrow> va a = nth_opt (l_created L))
     \<and> (\<forall>s. set_from_db P (nullifiers_root (base_roots_of P base)) = Ok s \<longrightarrow> vs s = set (l_nullifiers L))
     \<and> (\<forall>a. array_from_db P (next_state_history (base_roots_of P base)) = Ok a \<longrightarrow> va a = nth_opt H)
     \<and> base_count created_count base = length (l_created L)
     \<and> base_count nullifier_count base = length (l_nullifiers L)
     \<and> base_count state_root_count base = length H"

definition empty_ledger :: "'h ledger" where
  "empty_ledger = \<lparr> l_created = [], l_nullifiers = [] \<rparr>"

lemma commits_to_genesis: "pod2_sound P va vs \<Longrightarrow> commits_to P va vs None empty_ledger []"
  by (auto simp: commits_to_def base_roots_of_def state_roots_empty_def ledger_ok_def base_count_def
      empty_ledger_def dest: sound_array_empty sound_set_empty)

lemma initial_working_implements:
  assumes "commits_to P va vs base L H"
    and "open_created P (created_root (base_roots_of P base)) = Ok created"
    and "open_nullifiers P (nullifiers_root (base_roots_of P base)) = Ok nulls"
  shows "implements va vs (l_created L) (initial_working base R created nulls hist) L"
  using assms by (simp add: implements_def commits_to_def initial_working_def open_created_def
      open_nullifiers_def)

lemma close_slot_commits:
  assumes snd: "pod2_sound P va vs" and imp: "implements va vs C0 w L'"
    and hist: "va (w_next_state_history w) = nth_opt H" and fit: "length H + 1 < 2 ^ 64"
    and res: "close_slot P rs (length H) block w = Ok st"
  shows "commits_to P va vs (Some st) L' (H @ [state_root (metadata st)])"
proof -
  from res obtain h where h: "array_insert P (w_next_state_history w) (length H)
      (state_root (metadata st)) = Ok h"
    and r: "created_root (roots st) = array_commitment P (w_created w)"
      "nullifiers_root (roots st) = set_commitment P (w_nullifiers w)"
      "next_state_history (roots st) = array_commitment P h"
    and c: "created_count (metadata st) = w_created_count w"
      "nullifier_count (metadata st) = w_nullifier_count w"
      "state_root_count (metadata st) = u64_add (length H) 1"
    by (auto simp: close_slot_def Let_def)
  have "va h = nth_opt (H @ [state_root (metadata st)])"
    using sound_array_insert [OF snd h] hist by simp
  then show ?thesis
    using imp fit by (auto simp: commits_to_def base_roots_of_def base_count_def r c implements_def
        cast_simps dest: sound_array_reopen [OF snd] sound_set_reopen [OF snd])
qed

lemma derive_slot_stateE:
  assumes "derive_slot_state P base R slot block txs prior = Ok (d, txs')"
  obtains created nulls hist w where
    "open_created P (created_root (base_roots_of P base)) = Ok created"
    "open_nullifiers P (nullifiers_root (base_roots_of P base)) = Ok nulls"
    "open_next_state_history P (next_state_history (base_roots_of P base)) = Ok hist"
    "apply_target_txs P prior slot (eb_number block) txs
       (initial_working base R created nulls hist) = Ok (txs', w)"
    "close_slot P (base_roots_of P base) (base_count state_root_count base) block w = Ok (ds_state d)"
    "ds_created_added d = w_created_added w"
  using assms unfolding derive_slot_state_def Let_def by auto

lemma derive_slot_state_simulates:
  assumes snd: "pod2_sound P va vs" and base: "commits_to P va vs base L H"
    and hints: "hints_complete prior (l_created L) (created_of (slot_payloads txs))"
    and fit: "fits L (slot_payloads txs)" and fitH: "length H + 1 < 2 ^ 64"
    and res: "derive_slot_state P base R slot block txs prior = Ok (d, txs')"
  defines "L' \<equiv> ledger_run (hm_from_iter R) (eb_number block) (slot_payloads txs) L"
  shows "commits_to P va vs (Some (ds_state d)) L' (H @ [state_root (metadata (ds_state d))])"
    and "slot_payloads txs' = slot_payloads txs"
    and "(\<forall>e \<in> set (slot_errors txs). e = None) \<Longrightarrow>
         map (\<lambda>e. e = None) (slot_errors txs') =
         verdicts (hm_from_iter R) (eb_number block) (slot_payloads txs) L"
    and "take (length (l_created L)) (l_created L') = l_created L"
    and "map_of (ds_created_added d) x = Some i \<longleftrightarrow>
         (\<exists>k \<ge> length (l_created L). k < length (l_created L') \<and> l_created L' ! k = x \<and> i = as_i64 k)"
    and "distinct (map fst (ds_created_added d))"
proof -
  from derive_slot_stateE [OF res] obtain created nulls hist w where
    op: "open_created P (created_root (base_roots_of P base)) = Ok created"
      "open_nullifiers P (nullifiers_root (base_roots_of P base)) = Ok nulls"
      "open_next_state_history P (next_state_history (base_roots_of P base)) = Ok hist"
    and app: "apply_target_txs P prior slot (eb_number block) txs
       (initial_working base R created nulls hist) = Ok (txs', w)"
    and cl: "close_slot P (base_roots_of P base) (base_count state_root_count base) block w
               = Ok (ds_state d)"
    and add: "ds_created_added d = w_created_added w" .
  note pass = apply_target_txs_simulates
    [OF snd initial_working_implements [OF base op(1,2)] hints fit app]
  then have imp: "implements va vs (l_created L) w L'" and fr: "w_next_state_history w = hist"
    by (simp_all add: pass_ok_def L'_def slot_payloads_def initial_working_def)
  have "va (w_next_state_history w) = nth_opt H" and "base_count state_root_count base = length H"
    using base op(3) fr by (auto simp: commits_to_def open_next_state_history_def)
  then show "commits_to P va vs (Some (ds_state d)) L' (H @ [state_root (metadata (ds_state d))])"
    using close_slot_commits [OF snd imp _ fitH] cl by simp
  show "slot_payloads txs' = slot_payloads txs"
    using pass by (simp add: pass_ok_def slot_payloads_def)
  show "map (\<lambda>e. e = None) (slot_errors txs') =
         verdicts (hm_from_iter R) (eb_number block) (slot_payloads txs) L"
    if "\<forall>e \<in> set (slot_errors txs). e = None"
    using pass that by (simp add: pass_ok_def slot_payloads_def slot_errors_def initial_working_def comp_def)
  show "take (length (l_created L)) (l_created L') = l_created L"
    and "map_of (ds_created_added d) x = Some i \<longleftrightarrow>
         (\<exists>k \<ge> length (l_created L). k < length (l_created L') \<and> l_created L' ! k = x \<and> i = as_i64 k)"
    and "distinct (map fst (ds_created_added d))"
    using imp by (auto simp: implements_def add)
qed

section \<open>The derivation returns\<close>

text \<open>With storage that answers, no slot is stuck: whatever the payloads are, the derivation
  returns a state, and the roots of that state reopen.\<close>

lemma already_created_live: "pod2_live P va vs \<Longrightarrow> \<exists>b. already_created P w prior obj = Ok b"
  by (auto simp: already_created_def created_array_holds_def pod2_live_def split: option.splits)

lemma check_created_live: "pod2_live P va vs \<Longrightarrow> \<exists>r. check_created P w prior seen objs = Ok r"
proof (induction objs arbitrary: seen)
  case (Cons obj objs)
  then show ?case
    using already_created_live [OF Cons.prems, of w prior obj] by (auto simp del: obind_Ok_iff)
qed simp

lemma check_nullifiers_live: "pod2_live P va vs \<Longrightarrow> \<exists>r. check_nullifiers P w seen ns = Ok r"
proof (induction ns arbitrary: seen)
  case (Cons n ns)
  then obtain b where "set_contains P (w_nullifiers w) n = Ok b" by (metis pod2_live_def)
  with Cons show ?case by (auto simp del: obind_Ok_iff)
qed simp

lemma append_created_loop_live:
  assumes "pod2_sound P va vs" and "pod2_live P va vs"
    and "implements va vs C0 w L" and "distinct objs" and "set objs \<inter> set (l_created L) = {}"
    and "length (l_created L) + length objs < 2 ^ 64"
  shows "\<exists>w'. ofold (append_created P) objs w = Ok w'"
  using assms(3-)
proof (induction objs arbitrary: w L)
  case (Cons obj objs)
  from Cons.prems(1) have "va (w_created w) (w_created_count w) = None" by (simp add: implements_def)
  with assms(2) obtain arr where "array_insert P (w_created w) (w_created_count w) obj = Ok arr"
    unfolding pod2_live_def by blast
  then obtain w1 where w1: "append_created P obj w = Ok w1" by (simp add: append_created_def Let_def)
  have "implements va vs C0 w1 (L\<lparr> l_created := l_created L @ [obj] \<rparr>)"
    using append_created_step [OF assms(1) Cons.prems(1) _ _ w1] Cons.prems by simp
  from Cons.IH [OF this] Cons.prems w1 show ?case by simp
qed simp

lemma insert_nullifier_loop_live:
  assumes "pod2_sound P va vs" and "pod2_live P va vs"
    and "implements va vs C0 w L" and "distinct ns" and "set ns \<inter> set (l_nullifiers L) = {}"
    and "length (l_nullifiers L) + length ns < 2 ^ 64"
  shows "\<exists>w'. ofold (insert_nullifier P) ns w = Ok w'"
  using assms(3-)
proof (induction ns arbitrary: w L)
  case (Cons n ns)
  from Cons.prems(1,3) have "n \<notin> vs (w_nullifiers w)" by (simp add: implements_def)
  with assms(2) obtain s where "set_insert P (w_nullifiers w) n = Ok s"
    unfolding pod2_live_def by blast
  then obtain w1 where w1: "insert_nullifier P n w = Ok w1" by (simp add: insert_nullifier_def)
  have "implements va vs C0 w1 (L\<lparr> l_nullifiers := l_nullifiers L @ [n] \<rparr>)"
    using insert_nullifier_step [OF assms(1) Cons.prems(1) _ _ w1] Cons.prems by simp
  from Cons.IH [OF this] Cons.prems w1 show ?case by simp
qed simp

lemma apply_payload_live:
  assumes snd: "pod2_sound P va vs" and live: "pod2_live P va vs" and imp: "implements va vs C0 w L"
    and hints: "hints_complete prior C0 (set (p_created p))" and fit: "fits L [p]"
  shows "\<exists>rej w'. apply_payload P w p prior n = Ok (rej, w')"
proof -
  obtain rc where rc: "check_created P w prior {} (p_created p) = Ok rc"
    using check_created_live [OF live] by blast
  obtain rn where rn: "check_nullifiers P w {} (p_nullifiers p) = Ok rn"
    using check_nullifiers_live [OF live] by blast
  have fc: "length (l_created L) + length (p_created p) < 2 ^ 64"
    and fn: "length (l_nullifiers L) + length (p_nullifiers p) < 2 ^ 64"
    using fit by (simp_all add: fits_def)
  show ?thesis
  proof (cases "rc = None \<and> rn = None")
    case False
    then show ?thesis by (auto simp: apply_payload_def rc rn Let_def split: option.splits)
  next
    case True
    have c: "distinct (p_created p)" "set (p_created p) \<inter> set (l_created L) = {}"
      using check_created_iff [OF snd imp hints _ _ rc] fc True by simp_all
    have d: "distinct (p_nullifiers p)" "set (p_nullifiers p) \<inter> set (l_nullifiers L) = {}"
      using check_nullifiers_iff [OF snd _ rn] imp True by (simp_all add: implements_def)
    obtain w1 where w1: "ofold (append_created P) (p_created p) w = Ok w1"
      using append_created_loop_live [OF snd live imp c fc] by blast
    have "implements va vs C0 w1 (L\<lparr> l_created := l_created L @ p_created p \<rparr>)"
      using append_created_loop [OF snd imp c fc w1] .
    then obtain w2 where "ofold (insert_nullifier P) (p_nullifiers p) w1 = Ok w2"
      using insert_nullifier_loop_live [OF snd live] d fn by fastforce
    with w1 True show ?thesis
      by (auto simp: apply_payload_def rc rn Let_def split: option.splits)
  qed
qed

lemma apply_tx_blobs_live:
  assumes snd: "pod2_sound P va vs" and live: "pod2_live P va vs"
    and "implements va vs C0 w L"
    and "hints_complete prior C0 (created_of (map fst (kept bs ss)))"
    and "fits L (map fst (kept bs ss))"
  shows "\<exists>ss' w'. apply_tx_blobs P prior slot n bs ss w = Ok (ss', w')"
  using assms(3-)
proof (induction bs arbitrary: ss w L)
  case (Cons b bs)
  show ?case
  proof (cases ss)
    case ss: (Cons s sr)
    show ?thesis
    proof (cases b)
      case None
      then show ?thesis using Cons.IH [of w L sr] Cons.prems by (auto simp: ss)
    next
      case (Some ip)
      then obtain i p where b: "b = Some (i, p)" by (cases ip) auto
      have hc: "hints_complete prior C0 (set (p_created p))"
          "hints_complete prior C0 (created_of (map fst (kept bs sr)))"
        using Cons.prems(2) by (auto simp: b ss intro: hints_complete_mono)
      have ft: "fits L [p]"
          "fits (ledger_apply (w_recent_state_roots w) n p L) (map fst (kept bs sr))"
        using Cons.prems(3) fits_Cons by (fastforce simp: b ss)+
      obtain rej w1 where ap: "apply_payload P w p prior n = Ok (rej, w1)"
        using apply_payload_live [OF snd live Cons.prems(1) hc(1) ft(1)] by blast
      have "implements va vs C0 w1 (ledger_apply (w_recent_state_roots w) n p L)"
        using apply_payload_simulates [OF snd Cons.prems(1) hc(1) ft(1) ap] by simp
      from Cons.IH [OF this hc(2) ft(2)] ap show ?thesis by (auto simp: b ss Let_def)
    qed
  qed simp
qed simp

lemma apply_target_txs_live:
  assumes snd: "pod2_sound P va vs" and live: "pod2_live P va vs"
    and "implements va vs C0 w L"
    and "hints_complete prior C0 (created_of (slot_payloads txs))"
    and "fits L (slot_payloads txs)"
  shows "\<exists>txs' w'. apply_target_txs P prior slot n txs w = Ok (txs', w')"
  using assms(3-)
proof (induction txs arbitrary: w L)
  case (Cons tx txs)
  let ?ks = "kept (tt_blobs tx) (ts_blobs (tt_status tx))"
  let ?L1 = "ledger_run (w_recent_state_roots w) n (map fst ?ks) L"
  have hc: "hints_complete prior C0 (created_of (map fst ?ks))"
      "hints_complete prior C0 (created_of (slot_payloads txs))"
    using Cons.prems(2) by (auto simp: slot_payloads_def intro: hints_complete_mono)
  have ft: "fits L (map fst ?ks)" "fits ?L1 (slot_payloads txs)"
    using Cons.prems(3) fits_append by (fastforce simp: slot_payloads_def)+
  obtain ss w1 where t:
      "apply_tx_blobs P prior slot n (tt_blobs tx) (ts_blobs (tt_status tx)) w = Ok (ss, w1)"
    using apply_tx_blobs_live [OF snd live Cons.prems(1) hc(1) ft(1)] by blast
  have "implements va vs C0 w1 ?L1"
    using apply_tx_blobs_simulates [OF snd Cons.prems(1) hc(1) ft(1) t] by (simp add: pass_ok_def)
  from Cons.IH [OF this hc(2) ft(2)] t show ?case by auto
qed simp

definition reopens :: "('h, 'a, 's, 'mp) pod2 \<Rightarrow> 'h don_state option \<Rightarrow> bool" where
  "reopens P base \<longleftrightarrow>
     (\<exists>a. array_from_db P (created_root (base_roots_of P base)) = Ok a)
     \<and> (\<exists>s. set_from_db P (nullifiers_root (base_roots_of P base)) = Ok s)
     \<and> (\<exists>a. array_from_db P (next_state_history (base_roots_of P base)) = Ok a)"

lemma reopens_genesis: "pod2_live P va vs \<Longrightarrow> reopens P None"
  by (simp add: reopens_def base_roots_of_def state_roots_empty_def pod2_live_def)

lemma derive_slot_state_returns:
  assumes snd: "pod2_sound P va vs" and live: "pod2_live P va vs"
    and base: "commits_to P va vs base L H" and ro: "reopens P base"
    and hints: "hints_complete prior (l_created L) (created_of (slot_payloads txs))"
    and fit: "fits L (slot_payloads txs)"
  shows "\<exists>d txs'. derive_slot_state P base R slot block txs prior = Ok (d, txs')
           \<and> reopens P (Some (ds_state d))"
proof -
  from ro obtain created nulls hist where
    op: "open_created P (created_root (base_roots_of P base)) = Ok created"
      "open_nullifiers P (nullifiers_root (base_roots_of P base)) = Ok nulls"
      "open_next_state_history P (next_state_history (base_roots_of P base)) = Ok hist"
    by (auto simp: reopens_def open_created_def open_nullifiers_def open_next_state_history_def)
  note imp = initial_working_implements [OF base op(1,2)]
  obtain txs' w where app: "apply_target_txs P prior slot (eb_number block) txs
       (initial_working base R created nulls hist) = Ok (txs', w)"
    using apply_target_txs_live [OF snd live imp hints fit] by blast
  have "w_next_state_history w = hist"
    using apply_target_txs_simulates [OF snd imp hints fit app]
    by (simp add: pass_ok_def initial_working_def)
  then have "va (w_next_state_history w) (base_count state_root_count base) = None"
    using base op(3) by (simp add: commits_to_def open_next_state_history_def)
  then obtain h where "array_insert P (w_next_state_history w) (base_count state_root_count base)
      (header_hash P (state_header P block (array_commitment P (w_created w))
        (set_commitment P (w_nullifiers w)) (next_state_history (base_roots_of P base)))) = Ok h"
    using live unfolding pod2_live_def by blast
  then obtain st where cl:
      "close_slot P (base_roots_of P base) (base_count state_root_count base) block w = Ok st"
      and st: "roots st = \<lparr> created_root = array_commitment P (w_created w),
        nullifiers_root = set_commitment P (w_nullifiers w),
        prior_state_history = next_state_history (base_roots_of P base),
        next_state_history = array_commitment P h \<rparr>"
    by (simp add: close_slot_def Let_def)
  have "derive_slot_state P base R slot block txs prior
      = Ok (\<lparr> ds_state = st, ds_created_added = w_created_added w \<rparr>, txs')"
    by (simp add: derive_slot_state_def Let_def op app cl del: obind_Ok_iff)
  moreover have "reopens P (Some st)"
    using live by (simp add: reopens_def base_roots_of_def st pod2_live_def)
  ultimately show ?thesis by auto
qed

end
