(* ===== verification/State_Log.thy ===== *)
theory State_Log
  imports State_Machine "HOL-Library.Product_Lexorder" "HOL-Library.List_Lexorder"
begin

text \<open>
  The Postgres state log (\<open>synchronizer/src/state_log_db.rs\<close>): the three tables with their
  constraints, the transaction that commits a slot, the one that rolls slots back, and
  every query. A hash column holds the hash (its byte form and back is
  \<open>hash_to_db_bytes\<close> and \<open>db_bytes_to_hash\<close>); integer columns are signed, and
  the casts at their boundary are written out. A transaction either returns the
  new tables or an error with the tables unchanged.

  The locale \<open>slot_store\<close> is the contract the sync loop relies on: committing above
  everything stored, and a rollback that undoes exactly the commits after the kept slot.
\<close>

section \<open>Tables\<close>

text \<open>The eleven state columns of a slot are all set or all null (the table's \<open>CHECK\<close>).\<close>

record 'h state_cols =
  el_block_number :: int
  el_block_timestamp :: int
  el_block_hash :: b256
  don_created_root :: 'h
  don_nullifiers_root :: 'h
  don_prior_state_history_root :: 'h
  don_next_state_history_root :: 'h
  don_state_root :: 'h
  don_created_count :: int
  don_nullifier_count :: int
  don_state_root_count :: int

record 'h slot_row =
  sr_slot :: int
  cl_block_root :: "b256 option"
  sr_state :: "'h state_cols option"

record 'h created_row =
  cr_commitment :: 'h
  cr_array_index :: int
  cr_slot :: int

record 'h tx_row =
  tr_slot :: int
  tr_tx_hash :: b256
  tr_tx_blob_index :: int
  tr_tx_final :: "'h option"
  tr_error :: "string option"

record 'h state_log =
  slots :: "'h slot_row list"
  created_index :: "'h created_row list"
  tx_statuses :: "'h tx_row list"

definition empty_log :: "'h state_log" where
  "empty_log = \<lparr> slots = [], created_index = [], tx_statuses = [] \<rparr>"

record 'h slot_state =
  ss_state :: "'h don_state"
  ss_slot :: nat

text \<open>\<open>wire_types::synchronizer::TxBlobStatus\<close>.\<close>

record 'h tx_blob_status =
  tbs_tx_hash :: b256
  tbs_tx_blob_index :: nat
  tbs_tx_final :: "'h option"
  tbs_error :: "string option"
  tbs_block_number :: int
  tbs_block_hash :: b256

section \<open>Encoding and decoding rows\<close>

definition MAX_STORED_ERROR_CHARS :: nat where
  "MAX_STORED_ERROR_CHARS = 256"

definition cap_error :: "string \<Rightarrow> string" where
  "cap_error e =
     (if length e \<le> MAX_STORED_ERROR_CHARS then e
      else take (MAX_STORED_ERROR_CHARS - 3) e @ ''...'')"

definition encode_state :: "'h don_state \<Rightarrow> 'h state_cols" where
  "encode_state st =
     \<lparr> el_block_number = as_i64 (eb_number (md_block (metadata st))),
       el_block_timestamp = as_i64 (eb_timestamp (md_block (metadata st))),
       el_block_hash = eb_hash (md_block (metadata st)),
       don_created_root = created_root (roots st),
       don_nullifiers_root = nullifiers_root (roots st),
       don_prior_state_history_root = prior_state_history (roots st),
       don_next_state_history_root = next_state_history (roots st),
       don_state_root = state_root (metadata st),
       don_created_count = as_i64 (created_count (metadata st)),
       don_nullifier_count = as_i64 (nullifier_count (metadata st)),
       don_state_root_count = as_i64 (state_root_count (metadata st)) \<rparr>"

definition decode_state_row :: "'h state_cols \<Rightarrow> 'h don_state" where
  "decode_state_row c =
     \<lparr> roots = \<lparr> created_root = don_created_root c, nullifiers_root = don_nullifiers_root c,
                 prior_state_history = don_prior_state_history_root c,
                 next_state_history = don_next_state_history_root c \<rparr>,
       metadata = \<lparr> state_root = don_state_root c,
                    md_block = \<lparr> eb_number = as_u64 (el_block_number c),
                                 eb_timestamp = as_u64 (el_block_timestamp c),
                                 eb_hash = el_block_hash c \<rparr>,
                    created_count = as_u64 (don_created_count c),
                    nullifier_count = as_u64 (don_nullifier_count c),
                    state_root_count = as_u64 (don_state_root_count c) \<rparr> \<rparr>"

definition decode_slot_state_row :: "'h slot_row \<Rightarrow> 'h slot_state option" where
  "decode_slot_state_row r =
     map_option (\<lambda>c. \<lparr> ss_state = decode_state_row c, ss_slot = as_u32 (sr_slot r) \<rparr>) (sr_state r)"

section \<open>Queries\<close>

definition slot_numbers :: "'h state_log \<Rightarrow> int list" where
  "slot_numbers db = map sr_slot (slots db)"

definition first_committed_slot :: "'h state_log \<Rightarrow> nat option" where
  "first_committed_slot db =
     (if slots db = [] then None else Some (as_u32 (Min (set (slot_numbers db)))))"

definition last_processed_slot :: "'h state_log \<Rightarrow> nat option" where
  "last_processed_slot db =
     (if slots db = [] then None else Some (as_u32 (Max (set (slot_numbers db)))))"

text \<open>The check \<open>connect\<close> makes once the tables exist.\<close>

definition connect_check :: "'h state_log \<Rightarrow> nat \<Rightarrow> (string, unit) outcome" where
  "connect_check db init_start_slot =
     obind (ensure (init_start_slot \<ge> 1) ''INIT_START_SLOT must be >= 1'') (\<lambda>_.
       case first_committed_slot db of
         None \<Rightarrow> Ok ()
       | Some first_slot \<Rightarrow>
           ensure (first_slot = init_start_slot)
             (''stored slots start at '' @ show_nat first_slot @ '' but INIT_START_SLOT is ''
              @ show_nat init_start_slot @ ''; resync from an empty database to change it''))"

text \<open>\<open>ORDER BY slot DESC LIMIT 1\<close>.\<close>

fun later_row :: "'h slot_row \<Rightarrow> 'h slot_row option \<Rightarrow> 'h slot_row option" where
  "later_row r None = Some r"
| "later_row r (Some b) = (if sr_slot b < sr_slot r then Some r else Some b)"

definition latest_row :: "'h slot_row list \<Rightarrow> 'h slot_row option" where
  "latest_row rows = fold later_row rows None"

definition slot_state_at_head :: "'h state_log \<Rightarrow> 'h slot_state option" where
  "slot_state_at_head db =
     Option.bind (latest_row (filter (\<lambda>r. sr_state r \<noteq> None) (slots db))) decode_slot_state_row"

definition don_state_at_head :: "'h state_log \<Rightarrow> 'h don_state option" where
  "don_state_at_head db = map_option ss_state (slot_state_at_head db)"

datatype block_hash_or_number = BlockNumber nat | BlockHash b256

definition state_col_matches :: "('h state_cols \<Rightarrow> bool) \<Rightarrow> 'h slot_row \<Rightarrow> bool" where
  "state_col_matches p r = (case sr_state r of None \<Rightarrow> False | Some c \<Rightarrow> p c)"

definition slot_state_at_el_block ::
    "'h state_log \<Rightarrow> block_hash_or_number \<Rightarrow> (string, 'h slot_state option) outcome" where
  "slot_state_at_el_block db block =
     (case block of
        BlockNumber number \<Rightarrow>
          if number < 2 ^ 63
          then Ok (Option.bind
                 (List.find (state_col_matches (\<lambda>c. el_block_number c = int number)) (slots db))
                 decode_slot_state_row)
          else Err (''block number '' @ show_nat number @ '' exceeds the stored range'')
      | BlockHash hash \<Rightarrow>
          Ok (Option.bind
                (List.find (state_col_matches (\<lambda>c. el_block_hash c = hash)) (slots db))
                decode_slot_state_row))"

definition row_at :: "'h state_log \<Rightarrow> int \<Rightarrow> 'h slot_row option" where
  "row_at db s = List.find (\<lambda>r. sr_slot r = s) (slots db)"

text \<open>\<open>tx_statuses JOIN slots USING (slot)\<close>. Decoding the execution block of a slot without
  one panics, the column being null.\<close>

definition decode_tx_blob_status_row ::
    "'h state_log \<Rightarrow> 'h tx_row \<Rightarrow> (string, 'h tx_blob_status) outcome" where
  "decode_tx_blob_status_row db t =
     (case Option.bind (row_at db (tr_slot t)) sr_state of
        None \<Rightarrow> Panic
      | Some c \<Rightarrow>
          Ok \<lparr> tbs_tx_hash = tr_tx_hash t, tbs_tx_blob_index = as_u32 (tr_tx_blob_index t),
               tbs_tx_final = tr_tx_final t, tbs_error = tr_error t,
               tbs_block_number = el_block_number c, tbs_block_hash = el_block_hash c \<rparr>)"

definition joined_tx_rows :: "'h state_log \<Rightarrow> 'h tx_row list" where
  "joined_tx_rows db = filter (\<lambda>t. row_at db (tr_slot t) \<noteq> None) (tx_statuses db)"

definition tx_statuses_by_tx_hash ::
    "'h state_log \<Rightarrow> b256 \<Rightarrow> (string, 'h tx_blob_status list) outcome" where
  "tx_statuses_by_tx_hash db tx_hash =
     omap (decode_tx_blob_status_row db)
       (sort_key tr_tx_blob_index (filter (\<lambda>t. tr_tx_hash t = tx_hash) (joined_tx_rows db)))"

definition tx_final_order :: "'h tx_row \<Rightarrow> bool \<times> int \<times> b256 \<times> int" where
  "tx_final_order t = (tr_error t \<noteq> None, - tr_slot t, tr_tx_hash t, tr_tx_blob_index t)"

definition tx_status_by_tx_final ::
    "'h state_log \<Rightarrow> 'h \<Rightarrow> (string, 'h tx_blob_status option) outcome" where
  "tx_status_by_tx_final db tx_final =
     (case sort_key tx_final_order
             (filter (\<lambda>t. tr_tx_final t = Some tx_final) (joined_tx_rows db)) of
        [] \<Rightarrow> Ok None
      | t # _ \<Rightarrow> obind (decode_tx_blob_status_row db t) (\<lambda>s. Ok (Some s)))"

definition slot_root :: "'h state_log \<Rightarrow> nat \<Rightarrow> b256 option" where
  "slot_root db slot = Option.bind (row_at db (as_i32 slot)) cl_block_root"

definition latest_block_root_before :: "'h state_log \<Rightarrow> nat \<Rightarrow> (string, b256) outcome" where
  "latest_block_root_before db slot =
     ok_or ''no rows returned by a query that expected to return at least one row''
       (Option.bind
          (latest_row (filter (\<lambda>r. sr_slot r < as_i32 slot \<and> cl_block_root r \<noteq> None) (slots db)))
          cl_block_root)"

definition created_indices :: "'h state_log \<Rightarrow> 'h list \<Rightarrow> ('h \<times> int) list" where
  "created_indices db commitments =
     (if commitments = [] then []
      else hm_from_iter
             (map (\<lambda>r. (cr_commitment r, cr_array_index r))
                (filter (\<lambda>r. cr_commitment r \<in> set commitments) (created_index db))))"

text \<open>Both reads run in one repeatable-read transaction: one database value.\<close>

definition slot_state_at_head_with_created_indices ::
    "'h state_log \<Rightarrow> 'h list \<Rightarrow> 'h slot_state option \<times> ('h \<times> int) list" where
  "slot_state_at_head_with_created_indices db commitments =
     (slot_state_at_head db, created_indices db commitments)"

definition root_and_block :: "'h slot_row \<Rightarrow> ('h \<times> int \<times> int) option" where
  "root_and_block r = map_option (\<lambda>c. (don_state_root c, el_block_number c, sr_slot r)) (sr_state r)"

definition recent_state_roots :: "'h state_log \<Rightarrow> nat \<Rightarrow> ('h \<times> int) list" where
  "recent_state_roots db min_block_number =
     map (\<lambda>(h, b, s). (h, b))
       (sort_key snd
          (filter (\<lambda>(h, b, s). b \<ge> as_i64 min_block_number)
             (List.map_filter root_and_block (slots db))))"

section \<open>Transactions\<close>

datatype db_error = UniqueViolation string | ForeignKeyViolation string

definition insert_slot_row :: "'h slot_row \<Rightarrow> 'h state_log \<Rightarrow> (db_error, 'h state_log) outcome" where
  "insert_slot_row r db =
     (if sr_slot r \<in> set (slot_numbers db) then Err (UniqueViolation ''slots_pkey'')
      else if cl_block_root r \<noteq> None \<and> cl_block_root r \<in> set (map cl_block_root (slots db))
      then Err (UniqueViolation ''slots_cl_block_root_uq'')
      else Ok (db\<lparr> slots := slots db @ [r] \<rparr>))"

definition insert_created_row :: "'h created_row \<Rightarrow> 'h state_log \<Rightarrow> (db_error, 'h state_log) outcome" where
  "insert_created_row r db =
     (if cr_commitment r \<in> set (map cr_commitment (created_index db))
      then Err (UniqueViolation ''created_index_pkey'')
      else Ok (db\<lparr> created_index := created_index db @ [r] \<rparr>))"

definition insert_tx_row :: "'h tx_row \<Rightarrow> 'h state_log \<Rightarrow> (db_error, 'h state_log) outcome" where
  "insert_tx_row t db =
     (if tr_slot t \<notin> set (slot_numbers db) then Err (ForeignKeyViolation ''tx_statuses_slot_fkey'')
      else if (tr_tx_hash t, tr_tx_blob_index t)
                \<in> set (map (\<lambda>u. (tr_tx_hash u, tr_tx_blob_index u)) (tx_statuses db))
      then Err (UniqueViolation ''tx_statuses_pkey'')
      else Ok (db\<lparr> tx_statuses := tx_statuses db @ [t] \<rparr>))"

definition tx_rows_of :: "nat \<Rightarrow> 'h tx_status \<Rightarrow> 'h tx_row list" where
  "tx_rows_of slot st =
     map (\<lambda>(i, b). \<lparr> tr_slot = as_i32 slot, tr_tx_hash = ts_tx_hash st, tr_tx_blob_index = as_i32 i,
                     tr_tx_final = bs_tx_final b, tr_error = map_option cap_error (bs_error b) \<rparr>)
       (enumerate 0 (ts_blobs st))"

text \<open>Outcome of processing one slot, ready to be committed (\<open>node.rs\<close>).\<close>

record 'h processed_slot =
  ps_slot :: nat
  ps_block_root :: "b256 option"
  ps_derived :: "'h derived_slot option"
  ps_tx_statuses :: "'h tx_status list"

definition commit_slot :: "'h processed_slot \<Rightarrow> 'h state_log \<Rightarrow> (db_error, 'h state_log) outcome" where
  "commit_slot p db =
     obind (insert_slot_row
       \<lparr> sr_slot = as_i32 (ps_slot p), cl_block_root = ps_block_root p,
         sr_state = map_option (\<lambda>d. encode_state (ds_state d)) (ps_derived p) \<rparr> db) (\<lambda>db.
     obind (ofold insert_created_row
       (map (\<lambda>(c, i). \<lparr> cr_commitment = c, cr_array_index = i, cr_slot = as_i32 (ps_slot p) \<rparr>)
          (case ps_derived p of None \<Rightarrow> [] | Some d \<Rightarrow> ds_created_added d)) db) (\<lambda>db.
     ofold insert_tx_row (concat (map (tx_rows_of (ps_slot p)) (ps_tx_statuses p))) db))"

text \<open>Deleting a slot row cascades to its transaction statuses.\<close>

definition rollback_to_slot :: "nat \<Rightarrow> 'h state_log \<Rightarrow> 'h state_log" where
  "rollback_to_slot keep_slot db =
     (let gone = set (filter (\<lambda>s. s > as_i32 keep_slot) (slot_numbers db))
      in \<lparr> slots = filter (\<lambda>r. \<not> sr_slot r > as_i32 keep_slot) (slots db),
           created_index = filter (\<lambda>r. \<not> cr_slot r > as_i32 keep_slot) (created_index db),
           tx_statuses = filter (\<lambda>t. tr_slot t \<notin> gone) (tx_statuses db) \<rparr>)"

section \<open>What a commit and a rollback do to the tables\<close>

definition slot_row_of :: "'h processed_slot \<Rightarrow> 'h slot_row" where
  "slot_row_of p = \<lparr> sr_slot = as_i32 (ps_slot p), cl_block_root = ps_block_root p,
     sr_state = map_option (\<lambda>d. encode_state (ds_state d)) (ps_derived p) \<rparr>"

definition created_rows_of :: "'h processed_slot \<Rightarrow> 'h created_row list" where
  "created_rows_of p =
     map (\<lambda>(c, i). \<lparr> cr_commitment = c, cr_array_index = i, cr_slot = as_i32 (ps_slot p) \<rparr>)
       (case ps_derived p of None \<Rightarrow> [] | Some d \<Rightarrow> ds_created_added d)"

definition status_rows_of :: "'h processed_slot \<Rightarrow> 'h tx_row list" where
  "status_rows_of p = concat (map (tx_rows_of (ps_slot p)) (ps_tx_statuses p))"

lemma created_rows_slot [simp]: "r \<in> set (created_rows_of p) \<Longrightarrow> cr_slot r = as_i32 (ps_slot p)"
  by (auto simp: created_rows_of_def)

lemma status_rows_slot [simp]: "t \<in> set (status_rows_of p) \<Longrightarrow> tr_slot t = as_i32 (ps_slot p)"
  by (auto simp: status_rows_of_def tx_rows_of_def)

lemma sr_slot_row_of [simp]: "sr_slot (slot_row_of p) = as_i32 (ps_slot p)"
  by (simp add: slot_row_of_def)

lemma insert_created_rows:
  "ofold insert_created_row rs db = Ok db' \<Longrightarrow>
   db' = db\<lparr> created_index := created_index db @ rs \<rparr>
   \<and> (distinct (map cr_commitment (created_index db)) \<longrightarrow> distinct (map cr_commitment (created_index db @ rs)))"
proof (induction rs arbitrary: db)
  case (Cons r rs)
  from Cons.prems obtain db1 where db1: "insert_created_row r db = Ok db1"
    and rest: "ofold insert_created_row rs db1 = Ok db'" by auto
  from db1 have "db1 = db\<lparr> created_index := created_index db @ [r] \<rparr>"
    and "cr_commitment r \<notin> set (map cr_commitment (created_index db))"
    by (auto simp: insert_created_row_def split: if_splits)
  with Cons.IH [OF rest] show ?case by simp
qed simp

lemma insert_tx_rows:
  "ofold insert_tx_row rs db = Ok db' \<Longrightarrow> db' = db\<lparr> tx_statuses := tx_statuses db @ rs \<rparr>"
proof (induction rs arbitrary: db)
  case (Cons r rs)
  from Cons.prems obtain db1 where db1: "insert_tx_row r db = Ok db1"
    and rest: "ofold insert_tx_row rs db1 = Ok db'" by auto
  from db1 have "db1 = db\<lparr> tx_statuses := tx_statuses db @ [r] \<rparr>"
    by (auto simp: insert_tx_row_def split: if_splits)
  with Cons.IH [OF rest] show ?case by simp
qed simp

lemma commit_slotD:
  assumes "commit_slot p db = Ok db'"
  shows "db' = \<lparr> slots = slots db @ [slot_row_of p],
                created_index = created_index db @ created_rows_of p,
                tx_statuses = tx_statuses db @ status_rows_of p \<rparr>"
    and "as_i32 (ps_slot p) \<notin> set (slot_numbers db)"
    and "ps_block_root p \<noteq> None \<Longrightarrow> ps_block_root p \<notin> set (map cl_block_root (slots db))"
    and "distinct (map cr_commitment (created_index db)) \<Longrightarrow>
         distinct (map cr_commitment (created_index db @ created_rows_of p))"
proof -
  from assms obtain db1 db2 where
    1: "insert_slot_row (slot_row_of p) db = Ok db1" and
    2: "ofold insert_created_row (created_rows_of p) db1 = Ok db2" and
    3: "ofold insert_tx_row (status_rows_of p) db2 = Ok db'"
    by (auto simp: commit_slot_def slot_row_of_def created_rows_of_def status_rows_of_def)
  from 1 have db1: "db1 = db\<lparr> slots := slots db @ [slot_row_of p] \<rparr>"
    and new: "sr_slot (slot_row_of p) \<notin> set (slot_numbers db)"
    and root: "cl_block_root (slot_row_of p) \<noteq> None \<longrightarrow>
       cl_block_root (slot_row_of p) \<notin> set (map cl_block_root (slots db))"
    by (auto simp: insert_slot_row_def split: if_splits)
  from insert_created_rows [OF 2] db1
  have db2: "db2 = db\<lparr> slots := slots db @ [slot_row_of p],
      created_index := created_index db @ created_rows_of p \<rparr>"
    and d: "distinct (map cr_commitment (created_index db)) \<longrightarrow>
      distinct (map cr_commitment (created_index db @ created_rows_of p))" by simp_all
  show "db' = \<lparr> slots = slots db @ [slot_row_of p],
                created_index = created_index db @ created_rows_of p,
                tx_statuses = tx_statuses db @ status_rows_of p \<rparr>"
    using insert_tx_rows [OF 3] by (simp add: db2)
  show "as_i32 (ps_slot p) \<notin> set (slot_numbers db)" using new by (simp add: slot_row_of_def)
  show "ps_block_root p \<notin> set (map cl_block_root (slots db))" if "ps_block_root p \<noteq> None"
    using root that by (simp add: slot_row_of_def)
  show "distinct (map cr_commitment (created_index db @ created_rows_of p))"
    if "distinct (map cr_commitment (created_index db))" using d that by blast
qed

text \<open>And when a commit goes through: a new slot and block root, new objects, new blobs.\<close>

lemma insert_created_rows_Ok:
  "distinct (map cr_commitment (created_index db @ rs)) \<Longrightarrow>
   ofold insert_created_row rs db = Ok (db\<lparr> created_index := created_index db @ rs \<rparr>)"
proof (induction rs arbitrary: db)
  case (Cons r rs)
  have "insert_created_row r db = Ok (db\<lparr> created_index := created_index db @ [r] \<rparr>)"
    using Cons.prems by (auto simp: insert_created_row_def)
  with Cons show ?case by (simp del: obind_Ok_iff)
qed simp

definition tx_key :: "'h tx_row \<Rightarrow> b256 \<times> int" where
  "tx_key t = (tr_tx_hash t, tr_tx_blob_index t)"

lemma insert_tx_rows_Ok:
  "distinct (map tx_key (tx_statuses db @ rs)) \<Longrightarrow> \<forall>t \<in> set rs. tr_slot t \<in> set (slot_numbers db) \<Longrightarrow>
   ofold insert_tx_row rs db = Ok (db\<lparr> tx_statuses := tx_statuses db @ rs \<rparr>)"
proof (induction rs arbitrary: db)
  case (Cons r rs)
  have "insert_tx_row r db = Ok (db\<lparr> tx_statuses := tx_statuses db @ [r] \<rparr>)"
    using Cons.prems by (auto simp: insert_tx_row_def tx_key_def image_iff)
  moreover have "slot_numbers (db\<lparr> tx_statuses := tx_statuses db @ [r] \<rparr>) = slot_numbers db"
    by (simp add: slot_numbers_def)
  ultimately show ?case using Cons by (simp del: obind_Ok_iff)
qed simp

lemma tx_rows_of_hash: "t \<in> set (tx_rows_of slot st) \<Longrightarrow> tr_tx_hash t = ts_tx_hash st"
  by (auto simp: tx_rows_of_def)

lemma status_rows_keys:
  assumes "distinct (map ts_tx_hash sts)" and "\<forall>st \<in> set sts. length (ts_blobs st) < 2 ^ 31"
  shows "distinct (map tx_key (concat (map (tx_rows_of slot) sts)))"
  using assms
proof (induction sts)
  case (Cons st sts)
  have inj: "inj_on as_i32 {0..<length (ts_blobs st)}"
    using Cons.prems(2) by (auto intro!: inj_onI dest: as_i32_inject [THEN iffD1, rotated 2])
  have "map tx_key (tx_rows_of slot st) =
      map (\<lambda>i. (ts_tx_hash st, as_i32 i)) [0..<length (ts_blobs st)]"
    by (rule nth_equalityI) (auto simp: tx_rows_of_def tx_key_def enumerate_eq_zip)
  then have "distinct (map tx_key (tx_rows_of slot st))"
    using inj by (simp add: distinct_map inj_on_def)
  moreover have "set (map tx_key (tx_rows_of slot st))
      \<inter> set (map tx_key (concat (map (tx_rows_of slot) sts))) = {}"
    using Cons.prems(1) by (auto simp: tx_key_def image_iff dest!: tx_rows_of_hash)
  ultimately show ?case using Cons by simp
qed simp

lemma commit_slot_Ok:
  assumes "as_i32 (ps_slot p) \<notin> set (slot_numbers db)"
    and "ps_block_root p = None \<or> ps_block_root p \<notin> set (map cl_block_root (slots db))"
    and "distinct (map cr_commitment (created_index db @ created_rows_of p))"
    and "distinct (map tx_key (tx_statuses db @ status_rows_of p))"
  shows "\<exists>db'. commit_slot p db = Ok db'"
proof -
  let ?db1 = "db\<lparr> slots := slots db @ [slot_row_of p] \<rparr>"
  let ?db2 = "?db1\<lparr> created_index := created_index db @ created_rows_of p \<rparr>"
  have 1: "insert_slot_row (slot_row_of p) db = Ok ?db1"
    using assms(1,2) by (auto simp: insert_slot_row_def slot_row_of_def)
  have 2: "ofold insert_created_row (created_rows_of p) ?db1 = Ok ?db2"
    using insert_created_rows_Ok [of ?db1 "created_rows_of p"] assms(3) by simp
  have "ofold insert_tx_row (status_rows_of p) ?db2
      = Ok (?db2\<lparr> tx_statuses := tx_statuses db @ status_rows_of p \<rparr>)"
    using insert_tx_rows_Ok [of ?db2 "status_rows_of p"] assms(4) by (simp add: slot_numbers_def)
  with 1 2 show ?thesis
    by (simp add: commit_slot_def slot_row_of_def created_rows_of_def status_rows_of_def
        del: obind_Ok_iff)
qed

text \<open>Referential integrity: every index and status row belongs to a stored slot.\<close>

definition log_wf :: "'h state_log \<Rightarrow> bool" where
  "log_wf db \<longleftrightarrow> (\<forall>r \<in> set (created_index db). cr_slot r \<in> set (slot_numbers db))
     \<and> (\<forall>t \<in> set (tx_statuses db). tr_slot t \<in> set (slot_numbers db))"

definition log_below :: "'h state_log \<Rightarrow> nat \<Rightarrow> bool" where
  "log_below db n \<longleftrightarrow> (\<forall>s \<in> set (slot_numbers db). s < int n)"

lemma slot_numbers_commit [simp]:
  "commit_slot p db = Ok db' \<Longrightarrow> slot_numbers db' = slot_numbers db @ [as_i32 (ps_slot p)]"
  by (drule commit_slotD(1)) (simp add: slot_numbers_def)

lemma log_wf_commit: "log_wf db \<Longrightarrow> commit_slot p db = Ok db' \<Longrightarrow> log_wf db'"
  by (drule commit_slotD(1)) (auto simp: log_wf_def slot_numbers_def)

lemma log_wf_rollback: "log_wf db \<Longrightarrow> log_wf (rollback_to_slot k db)"
  by (auto simp: log_wf_def rollback_to_slot_def slot_numbers_def Let_def)

lemma rollback_above:
  assumes "log_wf db" and "log_below db (Suc k)" and "k < 2 ^ 31"
  shows "rollback_to_slot k db = db"
proof -
  have le: "s \<le> as_i32 k" if "s \<in> set (slot_numbers db)" for s
    using assms that by (auto simp: log_below_def cast_simps)
  then have "filter (\<lambda>r. \<not> sr_slot r > as_i32 k) (slots db) = slots db"
    "filter (\<lambda>r. \<not> cr_slot r > as_i32 k) (created_index db) = created_index db"
    using assms(1) by (fastforce simp: filter_id_conv log_wf_def slot_numbers_def)+
  moreover have "filter (\<lambda>s. s > as_i32 k) (slot_numbers db) = []"
    using le by (simp add: filter_empty_conv not_less)
  ultimately show ?thesis by (simp add: rollback_to_slot_def)
qed

lemma rollback_commit:
  assumes "log_wf db" and "log_below db (ps_slot p)" and "ps_slot p < 2 ^ 31"
    and "commit_slot p db = Ok db'" and "k < ps_slot p"
  shows "rollback_to_slot k db' = rollback_to_slot k db"
proof -
  have k: "as_i32 k < as_i32 (ps_slot p)" using assms(3,5) by (simp add: cast_simps)
  have "filter (\<lambda>r. \<not> cr_slot r > as_i32 k) (created_rows_of p) = []"
    using k by (auto simp: filter_empty_conv)
  moreover have "filter (\<lambda>t. tr_slot t \<noteq> as_i32 (ps_slot p) \<and> tr_slot t \<notin> G) (status_rows_of p) = []" for G
    by (auto simp: filter_empty_conv)
  moreover have "tr_slot t \<noteq> as_i32 (ps_slot p)" if "t \<in> set (tx_statuses db)" for t
    using assms(1) commit_slotD(2) [OF assms(4)] that by (auto simp: log_wf_def)
  ultimately show ?thesis
    using k by (auto simp: rollback_to_slot_def commit_slotD(1) [OF assms(4)] slot_numbers_def Let_def
        intro!: filter_cong)
qed

section \<open>The slot store contract\<close>

text \<open>
  A store of slots: \<open>below d n\<close> says everything stored is for slots below \<open>n\<close>. The laws are
  what the sync loop relies on; \<open>max_slot\<close> bounds the slots the store can represent.
\<close>

inductive reach ::
    "('c \<Rightarrow> 'd \<Rightarrow> ('e, 'd) outcome) \<Rightarrow> (nat \<Rightarrow> 'd \<Rightarrow> 'd) \<Rightarrow> nat \<Rightarrow> ('c \<Rightarrow> 'd \<Rightarrow> bool) \<Rightarrow> 'd \<Rightarrow> 'd \<Rightarrow> bool"
  for commit rollback max_slot may d0 where
  reach_init: "reach commit rollback max_slot may d0 d0"
| reach_commit: "reach commit rollback max_slot may d0 d \<Longrightarrow> may c d \<Longrightarrow> commit c d = Ok d' \<Longrightarrow>
    reach commit rollback max_slot may d0 d'"
| reach_rollback: "reach commit rollback max_slot may d0 d \<Longrightarrow> k < max_slot \<Longrightarrow>
    reach commit rollback max_slot may d0 (rollback k d)"

inductive linear :: "('c \<Rightarrow> 'd \<Rightarrow> ('e, 'd) outcome) \<Rightarrow> ('c \<Rightarrow> 'd \<Rightarrow> bool) \<Rightarrow> 'd \<Rightarrow> 'd \<Rightarrow> bool"
  for commit may d0 where
  linear_init: "linear commit may d0 d0"
| linear_commit: "linear commit may d0 d \<Longrightarrow> may c d \<Longrightarrow> commit c d = Ok d' \<Longrightarrow> linear commit may d0 d'"

locale slot_store =
  fixes commit :: "'c \<Rightarrow> 'd \<Rightarrow> ('e, 'd) outcome"
    and rollback :: "nat \<Rightarrow> 'd \<Rightarrow> 'd"
    and slot_of :: "'c \<Rightarrow> nat"
    and below :: "'d \<Rightarrow> nat \<Rightarrow> bool"
    and wf :: "'d \<Rightarrow> bool"
    and d0 :: 'd
    and max_slot :: nat
  assumes wf_init: "wf d0"
    and below_init: "below d0 n"
    and wf_step: "wf d \<Longrightarrow> commit c d = Ok d' \<Longrightarrow> wf d'"
    and below_step: "wf d \<Longrightarrow> below d (slot_of c) \<Longrightarrow> slot_of c < max_slot \<Longrightarrow> commit c d = Ok d' \<Longrightarrow>
      slot_of c \<le> k \<Longrightarrow> below d' (Suc k)"
    and rollback_keeps: "wf d \<Longrightarrow> below d (Suc k) \<Longrightarrow> k < max_slot \<Longrightarrow> rollback k d = d"
    and rollback_undoes: "wf d \<Longrightarrow> below d (slot_of c) \<Longrightarrow> slot_of c < max_slot \<Longrightarrow> commit c d = Ok d' \<Longrightarrow>
      k < slot_of c \<Longrightarrow> rollback k d' = rollback k d"
begin

text \<open>Commits go above everything stored, in representable slots.\<close>

definition ordered :: "('c \<Rightarrow> 'd \<Rightarrow> bool) \<Rightarrow> bool" where
  "ordered may \<longleftrightarrow> (\<forall>c d. may c d \<longrightarrow> below d (slot_of c) \<and> slot_of c < max_slot)"

lemma linear_wf: "linear commit may d0 d \<Longrightarrow> wf d"
  by (induction rule: linear.induct) (auto intro: wf_init wf_step)

lemma linear_rollback:
  assumes "ordered may" and "linear commit may d0 d" and "k < max_slot"
  shows "linear commit may d0 (rollback k d)"
  using assms(2)
proof (induction rule: linear.induct)
  case linear_init
  have "rollback k d0 = d0" using rollback_keeps wf_init below_init assms(3) by blast
  then show ?case by (simp add: linear.linear_init)
next
  case (linear_commit d c d')
  have ok: "wf d" "below d (slot_of c)" "slot_of c < max_slot"
    using linear_wf linear_commit.hyps assms(1) by (auto simp: ordered_def)
  show ?case
  proof (cases "k < slot_of c")
    case True
    then show ?thesis using rollback_undoes [OF ok linear_commit.hyps(3)] linear_commit.IH by simp
  next
    case False
    then have "below d' (Suc k)" using below_step [OF ok linear_commit.hyps(3)] by simp
    then have "rollback k d' = d'"
      using rollback_keeps wf_step [OF ok(1) linear_commit.hyps(3)] assms(3) by blast
    then show ?thesis using linear_commit.hyps by (auto intro: linear.linear_commit)
  qed
qed

text \<open>Whatever commits and rollbacks happened, the store is what the surviving commits alone
  produce.\<close>

lemma reach_linear:
  assumes "ordered may" and "reach commit rollback max_slot may d0 d"
  shows "linear commit may d0 d"
  using assms(2)
  by (induction rule: reach.induct)
    (auto intro: linear.intros linear_rollback [OF assms(1)])

end

interpretation log_store: slot_store commit_slot rollback_to_slot ps_slot log_below log_wf empty_log "2 ^ 31"
proof unfold_locales
  show "log_wf empty_log" by (simp add: log_wf_def empty_log_def)
  show "log_below empty_log n" for n by (simp add: log_below_def empty_log_def slot_numbers_def)
  show "log_below d' (Suc k)"
    if "log_below d (ps_slot c)" "ps_slot c < 2 ^ 31" "commit_slot c d = Ok d'" "ps_slot c \<le> k" for c d d' k
    using that by (fastforce simp: log_below_def cast_simps)
qed (auto intro: log_wf_commit rollback_above rollback_commit)

end
