(* ===== verification/Eth_Clients.thy ===== *)
theory Eth_Clients
  imports Pod2_Containers
begin

text \<open>
  The Ethereum clients (\<open>libs/eth-clients\<close>): errors and their classification, the retry loop
  around every request, polling for data a node may not serve yet, and the beacon types with
  their conversions. HTTP, JSON and the backoff policy are third-party: one attempt of a
  request is a function of the attempt's number, a backoff is the list of delays it hands out
  before it gives up, and the JSON reader of a response is an argument.
\<close>

section \<open>Errors (common.rs)\<close>

datatype numeric_or_text_code = TextCode string | NumberCode int

record error_response =
  er_code :: numeric_or_text_code
  er_message :: "string option"

definition error_response_new :: "nat \<Rightarrow> string \<Rightarrow> error_response" where
  "error_response_new code message = \<lparr> er_code = NumberCode (int code), er_message = Some message \<rparr>"

text \<open>What the classification reads of a \<open>reqwest::Error\<close>.\<close>

record reqwest_error =
  is_connect :: bool
  is_timeout :: bool
  is_request :: bool
  is_body :: bool
  is_decode :: bool

datatype client_error =
    Reqwest reqwest_error
  | ApiError error_response
  | OtherError string
  | UrlParse string
  | SerdeError string
  | NotFound string
  | EmptyResponse
  | RetryableStatus string nat string

datatype 't client_response = RespError error_response | RespSuccess 't | RespEmpty

fun into_client_result :: "'t client_response \<Rightarrow> (client_error, 't) outcome" where
  "into_client_result (RespError e) = Err (ApiError e)"
| "into_client_result (RespSuccess t) = Ok t"
| "into_client_result RespEmpty = Err EmptyResponse"

definition is_err :: "'t client_response \<Rightarrow> bool" where
  "is_err r = (case r of RespError _ \<Rightarrow> True | _ \<Rightarrow> False)"

text \<open>\<open>ClientResponse::from_str\<close>, over the JSON reader.\<close>

definition client_response_from_str ::
    "(string \<Rightarrow> (string, 't client_response) outcome) \<Rightarrow> string \<Rightarrow> (string, 't client_response) outcome" where
  "client_response_from_str from_json s = (if s = [] then Ok RespEmpty else from_json s)"

fun show_code :: "numeric_or_text_code \<Rightarrow> string" where
  "show_code (TextCode s) = s"
| "show_code (NumberCode n) = show_int n"

definition show_error_response :: "error_response \<Rightarrow> string" where
  "show_error_response e =
     ''Code: '' @ show_code (er_code e) @ '', Message: '' @ [CHR 0x22]
     @ (case er_message e of None \<Rightarrow> '''' | Some m \<Rightarrow> m) @ [CHR 0x22]"

definition is_retryable_status :: "nat \<Rightarrow> bool" where
  "is_retryable_status status \<longleftrightarrow> status = 429 \<or> status = 502 \<or> status = 503 \<or> status = 504"

definition is_transient_reqwest_error :: "reqwest_error \<Rightarrow> bool" where
  "is_transient_reqwest_error e \<longleftrightarrow> is_connect e \<or> is_timeout e \<or> is_request e \<or> is_body e \<or> is_decode e"

section \<open>Retrying requests\<close>

text \<open>Delays in seconds.\<close>

definition MAX_SERVER_RETRY_DELAY :: nat where
  "MAX_SERVER_RETRY_DELAY = 60"

definition MIN_SERVER_RETRY_DELAY :: nat where
  "MIN_SERVER_RETRY_DELAY = 2"

record 'e failed_attempt =
  fa_error :: 'e
  fa_retryable :: bool
  fa_retry_after :: "nat option"

definition from_reqwest :: "reqwest_error \<Rightarrow> client_error failed_attempt" where
  "from_reqwest err = \<lparr> fa_error = Reqwest err, fa_retryable = is_transient_reqwest_error err,
     fa_retry_after = None \<rparr>"

text \<open>The loop returns its result together with the delays it slept.\<close>

fun retry :: "nat list \<Rightarrow> (nat \<Rightarrow> ('e failed_attempt, 'a) outcome) \<Rightarrow> nat \<Rightarrow> ('e, 'a) outcome \<times> nat list" where
  "retry backoff attempt n =
     (case attempt n of
        Panic \<Rightarrow> (Panic, [])
      | Ok v \<Rightarrow> (Ok v, [])
      | Err failed \<Rightarrow>
          if \<not> fa_retryable failed then (Err (fa_error failed), [])
          else case backoff of
                 [] \<Rightarrow> (Err (fa_error failed), [])
               | backoff_delay # backoff' \<Rightarrow>
                   let delay = (case fa_retry_after failed of
                                  None \<Rightarrow> backoff_delay
                                | Some d \<Rightarrow> max (min d MAX_SERVER_RETRY_DELAY) MIN_SERVER_RETRY_DELAY);
                       (r, slept) = retry backoff' attempt (n + 1)
                   in (r, delay # slept))"

declare retry.simps [simp del]

text \<open>One HTTP exchange: the response's status, \<open>Retry-After\<close> header and body, or a transport
  failure while sending or reading.\<close>

definition fetch_text ::
    "string \<Rightarrow> (nat \<Rightarrow> (reqwest_error, nat \<times> string option \<times> string) outcome) \<Rightarrow> nat
     \<Rightarrow> (client_error failed_attempt, nat \<times> string) outcome" where
  "fetch_text url http n =
     (case http n of
        Panic \<Rightarrow> Panic
      | Err e \<Rightarrow> Err (from_reqwest e)
      | Ok (status, retry_after, text) \<Rightarrow>
          if is_retryable_status status
          then Err \<lparr> fa_error = RetryableStatus url status text, fa_retryable = True,
                     fa_retry_after = Option.bind retry_after (\<lambda>v. parse_unsigned (2 ^ 64) (trim v)) \<rparr>
          else Ok (status, text))"

definition json_get ::
    "(string \<Rightarrow> (string, 't client_response) outcome) \<Rightarrow> nat list \<Rightarrow> string
     \<Rightarrow> (nat \<Rightarrow> (reqwest_error, nat \<times> string option \<times> string) outcome) \<Rightarrow> (client_error, 't) outcome" where
  "json_get from_json backoff url http =
     obind (fst (retry backoff (fetch_text url http) 0)) (\<lambda>(status, text).
       if status = 404 then Err (NotFound url)
       else obind (map_err SerdeError (from_json text)) into_client_result)"

definition result_some :: "(client_error, 't) outcome \<Rightarrow> (client_error, 't option) outcome" where
  "result_some r =
     (case r of
        Ok v \<Rightarrow> Ok (Some v)
      | Err e \<Rightarrow> (case e of NotFound _ \<Rightarrow> Ok None | _ \<Rightarrow> Err e)
      | Panic \<Rightarrow> Panic)"

section \<open>Causes and availability\<close>

text \<open>An \<open>anyhow::Error\<close> is the chain of its causes, outermost first.\<close>

datatype cause =
    CClient client_error
  | CTransport string
  | CUnavailable string nat
  | CMsg string

type_synonym error = "cause list"

definition is_node_cause :: "cause \<Rightarrow> bool" where
  "is_node_cause c = (case c of CMsg _ \<Rightarrow> False | _ \<Rightarrow> True)"

definition is_node_error :: "error \<Rightarrow> bool" where
  "is_node_error err = list_ex is_node_cause err"

record availability_polling =
  ap_retries :: nat
  ap_delay :: nat

definition availability_default :: availability_polling where
  "availability_default = \<lparr> ap_retries = 6, ap_delay = 1 \<rparr>"

text \<open>\<open>for retry in 0..=retries\<close>; the list holds the retries still to come.\<close>

fun poll :: "nat \<Rightarrow> string \<Rightarrow> (nat \<Rightarrow> (error, 't option) outcome) \<Rightarrow> nat list \<Rightarrow> (error, 't) outcome" where
  "poll retries what fetch [] = Err [CUnavailable what retries]"
| "poll retries what fetch (n # ns) =
     obind (fetch n) (\<lambda>r. case r of Some v \<Rightarrow> Ok v | None \<Rightarrow> poll retries what fetch ns)"

definition fetch_once_available ::
    "availability_polling \<Rightarrow> string \<Rightarrow> (nat \<Rightarrow> (error, 't option) outcome) \<Rightarrow> (error, 't) outcome" where
  "fetch_once_available polling what fetch =
     poll (ap_retries polling) what fetch [0..<Suc (ap_retries polling)]"

section \<open>Beacon types (beacon/types.rs)\<close>

type_synonym bytes48 = "u8 list"

datatype block_id = Head | Finalized | Slot nat | BlkHash b256

datatype execution_payload_ref = Embedded b256 | Bid b256 b256

record block =
  blob_kzg_commitments :: "bytes48 list"
  execution_payload :: execution_payload_ref
  b_parent_root :: b256
  b_slot :: nat

record block_and_root =
  br_root :: b256
  br_block :: block

record block_header =
  bh_root :: b256
  bh_parent_root :: b256
  bh_slot :: nat

fun payload_block_hash :: "execution_payload_ref \<Rightarrow> b256" where
  "payload_block_hash (Embedded h) = h"
| "payload_block_hash (Bid h p) = h"

definition builds_on_payload_of :: "block \<Rightarrow> block \<Rightarrow> bool" where
  "builds_on_payload_of self parent =
     (case (execution_payload self, execution_payload parent) of
        (Bid h p, Bid h' p') \<Rightarrow> p = h'
      | _ \<Rightarrow> False)"

text \<open>The wire form of a block: a bid from Gloas on, the payload itself before.\<close>

datatype block_body =
    Gloas b256 b256 "bytes48 list"
  | PreGloas b256 "bytes48 list"

record block_message =
  bm_body :: block_body
  bm_parent_root :: b256
  bm_slot :: nat

fun block_from_response :: "block_message \<Rightarrow> block" where
  "block_from_response m =
     (case bm_body m of
        Gloas parent_block_hash bhash commitments \<Rightarrow>
          \<lparr> blob_kzg_commitments = commitments, execution_payload = Bid bhash parent_block_hash,
            b_parent_root = bm_parent_root m, b_slot = bm_slot m \<rparr>
      | PreGloas bhash commitments \<Rightarrow>
          \<lparr> blob_kzg_commitments = commitments, execution_payload = Embedded bhash,
            b_parent_root = bm_parent_root m, b_slot = bm_slot m \<rparr>)"

fun to_detailed_string :: "block_id \<Rightarrow> string" where
  "to_detailed_string Head = ''head''"
| "to_detailed_string Finalized = ''finalized''"
| "to_detailed_string (Slot slot) = show_nat slot"
| "to_detailed_string (BlkHash hash) = ''0x'' @ hex_encode hash"

text \<open>\<open>B256::from_str\<close>: 64 hex digits behind an optional prefix.\<close>

definition b256_from_str :: "string \<Rightarrow> b256 option" where
  "b256_from_str s =
     (case hex_decode (strip_0x s) of
        None \<Rightarrow> None
      | Some bs \<Rightarrow> if length bs = 32 then Some bs else None)"

definition block_id_from_str :: "string \<Rightarrow> (string, block_id) outcome" where
  "block_id_from_str s =
     (if s = ''head'' then Ok Head
      else if s = ''finalized'' then Ok Finalized
      else case parse_unsigned (2 ^ 32) s of
             Some n \<Rightarrow> Ok (Slot n)
           | None \<Rightarrow>
               if take 2 s = ''0x'' then
                 (case b256_from_str s of
                    Some h \<Rightarrow> Ok (BlkHash h)
                  | None \<Rightarrow> Err (''Invalid block ID hash: '' @ s))
               else Err (''Invalid block ID: '' @ s
                         @ ''. Expected 'head', 'finalized', a hash or a number.''))"

definition resolve_to_slot ::
    "(block_id \<Rightarrow> (client_error, block_header option) outcome) \<Rightarrow> block_id
     \<Rightarrow> (string \<times> client_error option, nat) outcome" where
  "resolve_to_slot get_block_header bid =
     (case bid of
        Slot s \<Rightarrow> Ok s
      | _ \<Rightarrow>
          (case get_block_header bid of
             Panic \<Rightarrow> Panic
           | Err e \<Rightarrow> Err (''Failed to resolve block id '' @ to_detailed_string bid, Some e)
           | Ok (Some header) \<Rightarrow> Ok (bh_slot header)
           | Ok None \<Rightarrow> Err (''Block with id '' @ to_detailed_string bid @ '' not found'', None)))"

section \<open>Properties\<close>





lemma poll_Ok_iff:
  "poll r what fetch ns = Ok v \<longleftrightarrow>
   (\<exists>k < length ns. fetch (ns ! k) = Ok (Some v) \<and> (\<forall>i < k. fetch (ns ! i) = Ok None))"
proof (induction ns)
  case (Cons n ns)
  show ?case
  proof (cases "fetch n")
    case (Ok x)
    then show ?thesis using Cons by (cases x) (auto simp: Ex_less_Suc2 All_less_Suc2)
  qed (auto simp: Ex_less_Suc2 All_less_Suc2)
qed simp

lemma poll_all_None:
  "(\<And>n. n \<in> set ns \<Longrightarrow> fetch n = Ok None) \<Longrightarrow> poll r what fetch ns = Err [CUnavailable what r]"
  by (induction ns) simp_all

text \<open>Polling returns a value exactly when some attempt within the configured retries finds
  it with every earlier attempt finding nothing; when nothing is ever found it fails with an error that
  counts as the node's, so that the caller tries again later instead of stopping.\<close>

theorem fetch_once_available_spec:
  "(fetch_once_available polling what fetch = Ok v \<longleftrightarrow>
     (\<exists>k \<le> ap_retries polling. fetch k = Ok (Some v) \<and> (\<forall>i < k. fetch i = Ok None)))
   \<and> ((\<forall>k \<le> ap_retries polling. fetch k = Ok None) \<longrightarrow>
      (\<exists>e. fetch_once_available polling what fetch = Err e \<and> is_node_error e))"
proof
  show "fetch_once_available polling what fetch = Ok v \<longleftrightarrow>
     (\<exists>k \<le> ap_retries polling. fetch k = Ok (Some v) \<and> (\<forall>i < k. fetch i = Ok None))"
    unfolding fetch_once_available_def poll_Ok_iff
    by (rule ex_cong1) (auto simp: less_Suc_eq_le simp del: upt_Suc)
  show "(\<forall>k \<le> ap_retries polling. fetch k = Ok None) \<longrightarrow>
      (\<exists>e. fetch_once_available polling what fetch = Err e \<and> is_node_error e)"
    using poll_all_None [of "[0..<Suc (ap_retries polling)]" fetch]
    by (auto simp: fetch_once_available_def is_node_error_def is_node_cause_def less_Suc_eq_le
        simp del: upt_Suc)
qed

theorem fetch_once_available_spec_witness:
  "fetch_once_available availability_default ''block'' (\<lambda>n. Ok (if n = 2 then Some n else None)) = Ok 2"
  using fetch_once_available_spec [of availability_default "''block''"
      "\<lambda>n. Ok (if n = 2 then Some n else None)" 2]
  by (auto simp: availability_default_def)

lemma parse_unsigned_0x: "parse_unsigned b (''0x'' @ s) = None"
  by (simp add: parse_unsigned_def is_digit_def)

text \<open>Block identifiers survive their URL form: what \<open>to_detailed_string\<close> writes into a
  beacon request, the parser reads back as the same identifier.\<close>

theorem block_id_roundtrip:
  assumes "case bid of Slot n \<Rightarrow> n < 2 ^ 32 | BlkHash h \<Rightarrow> length h = 32 | _ \<Rightarrow> True"
  shows "block_id_from_str (to_detailed_string bid) = Ok bid"
proof (cases bid)
  case (Slot n)
  have "show_nat n \<noteq> ''head''" "show_nat n \<noteq> ''finalized''"
    using show_nat_digits [of n] by (auto simp: is_digit_def)
  then show ?thesis using assms parse_show_nat [of n "2 ^ 32"] by (simp add: Slot block_id_from_str_def)
next
  case (BlkHash h)
  then show ?thesis
    using assms parse_unsigned_0x [of "2 ^ 32" "hex_encode h"]
    by (simp add: block_id_from_str_def b256_from_str_def strip_0x_def)
qed (simp_all add: block_id_from_str_def)

theorem block_id_roundtrip_witness:
  "block_id_from_str (to_detailed_string (Slot 11309801)) = Ok (Slot 11309801)"
  by (rule block_id_roundtrip) simp

end
