(* ===== verification/Simple_Blob.thy ===== *)
theory Simple_Blob
  imports Byte_Codec
begin

text \<open>
  The "simple" single-blob coding scheme of \<open>libs/payload/src/blob.rs\<close>: a blob is a sequence of
  32-byte field elements, the first of which carries the data length in big-endian, each
  later one 31 data bytes behind a zero byte.
\<close>

section \<open>Constants\<close>

definition FIELD_ELEMENT_BYTES_USIZE :: nat where
  "FIELD_ELEMENT_BYTES_USIZE = 32"

definition SIMPLE_BLOB_BYTES :: nat where
  "SIMPLE_BLOB_BYTES = 4096 * FIELD_ELEMENT_BYTES_USIZE"

definition MAX_SIMPLE_BLOB_PAYLOAD_BYTES :: nat where
  "MAX_SIMPLE_BLOB_PAYLOAD_BYTES = (4096 - 1) * (FIELD_ELEMENT_BYTES_USIZE - 1)"

lemmas blob_consts = FIELD_ELEMENT_BYTES_USIZE_def SIMPLE_BLOB_BYTES_def
  MAX_SIMPLE_BLOB_PAYLOAD_BYTES_def

section \<open>Slices\<close>

text \<open>\<open>slice::chunks\<close>: consecutive pieces of \<open>n\<close> elements, the last one possibly shorter.\<close>

function chunks :: "nat \<Rightarrow> 'a list \<Rightarrow> 'a list list" where
  "chunks n xs = (if xs = [] \<or> n = 0 then [] else take n xs # chunks n (drop n xs))"
  by pat_completeness auto
termination
  by (relation "measure (\<lambda>(n, xs). length xs)") auto

declare chunks.simps [simp del]

text \<open>\<open>blob[off..off + bs.len()].copy_from_slice(bs)\<close>: panics when out of range.\<close>

definition copy_at :: "nat \<Rightarrow> 'a list \<Rightarrow> 'a list \<Rightarrow> ('e, 'a list) outcome" where
  "copy_at off bs blob =
     (if off + length bs \<le> length blob
      then Ok (take off blob @ bs @ drop (off + length bs) blob) else Panic)"

datatype blob_error =
    TooShort nat
  | NotMultiple nat
  | EmptyBlob nat
  | LengthOverrun nat nat
  | PayloadTooLong nat

section \<open>Decoding and encoding\<close>

definition decode_simple_blob :: "u8 list \<Rightarrow> (blob_error, u8 list) outcome" where
  "decode_simple_blob blob_bytes =
     (if length blob_bytes < 9 then Err (TooShort (length blob_bytes))
      else if length blob_bytes mod FIELD_ELEMENT_BYTES_USIZE \<noteq> 0
        then Err (NotMultiple (length blob_bytes))
      else let data_len = from_be_bytes (take 8 (drop 1 blob_bytes));
               field_elements = length blob_bytes div FIELD_ELEMENT_BYTES_USIZE
           in if field_elements < 1 then Err (EmptyBlob (length blob_bytes))
              else let max_data_len = (field_elements - 1) * (FIELD_ELEMENT_BYTES_USIZE - 1)
                   in if data_len > max_data_len
                      then Err (LengthOverrun (length blob_bytes) data_len)
                      else Ok (take data_len
                             (concat (map (drop 1)
                               (drop 1 (chunks FIELD_ELEMENT_BYTES_USIZE blob_bytes))))))"

text \<open>The loop over the enumerated data chunks, from index \<open>i\<close>.\<close>

fun write_chunks :: "nat \<Rightarrow> u8 list list \<Rightarrow> u8 list \<Rightarrow> (blob_error, u8 list) outcome" where
  "write_chunks i [] blob = Ok blob"
| "write_chunks i (chunk # cs) blob =
     (let offset = (i + 1) * FIELD_ELEMENT_BYTES_USIZE
      in obind (copy_at offset [0] blob) (\<lambda>blob.
           obind (copy_at (offset + 1) chunk blob) (write_chunks (i + 1) cs)))"

definition encode_simple_blob :: "u8 list \<Rightarrow> (blob_error, u8 list) outcome" where
  "encode_simple_blob data =
     (if length data > MAX_SIMPLE_BLOB_PAYLOAD_BYTES then Err (PayloadTooLong (length data))
      else let blob = replicate SIMPLE_BLOB_BYTES 0
           in obind (copy_at 1 (be_bytes 8 (length data)) blob)
                (write_chunks 0 (chunks (FIELD_ELEMENT_BYTES_USIZE - 1) data)))"

section \<open>Chunk lemmas\<close>

lemma chunks_Nil [simp]: "chunks n [] = []"
  by (simp add: chunks.simps)

lemma concat_chunks: "0 < n \<Longrightarrow> concat (chunks n xs) = xs"
proof (induction n xs rule: chunks.induct)
  case (1 n xs)
  then show ?case by (cases "xs = []") (simp_all add: chunks.simps [of n xs])
qed

lemma chunks_append_full:
  "length c = n \<Longrightarrow> 0 < n \<Longrightarrow> chunks n (c @ xs) = c # chunks n xs"
  by (cases "c @ xs = []") (auto simp: chunks.simps [of n "c @ xs"])

lemma chunks_concat_full:
  "(\<And>c. c \<in> set cs \<Longrightarrow> length c = n) \<Longrightarrow> 0 < n \<Longrightarrow> chunks n (concat cs @ xs) = cs @ chunks n xs"
  by (induction cs) (simp_all add: chunks_append_full)

lemma chunk_length: "c \<in> set (chunks n xs) \<Longrightarrow> length c \<le> n"
proof (induction n xs rule: chunks.induct)
  case (1 n xs)
  then show ?case by (cases "xs = [] \<or> n = 0") (auto simp: chunks.simps [of n xs])
qed

lemma length_chunks_bound: "0 < n \<Longrightarrow> length xs \<le> k * n \<Longrightarrow> length (chunks n xs) \<le> k"
proof (induction k arbitrary: xs)
  case 0
  then show ?case by simp
next
  case (Suc k)
  have "length (chunks n (drop n xs)) \<le> k" using Suc by simp
  then show ?case by (simp add: chunks.simps [of n xs])
qed

section \<open>The encoder's layout\<close>

text \<open>
  What the loop leaves in the blob: after the bytes before the current element, one
  32-byte cell per chunk (a zero, the chunk, zero padding), then untouched zeros.
\<close>

definition cell :: "u8 list \<Rightarrow> u8 list" where
  "cell chunk = 0 # chunk @ replicate (31 - length chunk) 0"

lemma length_cell [simp]: "length chunk \<le> 31 \<Longrightarrow> length (cell chunk) = 32"
  by (simp add: cell_def)

lemma copy_at_zeros:
  assumes "length pre = off" and "length bs \<le> k"
  shows "copy_at off bs (pre @ replicate k 0) = Ok (pre @ bs @ replicate (k - length bs) 0)"
  using assms by (simp add: copy_at_def)

lemma write_chunk_cell:
  assumes "length pre = (i + 1) * 32" and "length chunk \<le> 31" and "32 \<le> k"
  shows "obind (copy_at ((i + 1) * 32) [0] (pre @ replicate k 0))
           (copy_at ((i + 1) * 32 + 1) chunk)
         = (Ok (pre @ cell chunk @ replicate (k - 32) 0) :: (blob_error, u8 list) outcome)"
proof -
  have "replicate k (0::u8) = 0 # replicate (k - 1) 0" using assms(3) by (cases k) simp_all
  then have first: "copy_at ((i + 1) * 32) [0] (pre @ replicate k 0)
      = (Ok ((pre @ [0]) @ replicate (k - 1) 0) :: (blob_error, _) outcome)"
    using assms(1) by (simp add: copy_at_def)
  have "copy_at ((i + 1) * 32 + 1) chunk ((pre @ [0]) @ replicate (k - 1) 0)
      = (Ok ((pre @ [0]) @ chunk @ replicate (k - 1 - length chunk) 0) :: (blob_error, _) outcome)"
    using assms by (intro copy_at_zeros) simp_all
  moreover have "replicate (k - 1 - length chunk) (0::u8)
      = replicate (31 - length chunk) 0 @ replicate (k - 32) 0"
    using assms(2,3) by (simp flip: replicate_add)
  ultimately show ?thesis
    using first by (auto simp: cell_def)
qed

lemma write_chunks_layout:
  assumes "length pre = (i + 1) * 32" and "length cs * 32 \<le> k"
    and "\<And>c. c \<in> set cs \<Longrightarrow> length c \<le> 31"
  shows "write_chunks i cs (pre @ replicate k 0)
           = Ok (pre @ concat (map cell cs) @ replicate (k - length cs * 32) 0)"
  using assms
proof (induction cs arbitrary: i pre k)
  case Nil
  then show ?case by simp
next
  case (Cons c cs)
  have step: "obind (copy_at ((i + 1) * 32) [0] (pre @ replicate k 0))
      (copy_at ((i + 1) * 32 + 1) c)
      = (Ok (pre @ cell c @ replicate (k - 32) 0) :: (blob_error, u8 list) outcome)"
    using Cons.prems by (intro write_chunk_cell) simp_all
  have "write_chunks (i + 1) cs ((pre @ cell c) @ replicate (k - 32) 0)
      = Ok ((pre @ cell c) @ concat (map cell cs) @ replicate (k - 32 - length cs * 32) 0)"
    using Cons.prems by (intro Cons.IH) simp_all
  then show ?case
    using step by (auto simp: FIELD_ELEMENT_BYTES_USIZE_def)
qed

definition blob_header :: "nat \<Rightarrow> u8 list" where
  "blob_header len = 0 # be_bytes 8 len @ replicate 23 0"

lemma length_blob_header [simp]: "length (blob_header len) = 32"
  by (simp add: blob_header_def)

lemma encode_layout:
  assumes "length data \<le> MAX_SIMPLE_BLOB_PAYLOAD_BYTES"
  shows "encode_simple_blob data = Ok (blob_header (length data)
           @ concat (map cell (chunks 31 data))
           @ replicate ((4095 - length (chunks 31 data)) * 32) 0)"
proof -
  let ?cs = "chunks 31 data" and ?h = "blob_header (length data)"
  have n: "length ?cs \<le> 4095"
    using assms by (intro length_chunks_bound) (simp_all add: blob_consts)
  have "replicate SIMPLE_BLOB_BYTES (0::u8) = [0] @ replicate 131071 0"
    by (simp add: blob_consts flip: replicate_Suc)
  then have "copy_at 1 (be_bytes 8 (length data)) (replicate SIMPLE_BLOB_BYTES 0)
      = (Ok (([0] @ be_bytes 8 (length data)) @ replicate 131063 0) :: (blob_error, _) outcome)"
    using copy_at_zeros [of "[0]" 1 "be_bytes 8 (length data)" 131071] by simp
  moreover have "([0] @ be_bytes 8 (length data)) @ replicate 131063 0 = ?h @ replicate 131040 0"
    by (simp add: blob_header_def flip: replicate_add)
  ultimately have head: "copy_at 1 (be_bytes 8 (length data)) (replicate SIMPLE_BLOB_BYTES 0)
      = (Ok (?h @ replicate 131040 0) :: (blob_error, _) outcome)" by simp
  have "write_chunks 0 ?cs (?h @ replicate 131040 0)
      = Ok (?h @ concat (map cell ?cs) @ replicate (131040 - length ?cs * 32) 0)"
    using n by (intro write_chunks_layout) (auto dest: chunk_length)
  moreover have "131040 - length ?cs * 32 = (4095 - length ?cs) * 32"
    by (simp add: diff_mult_distrib)
  ultimately show ?thesis
    using assms head by (simp add: encode_simple_blob_def blob_consts del: obind_Ok_iff)
qed

text \<open>Stripping the zero byte of every cell gives the data back, followed by padding only.\<close>

lemma cells_hold_data: "\<exists>pad. concat (map (drop 1 \<circ> cell) (chunks 31 data)) = data @ pad"
proof (induction "length data" arbitrary: data rule: less_induct)
  case less
  show ?case
  proof (cases "data = []")
    case False
    then have split: "chunks 31 data = take 31 data # chunks 31 (drop 31 data)"
      by (simp add: chunks.simps [of 31 data])
    show ?thesis
    proof (cases "length data \<le> 31")
      case True
      then show ?thesis by (simp add: split cell_def)
    next
      case big: False
      have "length (drop 31 data) < length data" using big by simp
      then obtain pad where "concat (map (drop 1 \<circ> cell) (chunks 31 (drop 31 data))) = drop 31 data @ pad"
        using less by blast
      then show ?thesis using big by (simp add: split cell_def) (metis append_assoc append_take_drop_id)
    qed
  qed simp
qed

lemma cell_lengths: "c \<in> set (map cell (chunks 31 data)) \<Longrightarrow> length c = 32"
  by (auto dest: chunk_length)

lemma length_layout:
  assumes "length data \<le> MAX_SIMPLE_BLOB_PAYLOAD_BYTES"
  shows "length (blob_header (length data) @ concat (map cell (chunks 31 data))
           @ replicate ((4095 - length (chunks 31 data)) * 32) (0::u8)) = SIMPLE_BLOB_BYTES"
proof -
  let ?cs = "chunks 31 data"
  have "length ?cs \<le> 4095"
    using assms by (intro length_chunks_bound) (simp_all add: blob_consts)
  moreover have "map length (map cell ?cs) = replicate (length ?cs) 32"
    by (rule map_replicate_const [THEN trans [rotated]]) (auto dest: chunk_length)
  then have "length (concat (map cell ?cs)) = 32 * length ?cs"
    by (simp add: length_concat sum_list_replicate)
  ultimately show ?thesis by (simp add: blob_consts)
qed

section \<open>Properties\<close>

lemma decode_layout:
  assumes "length data \<le> MAX_SIMPLE_BLOB_PAYLOAD_BYTES"
  shows "decode_simple_blob (blob_header (length data) @ concat (map cell (chunks 31 data))
           @ replicate ((4095 - length (chunks 31 data)) * 32) 0) = Ok data"
proof -
  let ?cs = "chunks 31 data" and ?h = "blob_header (length data)"
  let ?zs = "replicate ((4095 - length (chunks 31 data)) * 32) (0::u8)"
  let ?blob = "?h @ concat (map cell ?cs) @ ?zs"
  have len: "length ?blob = 131072"
    using length_layout [OF assms] by (simp add: blob_consts)
  have dlen: "from_be_bytes (take 8 (drop 1 ?blob)) = length data"
    using assms by (simp add: blob_header_def blob_consts)
  have "drop 1 (chunks 32 ?blob) = map cell ?cs @ chunks 32 ?zs"
    using chunks_concat_full [of "map cell ?cs" 32 ?zs, OF cell_lengths]
    by (simp add: chunks_append_full)
  moreover obtain pad where "concat (map (drop 1 \<circ> cell) ?cs) = data @ pad"
    using cells_hold_data by blast
  ultimately have "take (length data) (concat (map (drop 1) (drop 1 (chunks 32 ?blob)))) = data"
    by simp
  then show ?thesis
    using assms len dlen by (simp add: decode_simple_blob_def blob_consts Let_def del: take_append)
qed

lemma length_chunks_exact:
  "length xs = m * n \<Longrightarrow> 0 < n \<Longrightarrow> map length (chunks n xs) = replicate m n"
proof (induction m arbitrary: xs)
  case 0
  then show ?case by simp
next
  case (Suc m)
  then have "map length (chunks n (drop n xs)) = replicate m n" by simp
  then show ?case using Suc.prems by (auto simp: chunks.simps [of n xs])
qed

lemma length_stripped:
  assumes "length xs = m * n" and "0 < n"
  shows "length (concat (map (drop 1) (drop 1 (chunks n xs)))) = (m - 1) * (n - 1)"
proof -
  have "map length (map (drop 1) (drop 1 (chunks n xs)))
      = map (\<lambda>l. l - 1) (drop 1 (map length (chunks n xs)))"
    by (simp add: drop_map)
  also have "\<dots> = replicate (m - 1) (n - 1)"
    using length_chunks_exact [OF assms] by (simp add: drop_map [symmetric] del: drop_map)
  finally show ?thesis by (simp add: length_concat sum_list_replicate)
qed

text \<open>C39. Encoding then decoding a payload that fits one blob returns the payload, and the
  encoder always fills exactly one blob.\<close>

theorem simple_blob_roundtrip:
  assumes "length data \<le> MAX_SIMPLE_BLOB_PAYLOAD_BYTES"
  shows "\<exists>blob. encode_simple_blob data = Ok blob \<and> length blob = SIMPLE_BLOB_BYTES
                \<and> decode_simple_blob blob = Ok data"
  using encode_layout [OF assms] decode_layout [OF assms] length_layout [OF assms] by blast

theorem simple_blob_roundtrip_witness:
  "\<exists>blob. encode_simple_blob [104, 105] = Ok blob \<and> length blob = SIMPLE_BLOB_BYTES
          \<and> decode_simple_blob blob = Ok [104, 105]"
  by (rule simple_blob_roundtrip) (simp add: blob_consts)

text \<open>Whatever bytes a blob holds, a successful decode returns exactly as many bytes as the
  length field of its first field element declares, and never more than the 31 data bytes
  of each later element.\<close>

theorem decode_simple_blob_length:
  assumes "decode_simple_blob blob = Ok data"
  shows "length data = from_be_bytes (take 8 (drop 1 blob))
         \<and> length data \<le> (length blob div 32 - 1) * 31"
proof -
  have "length blob = length blob div 32 * 32"
    using assms by (auto simp: decode_simple_blob_def blob_consts split: if_splits)
  then have "length (concat (map (drop 1) (drop 1 (chunks 32 blob)))) = (length blob div 32 - 1) * 31"
    using length_stripped [of blob "length blob div 32" 32] by simp
  then show ?thesis
    using assms by (auto simp: decode_simple_blob_def blob_consts Let_def split: if_splits)
qed

theorem decode_simple_blob_length_witness:
  "length [104 :: u8] = from_be_bytes (take 8 (drop 1 (blob_header 1 @ cell [104])))
   \<and> length [104 :: u8] \<le> (length (blob_header 1 @ cell [104]) div 32 - 1) * 31"
proof (rule decode_simple_blob_length)
  have "chunks 32 (cell [104]) = [cell [104]]"
    using chunks_append_full [of "cell [104]" 32 "[]"] by simp
  moreover have "from_be_bytes (take 8 (drop 1 (blob_header 1 @ cell [104]))) = 1"
    by (simp add: blob_header_def)
  ultimately show "decode_simple_blob (blob_header 1 @ cell [104]) = Ok [104]"
    by (simp add: decode_simple_blob_def blob_consts chunks_append_full cell_def [of "[104]"])
qed

end
