(* ===== verification/Sync_Node.thy ===== *)
theory Sync_Node
  imports State_Log Eth_Clients Simple_Blob
begin

text \<open>
  The synchronizer's node (\<open>synchronizer/src/node.rs\<close>): resolving the execution payload that
  becomes canonical with a beacon block, fetching and decoding its target blobs, deriving
  the slot from the committed log and committing it. The beacon node, the archiver and the
  execution node are a record of their answers, one per polling attempt.
\<close>

section \<open>The environment\<close>

type_synonym address = "u8 list"

record rpc_tx =
  rt_to :: "address option"
  rt_blob_versioned_hashes :: "b256 list option"
  rt_hash :: b256

text \<open>An execution block; transactions are present when they were asked for in full.\<close>

record exec_block =
  xb_number :: nat
  xb_timestamp :: nat
  xb_transactions :: "rpc_tx list option"

record node_env =
  env_polling :: availability_polling
  env_to_address :: address
  env_header :: "block_id \<Rightarrow> nat \<Rightarrow> (client_error, block_header option) outcome"
  env_block :: "b256 \<Rightarrow> nat \<Rightarrow> (client_error, block option) outcome"
  env_blobs :: "b256 \<Rightarrow> b256 list \<Rightarrow> nat \<Rightarrow> (client_error, u8 list list) outcome"
  env_exec :: "b256 \<Rightarrow> bool \<Rightarrow> nat \<Rightarrow> (string, exec_block option) outcome"
  kzg_to_versioned_hash :: "bytes48 \<Rightarrow> b256"

section \<open>Fetching\<close>

record target_blob_tx =
  tb_tx_hash :: b256
  tb_versioned_hashes :: "b256 list"

record canonical_payload_rec =
  cp_committing_block_root :: b256
  cp_execution_block :: execution_block
  cp_kzg_blob_commitments :: "(b256 \<times> bytes48) list"
  cp_target_blob_txs :: "target_blob_tx list"

record 'h slot_context =
  sc_slot :: nat
  sc_beacon_block_root :: b256
  sc_payload :: "canonical_payload_rec option"
  sc_target_txs :: "('h, u8 list) target_tx list"

definition get_beacon_block :: "node_env \<Rightarrow> b256 \<Rightarrow> (error, block) outcome" where
  "get_beacon_block E root =
     fetch_once_available (env_polling E) (''beacon block 0x'' @ hex_encode root)
       (\<lambda>n. map_err (\<lambda>e. [CClient e]) (env_block E root n))"

definition get_beacon_head_header :: "node_env \<Rightarrow> (error, block_header) outcome" where
  "get_beacon_head_header E =
     fetch_once_available (env_polling E) ''beacon head header''
       (\<lambda>n. map_err (\<lambda>e. [CClient e]) (env_header E Head n))"

text \<open>Blobs arrive in the block's order, restricted to the requested hashes; they are paired
  with the block's commitments in turn.\<close>

fun assign_blobs ::
    "b256 list \<Rightarrow> (b256 \<times> bytes48) list \<Rightarrow> u8 list list \<Rightarrow> (b256 \<times> u8 list) list
     \<Rightarrow> (error, (b256 \<times> u8 list) list) outcome" where
  "assign_blobs versioned_hashes [] blobs blob_map = Ok blob_map"
| "assign_blobs versioned_hashes ((vh, c) # cs) blobs blob_map =
     (if vh \<in> set versioned_hashes
      then (case blobs of
              [] \<Rightarrow> Panic
            | b # bs \<Rightarrow> assign_blobs versioned_hashes cs bs (hm_insert vh b blob_map))
      else assign_blobs versioned_hashes cs blobs blob_map)"

definition get_blobs ::
    "node_env \<Rightarrow> nat \<Rightarrow> b256 \<Rightarrow> (b256 \<times> bytes48) list \<Rightarrow> b256 list
     \<Rightarrow> (error, (b256 \<times> u8 list) list) outcome" where
  "get_blobs E slot beacon_block_root commitments versioned_hashes =
     obind (fetch_once_available (env_polling E) (''archived blobs of slot '' @ show_nat slot)
       (\<lambda>n. map_err (\<lambda>e. [CClient e])
              (result_some (env_blobs E beacon_block_root versioned_hashes n)))) (\<lambda>blobs.
       if length blobs \<noteq> length versioned_hashes
       then Err [CMsg (''Fetched '' @ show_nat (length versioned_hashes) @ '' blobs, but got ''
                       @ show_nat (length blobs))]
       else assign_blobs versioned_hashes commitments blobs [])"

definition target_blob_txs_of :: "node_env \<Rightarrow> rpc_tx list \<Rightarrow> target_blob_tx list" where
  "target_blob_txs_of E txs =
     List.map_filter (\<lambda>tx. map_option (\<lambda>vhs. \<lparr> tb_tx_hash = rt_hash tx, tb_versioned_hashes = vhs \<rparr>)
                              (rt_blob_versioned_hashes tx))
       (filter (\<lambda>tx. rt_to tx = Some (env_to_address E)) txs)"

text \<open>The block that committed to the payload: the block itself before Gloas, the parent
  whose bid is built on from Gloas; \<open>None\<close> when no payload becomes canonical.\<close>

definition committing_block ::
    "node_env \<Rightarrow> block_header \<Rightarrow> block \<Rightarrow> block_and_root option \<Rightarrow> (error, (b256 \<times> block) option) outcome" where
  "committing_block E header blk prev_block =
     (case execution_payload blk of
        Embedded _ \<Rightarrow> Ok (Some (bh_root header, blk))
      | Bid _ _ \<Rightarrow>
          obind (case prev_block of
                   Some prev \<Rightarrow> if br_root prev = b_parent_root blk then Ok (br_block prev)
                                else get_beacon_block E (b_parent_root blk)
                 | None \<Rightarrow> get_beacon_block E (b_parent_root blk)) (\<lambda>parent_block.
            if \<not> builds_on_payload_of blk parent_block then Ok None
            else Ok (Some (b_parent_root blk, parent_block))))"

definition canonical_payload ::
    "node_env \<Rightarrow> block_header \<Rightarrow> block \<Rightarrow> block_and_root option
     \<Rightarrow> (error, canonical_payload_rec option) outcome" where
  "canonical_payload E header blk prev_block =
     obind (committing_block E header blk prev_block) (\<lambda>r.
       case r of
         None \<Rightarrow> Ok None
       | Some (committing_block_root, cblock) \<Rightarrow>
           let commitments = map (\<lambda>c. (kzg_to_versioned_hash E c, c)) (blob_kzg_commitments cblock);
               hash = payload_block_hash (execution_payload cblock)
           in obind (fetch_once_available (env_polling E)
                (''execution block 0x'' @ hex_encode hash @ '' of slot '' @ show_nat (bh_slot header))
                (\<lambda>n. map_err (\<lambda>e. [CTransport e]) (env_exec E hash (commitments \<noteq> []) n))) (\<lambda>xb.
              obind (case xb_transactions xb of
                       Some txs \<Rightarrow> Ok (target_blob_txs_of E txs)
                     | None \<Rightarrow>
                         if commitments = [] then Ok []
                         else Err [CMsg (''Consensus block 0x'' @ hex_encode committing_block_root
                              @ '' has blobs but the execution block doesn't have txs'')])
                (\<lambda>target_txs.
              Ok (Some \<lparr> cp_committing_block_root = committing_block_root,
                         cp_execution_block = \<lparr> eb_number = xb_number xb,
                            eb_timestamp = xb_timestamp xb, eb_hash = hash \<rparr>,
                         cp_kzg_blob_commitments = commitments,
                         cp_target_blob_txs = target_txs \<rparr>))))"

fun show_blob_error :: "blob_error \<Rightarrow> string" where
  "show_blob_error (TooShort n) = ''Invalid blob length '' @ show_nat n @ ''; expected at least 9 bytes''"
| "show_blob_error (NotMultiple n) =
     ''Invalid blob length '' @ show_nat n @ ''; expected multiple of '' @ show_nat FIELD_ELEMENT_BYTES_USIZE"
| "show_blob_error (EmptyBlob n) = ''Invalid blob length '' @ show_nat n"
| "show_blob_error (LengthOverrun n d) =
     ''Given blob of length '' @ show_nat n @ '' cannot accommodate '' @ show_nat d @ '' bytes''"
| "show_blob_error (PayloadTooLong n) =
     ''Payload length '' @ show_nat n @ '' exceeds simple-blob maximum ''
     @ show_nat MAX_SIMPLE_BLOB_PAYLOAD_BYTES"

definition position :: "b256 \<Rightarrow> (b256 \<times> bytes48) list \<Rightarrow> nat option" where
  "position vh cs = map_option fst (List.find (\<lambda>(i, c). fst c = vh) (enumerate 0 cs))"

text \<open>One blob of a target transaction. Both lookups panic when the hash is unknown.\<close>

definition decode_target_blob ::
    "(b256 \<times> bytes48) list \<Rightarrow> (b256 \<times> u8 list) list \<Rightarrow> b256
     \<Rightarrow> (error, (nat \<times> u8 list) option \<times> 'h blob_status) outcome" where
  "decode_target_blob commitments blobs vh =
     (case position vh commitments of
        None \<Rightarrow> Panic
      | Some blob_index \<Rightarrow>
          (case map_of blobs vh of
             None \<Rightarrow> Panic
           | Some blob \<Rightarrow>
               (case decode_simple_blob blob of
                  Panic \<Rightarrow> Panic
                | Ok bytes \<Rightarrow> Ok (Some (blob_index, bytes), \<lparr> bs_tx_final = None, bs_error = None \<rparr>)
                | Err err \<Rightarrow>
                    Ok (None, \<lparr> bs_tx_final = None,
                                bs_error = Some (''Invalid byte encoding: '' @ show_blob_error err) \<rparr>))))"

definition fetch_target_blobs ::
    "node_env \<Rightarrow> nat \<Rightarrow> canonical_payload_rec \<Rightarrow> (error, ('h, u8 list) target_tx list) outcome" where
  "fetch_target_blobs E slot payload =
     (if cp_target_blob_txs payload = [] then Ok []
      else
        obind (get_blobs E slot (cp_committing_block_root payload) (cp_kzg_blob_commitments payload)
                 (concat (map tb_versioned_hashes (cp_target_blob_txs payload)))) (\<lambda>blobs.
          omap (\<lambda>tx.
            obind (omap (decode_target_blob (cp_kzg_blob_commitments payload) blobs)
                     (tb_versioned_hashes tx)) (\<lambda>rs.
              Ok \<lparr> tt_blobs = map fst rs,
                   tt_status = \<lparr> ts_tx_hash = tb_tx_hash tx, ts_blobs = map snd rs \<rparr> \<rparr>))
            (cp_target_blob_txs payload)))"

definition fetch_slot_context ::
    "node_env \<Rightarrow> block_header \<Rightarrow> block \<Rightarrow> block_and_root option \<Rightarrow> (error, 'h slot_context) outcome" where
  "fetch_slot_context E header blk prev_block =
     obind (canonical_payload E header blk prev_block) (\<lambda>payload.
     obind (case payload of
              Some p \<Rightarrow> fetch_target_blobs E (bh_slot header) p
            | None \<Rightarrow> Ok []) (\<lambda>target_txs.
       Ok \<lparr> sc_slot = bh_slot header, sc_beacon_block_root = bh_root header,
            sc_payload = payload, sc_target_txs = target_txs \<rparr>))"

definition validate_genesis_slot :: "node_env \<Rightarrow> nat \<Rightarrow> (error, unit) outcome" where
  "validate_genesis_slot E slot =
     obind (fetch_once_available (env_polling E) ''finalization of INIT_START_SLOT''
       (\<lambda>n. obind (map_err (\<lambda>e. [CClient e]) (env_header E Finalized n)) (\<lambda>finalized.
          Ok (case finalized of
                Some header \<Rightarrow> if bh_slot header \<ge> slot then Some () else None
              | None \<Rightarrow> None)))) (\<lambda>_.
     obind (map_err (\<lambda>e. [CClient e]) (env_header E (Slot slot) 0)) (\<lambda>h.
     obind (ok_or [CMsg (''INIT_START_SLOT '' @ show_nat slot @
              '' has no beacon block; pick a finalized slot with an execution block'')] h) (\<lambda>header.
     obind (get_beacon_block E (bh_root header)) (\<lambda>blk.
     obind (canonical_payload E header blk None) (\<lambda>payload.
       ensure (payload \<noteq> None)
         [CMsg (''INIT_START_SLOT '' @ show_nat slot
                @ '' has no execution block; pick a finalized slot with one'')])))))"

section \<open>Deriving and committing\<close>

definition created_candidates :: "('h, ('h, 'p) payload) target_tx list \<Rightarrow> 'h list" where
  "created_candidates txs =
     concat (map (\<lambda>tx. concat (map (\<lambda>b. case b of None \<Rightarrow> [] | Some (i, p) \<Rightarrow> p_created p)
                                    (tt_blobs tx))) txs)"

definition derive_slot ::
    "('h, 'a, 's, 'mp) pod2 \<Rightarrow> (u8 list \<Rightarrow> (string, ('h, 'p) payload option) outcome) \<Rightarrow> 'h state_log
     \<Rightarrow> 'h don_state option \<Rightarrow> ('h \<times> int) list \<Rightarrow> nat \<Rightarrow> execution_block \<Rightarrow> ('h, u8 list) target_tx list
     \<Rightarrow> (error, 'h derived_slot \<times> 'h tx_status list) outcome" where
  "derive_slot P parse db base_state recent slot block target_txs =
     map_err (\<lambda>e. [CMsg e])
       (obind (parse_blobs parse target_txs) (\<lambda>txs.
          let prior_indices = created_indices db (created_candidates txs)
          in obind (derive_slot_state P base_state recent slot block txs prior_indices) (\<lambda>(derived, txs).
               Ok (derived, map tt_status txs))))"

definition min_block_number :: "'h don_state option \<Rightarrow> nat" where
  "min_block_number base_state =
     (case base_state of
        None \<Rightarrow> 0
      | Some st \<Rightarrow> eb_number (md_block (metadata st)) - nat MAX_STATE_ROOT_AGE_BLOCKS)"

definition derive_from_context ::
    "('h, 'a, 's, 'mp) pod2 \<Rightarrow> (u8 list \<Rightarrow> (string, ('h, 'p) payload option) outcome) \<Rightarrow> 'h state_log
     \<Rightarrow> 'h slot_context \<Rightarrow> (error, 'h processed_slot) outcome" where
  "derive_from_context P parse db ctx =
     (case sc_payload ctx of
        None \<Rightarrow>
          Ok \<lparr> ps_slot = sc_slot ctx, ps_block_root = Some (sc_beacon_block_root ctx),
               ps_derived = None, ps_tx_statuses = [] \<rparr>
      | Some payload \<Rightarrow>
          let base_state = don_state_at_head db;
              recent = recent_state_roots db (min_block_number base_state)
          in obind (derive_slot P parse db base_state recent (sc_slot ctx)
                      (cp_execution_block payload) (sc_target_txs ctx)) (\<lambda>(derived, statuses).
               Ok \<lparr> ps_slot = sc_slot ctx, ps_block_root = Some (sc_beacon_block_root ctx),
                    ps_derived = Some derived, ps_tx_statuses = statuses \<rparr>))"

text \<open>A derived state's Merkle nodes reach the disk before its row is committed.\<close>

definition node_commit_slot ::
    "(string, unit) outcome \<Rightarrow> 'h processed_slot \<Rightarrow> 'h state_log \<Rightarrow> (error, 'h state_log) outcome" where
  "node_commit_slot sync processed db =
     obind (if ps_derived processed \<noteq> None then map_err (\<lambda>e. [CMsg e]) sync else Ok ()) (\<lambda>_.
       map_err (\<lambda>e. case e of UniqueViolation c \<Rightarrow> [CMsg c] | ForeignKeyViolation c \<Rightarrow> [CMsg c])
         (commit_slot processed db))"

end
