(* ===== verification/Sync_Ledger.thy ===== *)
theory Sync_Ledger
  imports Sync_Node
begin

text \<open>
  The invariant that ties the state log to the abstract ledger: the head state commits to the
  ledger, the created index lists exactly the created objects with their positions, and the
  history array lists the state roots of the committed slots. It holds in every log the
  synchronizer can reach by deriving and committing slots and rolling back.
\<close>

section \<open>Heads of sorted logs\<close>

definition log_sorted :: "'h state_log \<Rightarrow> bool" where
  "log_sorted db \<longleftrightarrow> sorted_wrt (<) (slot_numbers db)"

lemma latest_row_fold:
  assumes "sorted_wrt (\<lambda>r t. sr_slot r < sr_slot t) (b # rows)"
  shows "fold later_row rows (Some b) = Some (last (b # rows))"
  using assms by (induction rows arbitrary: b) auto

lemma latest_row_sorted:
  assumes "sorted_wrt (\<lambda>r t. sr_slot r < sr_slot t) rows"
  shows "latest_row rows = (if rows = [] then None else Some (last rows))"
  using assms by (cases rows) (simp_all add: latest_row_def latest_row_fold del: last.simps)

lemma sorted_rows: "log_sorted db \<longleftrightarrow> sorted_wrt (\<lambda>r t. sr_slot r < sr_slot t) (slots db)"
  by (simp add: log_sorted_def slot_numbers_def sorted_wrt_map)

lemma slot_state_at_head_sorted:
  assumes "log_sorted db"
  shows "slot_state_at_head db =
    (let rs = filter (\<lambda>r. sr_state r \<noteq> None) (slots db)
     in if rs = [] then None else decode_slot_state_row (last rs))"
  using latest_row_sorted [OF sorted_wrt_filter, of "slots db" "\<lambda>r. sr_state r \<noteq> None"] assms
  by (simp add: slot_state_at_head_def sorted_rows Let_def)

text \<open>A state as the derivation produces it: its integers are \<open>u64\<close>.\<close>

definition state_typed :: "'h don_state \<Rightarrow> bool" where
  "state_typed st \<longleftrightarrow> eb_number (md_block (metadata st)) < 2 ^ 64
     \<and> eb_timestamp (md_block (metadata st)) < 2 ^ 64 \<and> created_count (metadata st) < 2 ^ 64
     \<and> nullifier_count (metadata st) < 2 ^ 64 \<and> state_root_count (metadata st) < 2 ^ 64"

lemma decode_encode_state: "state_typed st \<Longrightarrow> decode_state_row (encode_state st) = st"
  by (simp add: state_typed_def decode_state_row_def encode_state_def)

lemma log_sorted_commit:
  assumes "log_sorted db" and "log_below db (ps_slot p)" and "ps_slot p < 2 ^ 31"
    and "commit_slot p db = Ok db'"
  shows "log_sorted db'"
  using assms by (simp add: log_sorted_def log_below_def sorted_wrt_append cast_simps)

lemma don_state_at_head_commit:
  assumes "log_sorted db'" and "log_sorted db" and "commit_slot p db = Ok db'"
    and "\<And>d. ps_derived p = Some d \<Longrightarrow> state_typed (ds_state d)"
  shows "don_state_at_head db' =
    (case ps_derived p of None \<Rightarrow> don_state_at_head db | Some d \<Rightarrow> Some (ds_state d))"
proof -
  have "slots db' = slots db @ [slot_row_of p]" using commit_slotD(1) [OF assms(3)] by simp
  then show ?thesis
    using assms(4) unfolding don_state_at_head_def slot_state_at_head_sorted [OF assms(1)]
      slot_state_at_head_sorted [OF assms(2)]
    by (auto simp: Let_def slot_row_of_def decode_slot_state_row_def decode_encode_state
        split: option.splits)
qed

section \<open>The prefetched indices\<close>

lemma created_indices_lookup:
  assumes "distinct (map cr_commitment (created_index db))"
  shows "map_of (created_indices db cs) x = Some i \<longleftrightarrow>
    x \<in> set cs \<and> (\<exists>r \<in> set (created_index db). cr_commitment r = x \<and> cr_array_index r = i)"
proof -
  let ?f = "\<lambda>r. (cr_commitment r, cr_array_index r)"
  let ?rows = "filter (\<lambda>r. cr_commitment r \<in> set cs) (created_index db)"
  have "distinct (map fst (rev (map ?f ?rows)))"
    using assms by (simp add: rev_map comp_def distinct_map_filter flip: rev_map)
  then have "map_of (rev (map ?f ?rows)) x = Some i \<longleftrightarrow> (x, i) \<in> set (map ?f ?rows)"
    by (simp add: map_of_eq_Some_iff)
  then show ?thesis
    by (cases "cs = []") (auto simp: created_indices_def map_of_hm_from_iter)
qed

section \<open>Parsing keeps positions\<close>

lemma parse_tx_blobs_kept:
  assumes "parse_tx_blobs parse bs ss = Ok (ps, ss')"
  shows "length ss' = length ss \<and> length ps = min (length bs) (length ss)
    \<and> map (\<lambda>k. bs_error (snd k)) (kept ps ss') = map (\<lambda>k. bs_error (snd k))
        (filter (\<lambda>k. \<exists>p. parse (fst k) = Ok (Some p)) (kept bs ss))
    \<and> map (Ok \<circ> Some \<circ> fst) (kept ps ss') =
        map (parse \<circ> fst) (filter (\<lambda>k. \<exists>p. parse (fst k) = Ok (Some p)) (kept bs ss))"
  using assms
proof (induction parse bs ss arbitrary: ps ss' rule: parse_tx_blobs.induct)
  case (1 parse b bs s ss)
  then show ?case
    by (auto simp: split: option.splits outcome.splits prod.splits)
qed auto

lemma parse_blobs_Cons:
  assumes "parse_blobs parse (tx # txs) = Ok out"
  obtains ps ss out' where "parse_tx_blobs parse (tt_blobs tx) (ts_blobs (tt_status tx)) = Ok (ps, ss)"
    "out = \<lparr> tt_blobs = ps, tt_status = (tt_status tx)\<lparr> ts_blobs := ss \<rparr> \<rparr> # out'"
    "parse_blobs parse txs = Ok out'"
  using assms by (fastforce simp: parse_blobs_def)

lemma parse_blobs_errors:
  assumes "parse_blobs parse txs = Ok out" and "\<forall>e \<in> set (slot_errors txs). e = None"
  shows "\<forall>e \<in> set (slot_errors out). e = None"
  using assms
proof (induction txs arbitrary: out)
  case Nil
  then show ?case by (simp add: parse_blobs_def slot_errors_def)
next
  case (Cons tx txs)
  from Cons.prems(1) show ?case
  proof (rule parse_blobs_Cons)
    fix ps ss out'
    assume p: "parse_tx_blobs parse (tt_blobs tx) (ts_blobs (tt_status tx)) = Ok (ps, ss)"
      and out: "out = \<lparr> tt_blobs = ps, tt_status = (tt_status tx)\<lparr> ts_blobs := ss \<rparr> \<rparr> # out'"
      and rest: "parse_blobs parse txs = Ok out'"
    have "\<forall>e \<in> set (map (\<lambda>k. bs_error (snd k)) (kept ps ss)). e = None"
      using parse_tx_blobs_kept [OF p] Cons.prems(2) by (auto simp: slot_errors_def)
    moreover have "\<forall>e \<in> set (slot_errors out'). e = None"
      using Cons.IH [OF rest] Cons.prems(2) by (simp add: slot_errors_def)
    ultimately show ?thesis by (auto simp: slot_errors_def out)
  qed
qed

lemma kept_created: "created_of (map fst (kept bs ss)) \<subseteq>
    set (concat (map (\<lambda>b. case b of None \<Rightarrow> [] | Some (i, p) \<Rightarrow> p_created p) bs))"
proof (induction bs arbitrary: ss)
  case (Cons b bs)
  then show ?case by (cases ss; cases b) fastforce+
qed simp

lemma slot_payloads_created: "created_of (slot_payloads txs) \<subseteq> set (created_candidates txs)"
proof (induction txs)
  case (Cons tx txs)
  then show ?case
    using kept_created [of "tt_blobs tx" "ts_blobs (tt_status tx)"]
    by (auto simp: slot_payloads_def created_candidates_def)
qed (simp add: slot_payloads_def)

section \<open>The invariant\<close>

definition index_exact :: "'h state_log \<Rightarrow> 'h list \<Rightarrow> bool" where
  "index_exact db C \<longleftrightarrow> distinct (map cr_commitment (created_index db))
     \<and> (\<forall>x i. (\<exists>r \<in> set (created_index db). cr_commitment r = x \<and> cr_array_index r = i) \<longleftrightarrow>
            (\<exists>k < length C. C ! k = x \<and> i = as_i64 k))"

definition stored_roots :: "'h state_log \<Rightarrow> 'h list" where
  "stored_roots db = List.map_filter (\<lambda>r. map_option don_state_root (sr_state r)) (slots db)"

definition ledger_inv ::
    "('h, 'a, 's, 'mp) pod2 \<Rightarrow> ('a \<Rightarrow> nat \<Rightarrow> 'h option) \<Rightarrow> ('s \<Rightarrow> 'h set) \<Rightarrow> 'h state_log \<Rightarrow> 'h ledger \<Rightarrow> bool" where
  "ledger_inv P va vs db L \<longleftrightarrow> log_sorted db
     \<and> commits_to P va vs (don_state_at_head db) L (stored_roots db)
     \<and> index_exact db (l_created L)"

text \<open>Counters stay within \<open>u64\<close>: what a slot offers fits on top of the head's counts.\<close>

definition within_capacity :: "'h don_state option \<Rightarrow> ('h, 'p) payload list \<Rightarrow> bool" where
  "within_capacity base ps \<longleftrightarrow>
     base_count created_count base + sum_list (map (\<lambda>p. length (p_created p)) ps) < 2 ^ 64
     \<and> base_count nullifier_count base + sum_list (map (\<lambda>p. length (p_nullifiers p)) ps) < 2 ^ 64
     \<and> base_count state_root_count base + 1 < 2 ^ 64"

text \<open>A slot the synchronizer may commit on top of a log: its number is above every stored
  one, and it is either a slot without an execution payload or derived from that log.\<close>

definition may_commit ::
    "('h, 'a, 's, 'mp) pod2 \<Rightarrow> (u8 list \<Rightarrow> (string, ('h, 'p) payload option) outcome)
     \<Rightarrow> 'h processed_slot \<Rightarrow> 'h state_log \<Rightarrow> bool" where
  "may_commit P parse p db \<longleftrightarrow> log_below db (ps_slot p) \<and> ps_slot p < 2 ^ 31
     \<and> (ps_derived p = None \<and> ps_tx_statuses p = []
        \<or> (\<exists>ctx payload txs. sc_payload ctx = Some payload
             \<and> eb_number (cp_execution_block payload) < 2 ^ 64
             \<and> eb_timestamp (cp_execution_block payload) < 2 ^ 64
             \<and> derive_from_context P parse db ctx = Ok p
             \<and> parse_blobs parse (sc_target_txs ctx) = Ok txs
             \<and> within_capacity (don_state_at_head db) (slot_payloads txs)))"

lemma index_hints:
  assumes "index_exact db C" and "X \<subseteq> set cs"
  shows "hints_complete (created_indices db cs) C X"
  using assms created_indices_lookup [of db cs]
  by (auto simp: hints_complete_def index_exact_def)

lemma capacity_fits:
  "commits_to P va vs base L H \<Longrightarrow> within_capacity base ps \<Longrightarrow> fits L ps \<and> length H + 1 < 2 ^ 64"
  by (simp add: commits_to_def within_capacity_def fits_def)

lemma derive_from_contextE:
  assumes "derive_from_context P parse db ctx = Ok p" and "sc_payload ctx = Some payload"
    and "parse_blobs parse (sc_target_txs ctx) = Ok txs"
  obtains d txs' where
    "derive_slot_state P (don_state_at_head db)
       (recent_state_roots db (min_block_number (don_state_at_head db))) (sc_slot ctx)
       (cp_execution_block payload) txs (created_indices db (created_candidates txs)) = Ok (d, txs')"
    "p = \<lparr> ps_slot = sc_slot ctx, ps_block_root = Some (sc_beacon_block_root ctx),
            ps_derived = Some d, ps_tx_statuses = map tt_status txs' \<rparr>"
  using assms by (auto simp: derive_from_context_def derive_slot_def Let_def)

lemma ledger_inv_empty: "pod2_sound P va vs \<Longrightarrow> ledger_inv P va vs empty_log empty_ledger"
  using commits_to_genesis [of P va vs]
  by (simp add: ledger_inv_def log_sorted_def slot_numbers_def empty_log_def index_exact_def
      stored_roots_def don_state_at_head_def slot_state_at_head_def latest_row_def empty_ledger_def
      map_filter_simps)

lemma stored_roots_commit:
  assumes "commit_slot p db = Ok db'"
  shows "stored_roots db' = stored_roots db @
    (case ps_derived p of None \<Rightarrow> [] | Some d \<Rightarrow> [state_root (metadata (ds_state d))])"
  using commit_slotD(1) [OF assms]
  by (auto simp: stored_roots_def map_filter_def slot_row_of_def encode_state_def split: option.splits)

lemma ledger_inv_commit_empty:
  assumes inv: "ledger_inv P va vs db L" and below: "log_below db (ps_slot p)" and "ps_slot p < 2 ^ 31"
    and none: "ps_derived p = None" and c: "commit_slot p db = Ok db'"
  shows "ledger_inv P va vs db' L"
proof -
  have srt: "log_sorted db" "log_sorted db'"
    using inv log_sorted_commit [OF _ below assms(3) c] by (auto simp: ledger_inv_def)
  have "don_state_at_head db' = don_state_at_head db"
    using don_state_at_head_commit [OF srt(2,1) c] none by simp
  moreover have "created_index db' = created_index db"
    using commit_slotD(1) [OF c] none by (simp add: created_rows_of_def)
  ultimately show ?thesis
    using inv srt stored_roots_commit [OF c] none by (simp add: ledger_inv_def index_exact_def)
qed

lemma fits_run:
  "fits L ps \<Longrightarrow> length (l_created (ledger_run R n ps L)) < 2 ^ 64
     \<and> length (l_nullifiers (ledger_run R n ps L)) < 2 ^ 64"
  using fits_append [of L ps "[]" R n] by (simp add: fits_def)

lemma close_slot_block: "close_slot P rs n block w = Ok st \<Longrightarrow> md_block (metadata st) = block"
  by (auto simp: close_slot_def Let_def)

lemma derive_slot_state_block:
  "derive_slot_state P base R slot block txs prior = Ok (d, txs') \<Longrightarrow> md_block (metadata (ds_state d)) = block"
  by (erule derive_slot_stateE) (erule close_slot_block)

lemma index_exact_commit:
  assumes ex: "index_exact db C" and c: "commit_slot p db = Ok db'" and d: "ps_derived p = Some d"
    and ext: "take (length C) C' = C"
    and add: "\<And>x i. map_of (ds_created_added d) x = Some i \<longleftrightarrow>
      (\<exists>k \<ge> length C. k < length C' \<and> C' ! k = x \<and> i = as_i64 k)"
  shows "index_exact db' C'"
proof -
  have rows: "created_index db' = created_index db @ created_rows_of p"
    using commit_slotD(1) [OF c] by simp
  have dist: "distinct (map cr_commitment (created_index db'))"
    using commit_slotD(4) [OF c] ex by (simp add: index_exact_def rows)
  then have "distinct (map fst (ds_created_added d))"
    by (simp add: rows created_rows_of_def d comp_def case_prod_unfold)
  then have new: "(\<exists>r \<in> set (created_rows_of p). cr_commitment r = x \<and> cr_array_index r = i) \<longleftrightarrow>
      (\<exists>k \<ge> length C. k < length C' \<and> C' ! k = x \<and> i = as_i64 k)" for x i
    unfolding add [symmetric] by (force simp: created_rows_of_def d)
  have len: "length C \<le> length C'" using ext by (metis length_take min.cobounded1)
  have "(\<exists>k < length C. C ! k = x \<and> i = as_i64 k) \<longleftrightarrow> (\<exists>k < length C. C' ! k = x \<and> i = as_i64 k)" for x i
    using ext by (metis nth_take)
  then have split: "(\<exists>k < length C'. C' ! k = x \<and> i = as_i64 k) \<longleftrightarrow>
      (\<exists>k < length C. C ! k = x \<and> i = as_i64 k) \<or> (\<exists>k \<ge> length C. k < length C' \<and> C' ! k = x \<and> i = as_i64 k)"
    for x i using ex_less_split [OF len, of "\<lambda>k. C' ! k = x \<and> i = as_i64 k"] by simp
  have old: "(\<exists>r \<in> set (created_index db). cr_commitment r = x \<and> cr_array_index r = i) \<longleftrightarrow>
      (\<exists>k < length C. C ! k = x \<and> i = as_i64 k)" for x i
    using ex by (simp add: index_exact_def)
  show ?thesis
    unfolding index_exact_def split new [symmetric] old [symmetric] using dist by (auto simp: rows)
qed

lemma ledger_inv_commit_derived:
  assumes snd: "pod2_sound P va vs" and inv: "ledger_inv P va vs db L"
    and below: "log_below db (ps_slot p)" and slot: "ps_slot p < 2 ^ 31"
    and ty: "eb_number block < 2 ^ 64" "eb_timestamp block < 2 ^ 64"
    and cap: "within_capacity (don_state_at_head db) (slot_payloads txs)"
    and der: "derive_slot_state P (don_state_at_head db) R s block txs
      (created_indices db (created_candidates txs)) = Ok (d, txs')"
    and p: "ps_derived p = Some d" and c: "commit_slot p db = Ok db'"
  shows "ledger_inv P va vs db'
    (ledger_run (hm_from_iter R) (eb_number block) (slot_payloads txs) L)"
proof -
  let ?L' = "ledger_run (hm_from_iter R) (eb_number block) (slot_payloads txs) L"
  have com: "commits_to P va vs (don_state_at_head db) L (stored_roots db)"
    and idx: "index_exact db (l_created L)" and srt: "log_sorted db"
    using inv by (auto simp: ledger_inv_def)
  have fit: "fits L (slot_payloads txs)" "length (stored_roots db) + 1 < 2 ^ 64"
    using capacity_fits [OF com cap] by auto
  note sim = derive_slot_state_simulates
    [OF snd com index_hints [OF idx slot_payloads_created] fit der]
  have "state_typed (ds_state d)"
    using sim(1) fits_run [OF fit(1), of "hm_from_iter R" "eb_number block"] fit(2) ty
      derive_slot_state_block [OF der]
    by (simp add: state_typed_def commits_to_def base_count_def)
  moreover have srt': "log_sorted db'" using log_sorted_commit [OF srt below slot c] .
  ultimately have "don_state_at_head db' = Some (ds_state d)"
    using don_state_at_head_commit [OF srt' srt c] p by simp
  then show ?thesis
    using sim(1) srt' stored_roots_commit [OF c] p index_exact_commit [OF idx c p sim(4) sim(5)]
    by (simp add: ledger_inv_def)
qed

lemma ledger_inv_step:
  assumes snd: "pod2_sound P va vs" and inv: "ledger_inv P va vs db L"
    and may: "may_commit P parse p db" and c: "commit_slot p db = Ok db'"
  shows "\<exists>L'. ledger_inv P va vs db' L'"
proof (cases "ps_derived p = None")
  case True
  then show ?thesis using ledger_inv_commit_empty [OF inv _ _ _ c] may by (auto simp: may_commit_def)
next
  case False
  with may obtain ctx payload txs where ctx: "sc_payload ctx = Some payload"
      "eb_number (cp_execution_block payload) < 2 ^ 64"
      "eb_timestamp (cp_execution_block payload) < 2 ^ 64"
      "derive_from_context P parse db ctx = Ok p" "parse_blobs parse (sc_target_txs ctx) = Ok txs"
      "within_capacity (don_state_at_head db) (slot_payloads txs)"
    and b: "log_below db (ps_slot p)" "ps_slot p < 2 ^ 31" by (auto simp: may_commit_def)
  show ?thesis
  proof (rule derive_from_contextE [OF ctx(4,1,5)])
    fix d txs'
    assume der: "derive_slot_state P (don_state_at_head db)
       (recent_state_roots db (min_block_number (don_state_at_head db))) (sc_slot ctx)
       (cp_execution_block payload) txs (created_indices db (created_candidates txs)) = Ok (d, txs')"
      and p: "p = \<lparr> ps_slot = sc_slot ctx, ps_block_root = Some (sc_beacon_block_root ctx),
            ps_derived = Some d, ps_tx_statuses = map tt_status txs' \<rparr>"
    show ?thesis using ledger_inv_commit_derived [OF snd inv b ctx(2,3,6) der _ c] p by auto
  qed
qed

lemma may_commit_ordered: "log_store.ordered (may_commit P parse)"
  unfolding log_store.ordered_def by (auto simp: may_commit_def)

lemma ledger_inv_linear:
  assumes "pod2_sound P va vs" and "linear commit_slot (may_commit P parse) empty_log db"
  shows "\<exists>L. ledger_inv P va vs db L"
  using assms(2)
proof (induction rule: linear.induct)
  case linear_init
  then show ?case using ledger_inv_empty [OF assms(1)] by blast
next
  case (linear_commit db p db')
  then show ?case using ledger_inv_step [OF assms(1)] by blast
qed

lemma ledger_inv_reach:
  assumes "pod2_sound P va vs"
    and "reach commit_slot rollback_to_slot (2 ^ 31) (may_commit P parse) empty_log db"
  shows "\<exists>L. ledger_inv P va vs db L"
  using ledger_inv_linear [OF assms(1) log_store.reach_linear [OF may_commit_ordered assms(2)]] .

section \<open>The grounding window\<close>

lemma sorted_threshold:
  "sorted (map f xs) \<Longrightarrow> xs = filter (\<lambda>x. \<not> m \<le> f x) xs @ filter (\<lambda>x. m \<le> f x) xs"
proof (induction xs)
  case (Cons x xs)
  show ?case
  proof (cases "m \<le> f x")
    case True
    then have "\<forall>y \<in> set xs. m \<le> f y" using Cons.prems by auto
    then show ?thesis using True by (simp add: filter_id_conv filter_empty_conv)
  next
    case False
    then show ?thesis using Cons by simp
  qed
qed simp

text \<open>Restricting the roots to a lower bound drops a prefix of the whole sorted list.\<close>

lemma recent_state_roots_split:
  assumes "m < 2 ^ 63"
  shows "\<exists>old. recent_state_roots db 0 = old @ recent_state_roots db m
    \<and> (\<forall>(h, b) \<in> set old. 0 \<le> b \<and> b < int m)"
proof -
  let ?rows = "List.map_filter root_and_block (slots db)"
  let ?F = "sort_key snd (filter (\<lambda>(h, b, s). 0 \<le> b) ?rows)"
  let ?drop = "map (\<lambda>(h, b, s). (h, b))"
  have w: "recent_state_roots db m = ?drop (filter (\<lambda>(h, b, s). int m \<le> b) ?F)"
    using assms by (auto simp: recent_state_roots_def as_i64_id filter_sort intro!: arg_cong [of _ _ ?drop]
        arg_cong [of _ _ "sort_key snd"] filter_cong)
  have "sorted (map (\<lambda>(h, b, s). b) ?F)"
  proof -
    have "sorted (map snd ?F)" by simp
    then show ?thesis by (auto simp: sorted_map less_eq_prod_def elim!: sorted_wrt_mono_rel [rotated])
  qed
  from sorted_threshold [OF this, of "int m"] have
    F: "?F = filter (\<lambda>x. \<not> int m \<le> (case x of (h, b, s) \<Rightarrow> b)) ?F
          @ filter (\<lambda>x. int m \<le> (case x of (h, b, s) \<Rightarrow> b)) ?F" .
  have "recent_state_roots db 0 = ?drop ?F" by (simp add: recent_state_roots_def as_i64_id)
  also have "\<dots> = ?drop (filter (\<lambda>x. \<not> int m \<le> (case x of (h, b, s) \<Rightarrow> b)) ?F)
      @ recent_state_roots db m"
    by (subst F) (simp add: w case_prod_unfold)
  finally show ?thesis by (intro exI conjI) auto
qed

text \<open>C35. Prefetching only recent state roots loses nothing: with the window the node queries
  (the head's block number less the age limit), a payload is grounded exactly when it is grounded
  with respect to every committed state root, for any block at or above the head's.\<close>

theorem grounding_window_complete:
  assumes "eb_number (md_block (metadata st)) \<le> n" and "n < 2 ^ 63"
  shows "grounded (hm_from_iter (recent_state_roots db (min_block_number (Some st)))) n p
     \<longleftrightarrow> grounded (hm_from_iter (recent_state_roots db 0)) n p"
proof -
  let ?m = "min_block_number (Some st)"
  have m: "?m < 2 ^ 63" "int n - MAX_STATE_ROOT_AGE_BLOCKS \<ge> int ?m \<or> ?m = 0"
  proof -
    define k where "k = eb_number (md_block (metadata st))"
    have mk: "?m = k - 50400" by (simp add: min_block_number_def MAX_STATE_ROOT_AGE_BLOCKS_def k_def)
    show "?m < 2 ^ 63" using assms unfolding mk k_def by linarith
    show "int n - MAX_STATE_ROOT_AGE_BLOCKS \<ge> int ?m \<or> ?m = 0"
      using assms(1) unfolding mk MAX_STATE_ROOT_AGE_BLOCKS_def k_def [symmetric] by linarith
  qed
  obtain old where old: "recent_state_roots db 0 = old @ recent_state_roots db ?m"
    and lt: "\<forall>(h, b) \<in> set old. 0 \<le> b \<and> b < int ?m" using recent_state_roots_split [OF m(1), of db] by blast
  have aged: "as_i64 n - b > MAX_STATE_ROOT_AGE_BLOCKS" if "map_of (rev old) h = Some b" for h b
  proof -
    have "0 \<le> b" "b < int ?m" using lt map_of_SomeD [OF that] by auto
    then show ?thesis using m(2) assms(2) by (auto simp: as_i64_id)
  qed
  show ?thesis
  proof (cases "map_of (rev (recent_state_roots db ?m)) (p_state_root p)")
    case None
    then show ?thesis using aged [of "p_state_root p"]
      by (cases "map_of (rev old) (p_state_root p)")
        (auto simp: grounded_def map_of_hm_from_iter old map_add_def)
  next
    case (Some b)
    then show ?thesis by (simp add: grounded_def map_of_hm_from_iter old map_add_def)
  qed
qed

definition window_state :: "sym don_state" where
  "window_state = \<lparr> roots = state_roots_empty sym_pod2,
     metadata = \<lparr> state_root = Atom 1, md_block = \<lparr> eb_number = 100000, eb_timestamp = 0, eb_hash = [] \<rparr>,
                  created_count = 0, nullifier_count = 0, state_root_count = 1 \<rparr> \<rparr>"

theorem grounding_window_complete_witness:
  "grounded (hm_from_iter (recent_state_roots
       \<lparr> slots = [\<lparr> sr_slot = 7, cl_block_root = None, sr_state = Some (encode_state window_state) \<rparr>],
         created_index = [], tx_statuses = [] \<rparr> (min_block_number (Some window_state)))) 150400
     \<lparr> p_proof = (), p_tx_final = Atom 2, p_state_root = Atom 1, p_nullifiers = [], p_created = [] \<rparr>"
  by (subst grounding_window_complete)
    (simp_all add: window_state_def grounded_def recent_state_roots_def map_filter_def root_and_block_def
      encode_state_def as_i64_def hm_from_iter_def hm_insert_def MAX_STATE_ROOT_AGE_BLOCKS_def)

end
