(* ===== verification/Sync_Loop.thy ===== *)
theory Sync_Loop
  imports Sync_Ledger
begin

text \<open>
  The sync loop (\<open>synchronizer/src/sync_loop.rs\<close>, \<open>catchup.rs\<close>): head tracking, batch
  catch-up, reorg detection and rewinding, and the restart policy. The network is the answers of
  \<open>node_env\<close>, supplied afresh for every step; a step of the daemon handles one slot, so that a
  failure leaves exactly the slots committed before it.
\<close>

section \<open>Configuration and states\<close>

text \<open>The two settings the loop reads. The batch size is the one it compares with, cast to
  \<open>u32\<close>; the configuration refuses 0.\<close>

record sync_config =
  init_start_slot :: nat
  catchup_batch_size :: nat

datatype slot_header_state = HShutdown | HMissing | HPresent block_header

datatype missing_slot_action = Rewound nat | Applied

datatype 'h fetched_slot =
    FMissing nat
  | FPresent nat block_header "'h slot_context"

record sync_start =
  ss_next_slot :: nat
  ss_head :: block_header

section \<open>Reorg handling\<close>

definition get_slot_header :: "node_env \<Rightarrow> nat \<Rightarrow> (error, block_header option) outcome" where
  "get_slot_header E slot = map_err (\<lambda>e. [CClient e]) (env_header E (Slot slot) 0)"

text \<open>The walk back from \<open>slot\<close>; it counts down to \<open>INIT_START_SLOT\<close>.\<close>

fun find_divergence_slot :: "node_env \<Rightarrow> nat \<Rightarrow> 'h state_log \<Rightarrow> nat \<Rightarrow> (error, nat) outcome" where
  "find_divergence_slot E init db 0 = Ok init"
| "find_divergence_slot E init db (Suc prev_slot) =
     (if Suc prev_slot > init
      then obind (get_slot_header E prev_slot) (\<lambda>h.
             let stored_root = slot_root db prev_slot;
                 live_root = map_option bh_root h
             in if stored_root \<noteq> None \<and> stored_root = live_root then Ok (Suc prev_slot)
                else find_divergence_slot E init db prev_slot)
      else Ok init)"

definition rewind_for_reorg ::
    "node_env \<Rightarrow> nat \<Rightarrow> 'h state_log \<Rightarrow> nat \<Rightarrow> (error, nat \<times> 'h state_log) outcome" where
  "rewind_for_reorg E init db current_slot =
     obind (find_divergence_slot E init db current_slot) (\<lambda>rewind_start.
       Ok (rewind_start, rollback_to_slot (rewind_start - 1) db))"

definition handle_missing_slot ::
    "node_env \<Rightarrow> (string, unit) outcome \<Rightarrow> nat \<Rightarrow> 'h state_log \<Rightarrow> nat
     \<Rightarrow> (error, missing_slot_action \<times> 'h state_log) outcome" where
  "handle_missing_slot E sync init db slot =
     (if slot_root db slot \<noteq> None
      then obind (rewind_for_reorg E init db slot) (\<lambda>(s, db'). Ok (Rewound s, db'))
      else obind (node_commit_slot sync
             \<lparr> ps_slot = slot, ps_block_root = None, ps_derived = None, ps_tx_statuses = [] \<rparr> db)
             (\<lambda>db'. Ok (Applied, db')))"

definition handle_reorgs_for_present_slot ::
    "node_env \<Rightarrow> nat \<Rightarrow> 'h state_log \<Rightarrow> nat \<Rightarrow> block_header
     \<Rightarrow> (error, nat option \<times> 'h state_log) outcome" where
  "handle_reorgs_for_present_slot E init db slot header =
     (let rewind = obind (rewind_for_reorg E init db slot) (\<lambda>(s, db'). Ok (Some s, db'))
      in if (case last_processed_slot db of None \<Rightarrow> False | Some l \<Rightarrow> l \<ge> slot)
            \<and> slot_root db slot = None
         then rewind
         else if slot_root db slot \<noteq> None \<and> slot_root db slot \<noteq> Some (bh_root header)
         then rewind
         else if slot = init then Ok (None, db)
         else obind (map_err (\<lambda>e. [CMsg e]) (latest_block_root_before db slot)) (\<lambda>prev_root.
                if bh_parent_root header \<noteq> prev_root then rewind else Ok (None, db)))"

section \<open>Catch-up batches\<close>

definition fetch_header_and_block ::
    "node_env \<Rightarrow> nat \<Rightarrow> (error, nat \<times> (block_header \<times> block_and_root) option) outcome" where
  "fetch_header_and_block E slot =
     obind (get_slot_header E slot) (\<lambda>h.
       case h of
         None \<Rightarrow> Ok (slot, None)
       | Some header \<Rightarrow>
           obind (get_beacon_block E (bh_root header)) (\<lambda>blk.
             Ok (slot, Some (header, \<lparr> br_root = bh_root header, br_block = blk \<rparr>))))"

definition fetch_context_of ::
    "node_env \<Rightarrow> (b256 \<times> block_and_root) list \<Rightarrow> nat \<times> (block_header \<times> block_and_root) option
     \<Rightarrow> (error, 'h fetched_slot) outcome" where
  "fetch_context_of E blocks_by_root sf =
     (case snd sf of
        None \<Rightarrow> Ok (FMissing (fst sf))
      | Some (header, blk) \<Rightarrow>
          obind (fetch_slot_context E header (br_block blk)
                   (map_of blocks_by_root (b_parent_root (br_block blk)))) (\<lambda>ctx.
            Ok (FPresent (fst sf) header ctx)))"

definition fetch_batch :: "node_env \<Rightarrow> nat list \<Rightarrow> (error, 'h fetched_slot list) outcome" where
  "fetch_batch E slot_list =
     obind (omap (fetch_header_and_block E) slot_list) (\<lambda>blocks.
       let blocks_by_root = hm_from_iter (List.map_filter
             (\<lambda>(s, fetched). map_option (\<lambda>(h, b). (br_root b, b)) fetched) blocks)
       in omap (fetch_context_of E blocks_by_root) blocks)"

fun fetched_number :: "'h fetched_slot \<Rightarrow> nat" where
  "fetched_number (FMissing slot) = slot"
| "fetched_number (FPresent slot header ctx) = slot"

section \<open>Head tracking\<close>

definition slot_header_state_of :: "node_env \<Rightarrow> nat \<Rightarrow> (error, slot_header_state) outcome" where
  "slot_header_state_of E slot =
     obind (get_slot_header E slot) (\<lambda>h.
       Ok (case h of Some header \<Rightarrow> HPresent header | None \<Rightarrow> HMissing))"

text \<open>Refreshes the head; \<open>None\<close> while it has not reached the slot.\<close>

definition resolve_slot_from_head ::
    "node_env \<Rightarrow> nat \<Rightarrow> (error, block_header \<times> slot_header_state option) outcome" where
  "resolve_slot_from_head E slot =
     obind (get_beacon_head_header E) (\<lambda>head.
       if bh_slot head < slot then Ok (head, None)
       else if bh_slot head = slot then Ok (head, Some (HPresent head))
       else obind (slot_header_state_of E slot) (\<lambda>s. Ok (head, Some s)))"

text \<open>What wakes the waiting loop: the shutdown channel, the polling interval, or the event
  stream, whose error and end carry whether shutdown was signalled during the pause that
  follows.\<close>

datatype wake =
    WShutdownChanged bool
  | WTick
  | WOpen
  | WHeadEvent nat
  | WBadMessage
  | WStreamBroken bool

text \<open>The loop at or past the head, driven by the list of wake-ups with the node's answers at
  each; \<open>subscribed\<close> says whether an event stream is open. \<open>None\<close> means still waiting when the
  list ends.\<close>

fun await_slot ::
    "node_env \<Rightarrow> nat \<Rightarrow> bool \<Rightarrow> block_header \<Rightarrow> (wake \<times> node_env) list
     \<Rightarrow> (error, (block_header \<times> slot_header_state) option) outcome"
and await_event ::
    "nat \<Rightarrow> block_header \<Rightarrow> (wake \<times> node_env) list
     \<Rightarrow> (error, (block_header \<times> slot_header_state) option) outcome" where
  "await_slot E slot subscribed head wakes =
     (if \<not> subscribed
      then obind (resolve_slot_from_head E slot) (\<lambda>(head, r).
             case r of Some s \<Rightarrow> Ok (Some (head, s)) | None \<Rightarrow> await_event slot head wakes)
      else await_event slot head wakes)"
| "await_event slot head [] = Ok None"
| "await_event slot head ((w, E) # wakes) =
     (case w of
        WShutdownChanged closed \<Rightarrow>
          if closed then Ok (Some (head, HShutdown)) else await_slot E slot True head wakes
      | WTick \<Rightarrow>
          obind (resolve_slot_from_head E slot) (\<lambda>(head, r).
            case r of Some s \<Rightarrow> Ok (Some (head, s)) | None \<Rightarrow> await_slot E slot True head wakes)
      | WOpen \<Rightarrow> await_slot E slot True head wakes
      | WBadMessage \<Rightarrow> await_slot E slot True head wakes
      | WHeadEvent n \<Rightarrow>
          if n < slot then await_slot E slot True head wakes
          else obind (resolve_slot_from_head E slot) (\<lambda>(head, r).
                 case r of Some s \<Rightarrow> Ok (Some (head, s)) | None \<Rightarrow> await_slot E slot True head wakes)
      | WStreamBroken shutdown \<Rightarrow>
          if shutdown then Ok (Some (head, HShutdown)) else await_slot E slot False head wakes)"

definition next_slot_header ::
    "node_env \<Rightarrow> nat \<Rightarrow> bool \<Rightarrow> block_header \<Rightarrow> (wake \<times> node_env) list
     \<Rightarrow> (error, (block_header \<times> slot_header_state) option) outcome" where
  "next_slot_header E slot subscribed head wakes =
     (if slot < bh_slot head
      then obind (slot_header_state_of E slot) (\<lambda>s. Ok (Some (head, s)))
      else await_slot E slot subscribed head wakes)"

section \<open>The daemon\<close>

definition initialize_sync ::
    "(client_error, nat) outcome \<Rightarrow> node_env \<Rightarrow> sync_config \<Rightarrow> 'h state_log \<Rightarrow> (error, sync_start) outcome" where
  "initialize_sync spec E cfg db =
     obind (map_err (\<lambda>e. [CClient e]) spec) (\<lambda>_.
     obind (get_beacon_head_header E) (\<lambda>head.
     obind (case last_processed_slot db of
              Some last_slot \<Rightarrow> Ok (last_slot + 1)
            | None \<Rightarrow> obind (validate_genesis_slot E (init_start_slot cfg)) (\<lambda>_. Ok (init_start_slot cfg)))
       (\<lambda>start_slot. Ok \<lparr> ss_next_slot = start_slot, ss_head = head \<rparr>)))"

text \<open>The variables of \<open>run_sync_loop\<close>, and where the daemon is: starting up, between
  iterations, inside a fetched batch, refreshing the head after a rewind in a batch, waiting to restart
  after a node error, stopped by shutdown, failed for good, or dead after a panic.\<close>

record loop_vars =
  lv_next_slot :: nat
  lv_head :: block_header
  lv_subscribed :: bool
  lv_prev_block :: "block_and_root option"

datatype 'h phase =
    Starting
  | Looping loop_vars
  | InBatch loop_vars "'h fetched_slot list"
  | Refreshing loop_vars
  | Restarting
  | Stopped
  | Failed error
  | Dead

record step_input =
  in_spec :: "(client_error, nat) outcome"
  in_env :: node_env
  in_sync :: "(string, unit) outcome"
  in_shutdown :: bool
  in_wakes :: "(wake \<times> node_env) list"
  in_shutdown_after :: bool

text \<open>How a failure ends the sync: a node's failure restarts it, any other is returned.\<close>

definition on_result ::
    "(error, 'x) outcome \<Rightarrow> 'h state_log \<Rightarrow> ('x \<Rightarrow> 'h phase \<times> 'h state_log) \<Rightarrow> 'h phase \<times> 'h state_log" where
  "on_result r db k =
     (case r of
        Ok x \<Rightarrow> k x
      | Err e \<Rightarrow> (if is_node_error e then Restarting else Failed e, db)
      | Panic \<Rightarrow> (Dead, db))"

definition derive_and_commit ::
    "('h, 'a, 's, 'mp) pod2 \<Rightarrow> (u8 list \<Rightarrow> (string, ('h, 'p) payload option) outcome)
     \<Rightarrow> (string, unit) outcome \<Rightarrow> 'h state_log \<Rightarrow> 'h slot_context \<Rightarrow> (error, 'h state_log) outcome" where
  "derive_and_commit P parse sync db ctx =
     obind (derive_from_context P parse db ctx) (\<lambda>processed. node_commit_slot sync processed db)"

definition batch_step ::
    "('h, 'a, 's, 'mp) pod2 \<Rightarrow> (u8 list \<Rightarrow> (string, ('h, 'p) payload option) outcome) \<Rightarrow> sync_config
     \<Rightarrow> step_input \<Rightarrow> loop_vars \<Rightarrow> 'h fetched_slot list \<Rightarrow> 'h state_log \<Rightarrow> 'h phase \<times> 'h state_log" where
  "batch_step P parse cfg inp v fetched db =
     (case fetched of
        [] \<Rightarrow> (Looping v, db)
      | f # fs \<Rightarrow>
          if in_shutdown inp then (Stopped, db)
          else (case f of
                  FMissing slot \<Rightarrow>
                    on_result (handle_missing_slot (in_env inp) (in_sync inp) (init_start_slot cfg) db slot) db
                      (\<lambda>(a, db'). case a of
                         Rewound s \<Rightarrow> (Refreshing (v\<lparr> lv_next_slot := s \<rparr>), db')
                       | Applied \<Rightarrow> (InBatch (v\<lparr> lv_next_slot := slot + 1 \<rparr>) fs, db'))
                | FPresent slot header ctx \<Rightarrow>
                    on_result (handle_reorgs_for_present_slot (in_env inp) (init_start_slot cfg) db slot header) db
                      (\<lambda>(r, db'). case r of
                         Some s \<Rightarrow> (Refreshing (v\<lparr> lv_next_slot := s \<rparr>), db')
                       | None \<Rightarrow>
                           on_result (derive_and_commit P parse (in_sync inp) db' ctx) db' (\<lambda>db''.
                             (InBatch (v\<lparr> lv_next_slot := slot + 1 \<rparr>) fs, db'')))))"

definition present_step ::
    "('h, 'a, 's, 'mp) pod2 \<Rightarrow> (u8 list \<Rightarrow> (string, ('h, 'p) payload option) outcome) \<Rightarrow> sync_config
     \<Rightarrow> step_input \<Rightarrow> loop_vars \<Rightarrow> block_header \<Rightarrow> 'h state_log \<Rightarrow> 'h phase \<times> 'h state_log" where
  "present_step P parse cfg inp v header db =
     on_result (handle_reorgs_for_present_slot (in_env inp) (init_start_slot cfg) db (lv_next_slot v) header) db
       (\<lambda>(r, db'). case r of
          Some s \<Rightarrow> (Looping (v\<lparr> lv_next_slot := s \<rparr>), db')
        | None \<Rightarrow>
            on_result (obind (get_beacon_block (in_env inp) (bh_root header)) (\<lambda>blk.
                       obind (fetch_slot_context (in_env inp) header blk (lv_prev_block v)) (\<lambda>ctx.
                       obind (derive_and_commit P parse (in_sync inp) db' ctx) (\<lambda>db''. Ok (blk, db''))))) db'
              (\<lambda>(blk, db'').
                if in_shutdown_after inp then (Stopped, db'')
                else (Looping (v\<lparr> lv_prev_block := Some \<lparr> br_root = bh_root header, br_block = blk \<rparr>,
                                  lv_next_slot := lv_next_slot v + 1 \<rparr>), db'')))"

definition loop_step ::
    "('h, 'a, 's, 'mp) pod2 \<Rightarrow> (u8 list \<Rightarrow> (string, ('h, 'p) payload option) outcome) \<Rightarrow> sync_config
     \<Rightarrow> step_input \<Rightarrow> loop_vars \<Rightarrow> 'h state_log \<Rightarrow> 'h phase \<times> 'h state_log" where
  "loop_step P parse cfg inp v db =
     (if in_shutdown inp then (Stopped, db)
      else if bh_slot (lv_head v) - lv_next_slot v \<ge> catchup_batch_size cfg
      then on_result (fetch_batch (in_env inp)
             [lv_next_slot v ..< lv_next_slot v + catchup_batch_size cfg]) db (\<lambda>fetched.
             (InBatch v fetched, db))
      else on_result (next_slot_header (in_env inp) (lv_next_slot v) (lv_subscribed v) (lv_head v)
                        (in_wakes inp)) db (\<lambda>r.
             case r of
               None \<Rightarrow> (Looping v, db)
             | Some (head, state) \<Rightarrow>
                 let v' = v\<lparr> lv_head := head,
                            lv_subscribed := lv_subscribed v \<or> lv_next_slot v \<ge> bh_slot (lv_head v) \<rparr>
                 in (case state of
                       HShutdown \<Rightarrow> (Stopped, db)
                     | HMissing \<Rightarrow>
                         on_result (handle_missing_slot (in_env inp) (in_sync inp) (init_start_slot cfg)
                                      db (lv_next_slot v)) db
                           (\<lambda>(a, db'). case a of
                              Rewound s \<Rightarrow> (Looping (v'\<lparr> lv_next_slot := s \<rparr>), db')
                            | Applied \<Rightarrow> (Looping (v'\<lparr> lv_next_slot := lv_next_slot v + 1 \<rparr>), db'))
                     | HPresent header \<Rightarrow> present_step P parse cfg inp v' header db)))"

fun sync_step ::
    "('h, 'a, 's, 'mp) pod2 \<Rightarrow> (u8 list \<Rightarrow> (string, ('h, 'p) payload option) outcome) \<Rightarrow> sync_config
     \<Rightarrow> step_input \<Rightarrow> 'h phase \<times> 'h state_log \<Rightarrow> 'h phase \<times> 'h state_log" where
  "sync_step P parse cfg inp (Starting, db) =
     on_result (initialize_sync (in_spec inp) (in_env inp) cfg db) db (\<lambda>st.
       (Looping \<lparr> lv_next_slot = ss_next_slot st, lv_head = ss_head st, lv_subscribed = False,
                  lv_prev_block = None \<rparr>, db))"
| "sync_step P parse cfg inp (Looping v, db) = loop_step P parse cfg inp v db"
| "sync_step P parse cfg inp (InBatch v fetched, db) = batch_step P parse cfg inp v fetched db"
| "sync_step P parse cfg inp (Refreshing v, db) =
     on_result (get_beacon_head_header (in_env inp)) db (\<lambda>head. (Looping (v\<lparr> lv_head := head \<rparr>), db))"
| "sync_step P parse cfg inp (Restarting, db) = (if in_shutdown inp then Stopped else Starting, db)"
| "sync_step P parse cfg inp (Stopped, db) = (Stopped, db)"
| "sync_step P parse cfg inp (Failed e, db) = (Failed e, db)"
| "sync_step P parse cfg inp (Dead, db) = (Dead, db)"

end
