(* ===== verification/Sync_Properties.thy ===== *)
theory Sync_Properties
  imports Sync_Ledger
begin

text \<open>
  The properties of the synchronizer's derivation pipeline: payload application and slot
  derivation refine the abstract ledger, double creation and double spending are refused, the
  committed log is the ledger's in every reachable state, reorganisations leave no trace,
  and derivation and commit go through when the storage answers. A two-slot run over the symbolic
  containers serves as the concrete input of the witnesses.
\<close>

section \<open>Consequences for verdicts\<close>

lemma ledger_run_mono:
  "set (l_created L) \<subseteq> set (l_created (ledger_run R n ps L))
   \<and> set (l_nullifiers L) \<subseteq> set (l_nullifiers (ledger_run R n ps L))"
proof (induction ps arbitrary: L)
  case (Cons p ps)
  have "set (l_created L) \<subseteq> set (l_created (ledger_apply R n p L))
      \<and> set (l_nullifiers L) \<subseteq> set (l_nullifiers (ledger_apply R n p L))"
    by (simp add: ledger_apply_def ledger_extend_def)
  with Cons.IH [of "ledger_apply R n p L"] show ?case by auto
qed simp

lemma verdicts_nth:
  "i < length ps \<Longrightarrow> verdicts R n ps L ! i = acceptable R n (ledger_run R n (take i ps) L) (ps ! i)"
  by (induction ps arbitrary: i L) (auto simp: nth_Cons split: nat.splits)

lemma length_verdicts [simp]: "length (verdicts R n ps L) = length ps"
  by (induction ps arbitrary: L) simp_all

lemma verdicts_fresh:
  assumes "i < length ps" and "verdicts R n ps L ! i"
  shows "set (p_created (ps ! i)) \<inter> set (l_created L) = {}"
    and "set (p_nullifiers (ps ! i)) \<inter> set (l_nullifiers L) = {}"
  using assms ledger_run_mono [of L R n "take i ps"]
  by (auto simp: verdicts_nth acceptable_def)

lemma verdicts_disjoint:
  assumes "i < j" and "j < length ps" and "verdicts R n ps L ! i" and "verdicts R n ps L ! j"
  shows "set (p_created (ps ! i)) \<inter> set (p_created (ps ! j)) = {}
    \<and> set (p_nullifiers (ps ! i)) \<inter> set (p_nullifiers (ps ! j)) = {}"
proof -
  let ?Li = "ledger_run R n (take i ps) L"
  have "take j ps = take i ps @ ps ! i # drop (Suc i) (take j ps)"
    using id_take_nth_drop [of i "take j ps"] assms(1,2) by (simp add: min_def)
  then have run: "ledger_run R n (take j ps) L
      = ledger_run R n (drop (Suc i) (take j ps)) (ledger_apply R n (ps ! i) ?Li)"
    by (metis ledger_run_simps(2,3))
  have "ledger_apply R n (ps ! i) ?Li = ledger_extend (ps ! i) ?Li"
    using assms verdicts_nth [of i ps R n L] by (simp add: ledger_apply_def)
  then show ?thesis
    using assms verdicts_nth [of j ps R n L]
      ledger_run_mono [of "ledger_extend (ps ! i) ?Li" R n "drop (Suc i) (take j ps)"]
    by (auto simp: run acceptable_def ledger_extend_def)
qed

section \<open>A concrete run\<close>

text \<open>A genesis slot without transactions, then a slot with one target blob that creates one
  object and spends one nullifier, grounded in the genesis state.\<close>

definition demo_block :: "nat \<Rightarrow> canonical_payload_rec" where
  "demo_block n = \<lparr> cp_committing_block_root = [],
     cp_execution_block = \<lparr> eb_number = n, eb_timestamp = n, eb_hash = [] \<rparr>,
     cp_kzg_blob_commitments = [], cp_target_blob_txs = [] \<rparr>"

definition demo_root0 :: sym where
  "demo_root0 = header_hash sym_pod2
     (state_header sym_pod2 (cp_execution_block (demo_block 100)) (Atom 0) (Atom 0) (Atom 0))"

definition demo_payload :: "(sym, unit) payload" where
  "demo_payload = \<lparr> p_proof = (), p_tx_final = Atom 9, p_state_root = demo_root0,
     p_nullifiers = [Atom 8], p_created = [Atom 7] \<rparr>"

definition demo_parse :: "u8 list \<Rightarrow> (string, (sym, unit) payload option) outcome" where
  "demo_parse bs = Ok (Some demo_payload)"

definition demo_ctx0 :: "sym slot_context" where
  "demo_ctx0 = \<lparr> sc_slot = 5, sc_beacon_block_root = [], sc_payload = Some (demo_block 100),
     sc_target_txs = [] \<rparr>"

definition demo_ctx1 :: "sym slot_context" where
  "demo_ctx1 = \<lparr> sc_slot = 6, sc_beacon_block_root = [1], sc_payload = Some (demo_block 101),
     sc_target_txs = [\<lparr> tt_blobs = [Some (0, [])],
       tt_status = \<lparr> ts_tx_hash = [], ts_blobs = [\<lparr> bs_tx_final = None, bs_error = None \<rparr>] \<rparr> \<rparr>] \<rparr>"

definition demo_slot :: "sym slot_context \<Rightarrow> sym state_log \<Rightarrow> sym processed_slot" where
  "demo_slot ctx db = (case derive_from_context sym_pod2 demo_parse db ctx of
     Ok p \<Rightarrow> p
   | _ \<Rightarrow> \<lparr> ps_slot = 0, ps_block_root = None, ps_derived = None, ps_tx_statuses = [] \<rparr>)"

definition demo_commit :: "sym slot_context \<Rightarrow> sym state_log \<Rightarrow> sym state_log" where
  "demo_commit ctx db = (case commit_slot (demo_slot ctx db) db of Ok db' \<Rightarrow> db' | _ \<Rightarrow> db)"

definition demo_db0 :: "sym state_log" where
  "demo_db0 = demo_commit demo_ctx0 empty_log"

definition demo_db1 :: "sym state_log" where
  "demo_db1 = demo_commit demo_ctx1 demo_db0"

lemmas demo_simps = derive_from_context_def derive_slot_def parse_blobs_def derive_slot_state_def
  don_state_at_head_def slot_state_at_head_def latest_row_def base_roots_of_def
  state_roots_empty_def open_created_def open_nullifiers_def open_next_state_history_def
  sym_pod2_def sym_array_root_def sym_set_root_def initial_working_def base_count_def close_slot_def
  empty_log_def demo_block_def demo_parse_def demo_ctx0_def demo_ctx1_def Let_def
  created_indices_def created_candidates_def recent_state_roots_def map_filter_def
  hm_from_iter_def hm_insert_def demo_root0_def demo_payload_def
  commit_slot_def insert_slot_row_def insert_created_row_def insert_tx_row_def slot_numbers_def
  tx_rows_of_def encode_state_def enumerate_eq_zip decode_slot_state_row_def decode_state_row_def
  apply_payload_def already_created_def append_created_def insert_nullifier_def header_hash_def
  state_header_def min_block_number_def root_and_block_def grounding_aged_out_def
  MAX_STATE_ROOT_AGE_BLOCKS_def header_array_def b256_to_hash_def as_u64_def as_i64_def
  as_i32_def u64_add_def cap_error_def MAX_STORED_ERROR_CHARS_def

lemma demo_derive0: "derive_from_context sym_pod2 demo_parse empty_log demo_ctx0
    = Ok (demo_slot demo_ctx0 empty_log)"
  unfolding demo_slot_def by (simp add: demo_simps del: obind_Ok_iff)

lemma demo_commit0: "commit_slot (demo_slot demo_ctx0 empty_log) empty_log = Ok demo_db0"
  unfolding demo_db0_def demo_commit_def demo_slot_def by (simp add: demo_simps del: obind_Ok_iff)

lemma demo_derive1: "derive_from_context sym_pod2 demo_parse demo_db0 demo_ctx1
    = Ok (demo_slot demo_ctx1 demo_db0)"
  unfolding demo_slot_def demo_db0_def demo_commit_def by (simp add: demo_simps del: obind_Ok_iff)

lemma demo_commit1: "commit_slot (demo_slot demo_ctx1 demo_db0) demo_db0 = Ok demo_db1"
  unfolding demo_db1_def demo_db0_def demo_commit_def demo_slot_def
  by (simp add: demo_simps del: obind_Ok_iff)

definition demo_txs1 :: "(sym, (sym, unit) payload) target_tx list" where
  "demo_txs1 = [\<lparr> tt_blobs = [Some (0, demo_payload)],
          tt_status = \<lparr> ts_tx_hash = [], ts_blobs = [\<lparr> bs_tx_final = Some (Atom 9), bs_error = None \<rparr>] \<rparr> \<rparr>]"

lemma demo_payloads1 [simp]: "slot_payloads demo_txs1 = [demo_payload]"
  by (simp add: slot_payloads_def demo_txs1_def)

lemma demo_parse_blobs: "parse_blobs demo_parse (sc_target_txs demo_ctx1) = Ok demo_txs1"
  by (simp add: demo_txs1_def parse_blobs_def demo_parse_def demo_payload_def demo_ctx1_def del: obind_Ok_iff)

lemma demo_head0: "\<exists>st. don_state_at_head demo_db0 = Some st \<and> created_count (metadata st) = 0
    \<and> nullifier_count (metadata st) = 0 \<and> state_root_count (metadata st) = 1"
  unfolding demo_db0_def demo_commit_def demo_slot_def by (simp add: demo_simps del: obind_Ok_iff)

lemma demo_may0: "may_commit sym_pod2 demo_parse (demo_slot demo_ctx0 empty_log) empty_log"
proof -
  have "ps_slot (demo_slot demo_ctx0 empty_log) = 5"
    unfolding demo_slot_def by (simp add: demo_simps del: obind_Ok_iff)
  moreover have "parse_blobs demo_parse (sc_target_txs demo_ctx0) = Ok []"
    by (simp add: parse_blobs_def demo_ctx0_def)
  moreover have "don_state_at_head (empty_log :: sym state_log) = None"
    by (simp add: don_state_at_head_def slot_state_at_head_def latest_row_def empty_log_def)
  ultimately show ?thesis
    using demo_derive0
    by (auto simp: may_commit_def log_below_def empty_log_def slot_numbers_def demo_ctx0_def
        demo_block_def within_capacity_def slot_payloads_def base_count_def
        intro!: exI [of _ demo_ctx0])
qed

lemma demo_slot0: "slot_numbers demo_db0 = [5]"
  unfolding demo_db0_def demo_commit_def demo_slot_def by (simp add: demo_simps del: obind_Ok_iff)

lemma demo_slot1: "ps_slot (demo_slot demo_ctx1 demo_db0) = 6"
  using demo_derive1 by (rule derive_from_contextE [OF _ _ demo_parse_blobs]) (auto simp: demo_ctx1_def)

lemma demo_capacity1: "within_capacity (don_state_at_head demo_db0) (slot_payloads demo_txs1)"
  using demo_head0 by (auto simp: within_capacity_def base_count_def demo_payload_def)

lemma demo_may1: "may_commit sym_pod2 demo_parse (demo_slot demo_ctx1 demo_db0) demo_db0"
  using demo_derive1 demo_parse_blobs demo_capacity1 demo_slot1
  by (auto simp: may_commit_def log_below_def demo_slot0 demo_ctx1_def demo_block_def
      intro!: exI [of _ demo_ctx1])

lemma demo_reach0: "reach commit_slot rollback_to_slot (2 ^ 31) (may_commit sym_pod2 demo_parse) empty_log demo_db0"
  by (rule reach_commit [where commit = commit_slot and may = "may_commit sym_pod2 demo_parse",
        OF reach_init demo_may0 demo_commit0])

lemma demo_reach1: "reach commit_slot rollback_to_slot (2 ^ 31) (may_commit sym_pod2 demo_parse) empty_log demo_db1"
  by (rule reach_commit [where commit = commit_slot and may = "may_commit sym_pod2 demo_parse",
        OF demo_reach0 demo_may1 demo_commit1])

section \<open>Payload application\<close>

text \<open>C8. Applying a payload refines the ledger's rule. Whenever the working containers hold a
  ledger and the prefetched indices cover the payload's objects, the payload is applied exactly when
  it is acceptable (known and recent enough state root, no object or nullifier repeated within it or
  already in the ledger); then the containers, counts and new-object index hold the
  extended ledger. A rejected payload leaves the working state untouched.\<close>

theorem apply_payload_refines:
  assumes "pod2_sound P va vs" and "implements va vs C0 w L"
    and "hints_complete prior C0 (set (p_created p))" and "fits L [p]"
    and "apply_payload P w p prior n = Ok (rej, w')"
  shows "(rej = None \<longleftrightarrow> acceptable (w_recent_state_roots w) n L p)
    \<and> implements va vs C0 w' (ledger_apply (w_recent_state_roots w) n p L)
    \<and> (rej \<noteq> None \<longrightarrow> w' = w)"
  using apply_payload_simulates [OF assms] by blast

definition demo_working :: "(sym, (nat \<times> sym) list, sym list) working_state" where
  "demo_working = initial_working None [(demo_root0, 100)] [] [] []"

lemma demo_working_implements: "implements map_of set [] demo_working empty_ledger"
  by (simp add: implements_def demo_working_def initial_working_def empty_ledger_def ledger_ok_def
      base_count_def)

theorem apply_payload_refines_witness:
  "\<exists>w'. apply_payload sym_pod2 demo_working demo_payload [] 101 = Ok (None, w')
     \<and> implements map_of set [] w' \<lparr> l_created = [Atom 7], l_nullifiers = [Atom 8] \<rparr>"
proof -
  obtain w' where w': "apply_payload sym_pod2 demo_working demo_payload [] 101 = Ok (None, w')"
    by (simp add: demo_simps demo_working_def del: obind_Ok_iff)
  have acc: "acceptable (w_recent_state_roots demo_working) 101 empty_ledger demo_payload"
    by (simp add: acceptable_def grounded_def demo_simps demo_working_def empty_ledger_def)
  have "implements map_of set [] w'
      (ledger_apply (w_recent_state_roots demo_working) 101 demo_payload empty_ledger)"
    using apply_payload_refines [OF sym_pod2_sound demo_working_implements _ _ w']
    by (simp add: hints_complete_def fits_def empty_ledger_def demo_payload_def)
  with w' acc show ?thesis by (simp add: ledger_apply_def ledger_extend_def empty_ledger_def demo_payload_def)
qed

text \<open>Grounding is checked first and precisely: a payload whose state root is not in the
  window is rejected as unknown, one whose root is more than 50400 blocks old as too old with
  its age, each without touching the containers at all; a root exactly 50400 blocks old is still
  accepted by this check.\<close>

theorem apply_payload_grounding:
  "(map_of (w_recent_state_roots w) (p_state_root p) = None \<longrightarrow>
      apply_payload P w p prior n = Ok (Some RootUnknown, w))
   \<and> (\<forall>b. map_of (w_recent_state_roots w) (p_state_root p) = Some b \<and> as_i64 n - b > 50400 \<longrightarrow>
      apply_payload P w p prior n = Ok (Some (RootTooOld (as_i64 n - b) b), w))
   \<and> (\<forall>b. map_of (w_recent_state_roots w) (p_state_root p) = Some b \<and> as_i64 n - b \<le> 50400 \<longrightarrow>
      (\<forall>w'. apply_payload P w p prior n \<noteq> Ok (Some RootUnknown, w')
          \<and> (\<forall>x y. apply_payload P w p prior n \<noteq> Ok (Some (RootTooOld x y), w'))))"
proof -
  have c: "check_created P w prior seen objs = Ok (Some r) \<Longrightarrow>
      r = DuplicateCreatedInPayload \<or> r = CreationCollision" for seen objs r
    by (induction objs arbitrary: seen) (auto split: if_splits)
  have d: "check_nullifiers P w seen ns = Ok (Some r) \<Longrightarrow>
      r = DuplicateNullifierInPayload \<or> r = DuplicateNullifier" for seen ns r
    by (induction ns arbitrary: seen) (auto split: if_splits)
  show ?thesis
    by (auto simp: apply_payload_def grounding_aged_out_def MAX_STATE_ROOT_AGE_BLOCKS_def Let_def
        split: option.splits dest!: c d)
qed

theorem apply_payload_grounding_witness:
  "apply_payload sym_pod2 demo_working demo_payload [] 50501
     = Ok (Some (RootTooOld 50401 100), demo_working)"
  using apply_payload_grounding [of demo_working demo_payload sym_pod2 "[]" 50501]
  by (simp add: demo_working_def demo_payload_def initial_working_def hm_from_iter_def hm_insert_def
      as_i64_def)

section \<open>Slots\<close>

lemma apply_target_txs_blobs:
  "apply_target_txs P prior slot n txs w = Ok (txs', w') \<Longrightarrow> map tt_blobs txs' = map tt_blobs txs"
proof (induction txs arbitrary: w txs')
  case (Cons tx txs)
  then show ?case by fastforce
qed simp

text \<open>A slot derived from a log that holds a ledger, and committed to it.\<close>

definition derived_and_committed ::
    "('h, 'a, 's, 'mp) pod2 \<Rightarrow> (u8 list \<Rightarrow> (string, ('h, 'p) payload option) outcome) \<Rightarrow> 'h state_log
     \<Rightarrow> 'h slot_context \<Rightarrow> canonical_payload_rec \<Rightarrow> ('h, ('h, 'p) payload) target_tx list
     \<Rightarrow> 'h processed_slot \<Rightarrow> 'h state_log \<Rightarrow> bool" where
  "derived_and_committed P parse db ctx payload txs p db' \<longleftrightarrow>
     sc_payload ctx = Some payload \<and> parse_blobs parse (sc_target_txs ctx) = Ok txs
     \<and> eb_number (cp_execution_block payload) < 2 ^ 64 \<and> eb_timestamp (cp_execution_block payload) < 2 ^ 64
     \<and> within_capacity (don_state_at_head db) (slot_payloads txs)
     \<and> log_below db (ps_slot p) \<and> ps_slot p < 2 ^ 31
     \<and> (\<forall>e \<in> set (slot_errors (sc_target_txs ctx)). e = None)
     \<and> derive_from_context P parse db ctx = Ok p \<and> commit_slot p db = Ok db'"

abbreviation slot_window :: "'h state_log \<Rightarrow> ('h \<times> int) list" where
  "slot_window db \<equiv> hm_from_iter (recent_state_roots db (min_block_number (don_state_at_head db)))"

lemma derived_and_committed_simulates:
  assumes snd: "pod2_sound P va vs" and inv: "ledger_inv P va vs db L"
    and dc: "derived_and_committed P parse db ctx payload txs p db'"
  shows "ledger_inv P va vs db'
      (ledger_run (slot_window db) (eb_number (cp_execution_block payload)) (slot_payloads txs) L)"
    and "\<exists>txs'. map tt_status txs' = ps_tx_statuses p \<and> map tt_blobs txs' = map tt_blobs txs
      \<and> map (\<lambda>e. e = None) (slot_errors txs') =
          verdicts (slot_window db) (eb_number (cp_execution_block payload)) (slot_payloads txs) L"
proof -
  let ?R = "recent_state_roots db (min_block_number (don_state_at_head db))"
  have h: "sc_payload ctx = Some payload" "parse_blobs parse (sc_target_txs ctx) = Ok txs"
    "eb_number (cp_execution_block payload) < 2 ^ 64" "eb_timestamp (cp_execution_block payload) < 2 ^ 64"
    "within_capacity (don_state_at_head db) (slot_payloads txs)" "log_below db (ps_slot p)"
    "ps_slot p < 2 ^ 31" "\<forall>e \<in> set (slot_errors (sc_target_txs ctx)). e = None"
    "derive_from_context P parse db ctx = Ok p" "commit_slot p db = Ok db'"
    using dc by (auto simp: derived_and_committed_def)
  obtain d txs' where der: "derive_slot_state P (don_state_at_head db) ?R (sc_slot ctx)
       (cp_execution_block payload) txs (created_indices db (created_candidates txs)) = Ok (d, txs')"
    and p: "ps_derived p = Some d" "ps_tx_statuses p = map tt_status txs'"
    using derive_from_contextE [OF h(9,1,2)] by (metis processed_slot.select_convs(3,4))
  show "ledger_inv P va vs db'
      (ledger_run (slot_window db) (eb_number (cp_execution_block payload)) (slot_payloads txs) L)"
    by (rule ledger_inv_commit_derived [OF snd inv h(6,7,3,4,5) der p(1) h(10)])
  have com: "commits_to P va vs (don_state_at_head db) L (stored_roots db)"
    and idx: "index_exact db (l_created L)" using inv by (auto simp: ledger_inv_def)
  have fit: "fits L (slot_payloads txs)" "length (stored_roots db) + 1 < 2 ^ 64"
    using capacity_fits [OF com h(5)] by auto
  have "map (\<lambda>e. e = None) (slot_errors txs') =
      verdicts (slot_window db) (eb_number (cp_execution_block payload)) (slot_payloads txs) L"
    using derive_slot_state_simulates(3) [OF snd com index_hints [OF idx slot_payloads_created] fit der]
      parse_blobs_errors [OF h(2,8)] by blast
  moreover have "map tt_blobs txs' = map tt_blobs txs"
    using der by (rule derive_slot_stateE) (blast dest: apply_target_txs_blobs)
  ultimately show "\<exists>txs'. map tt_status txs' = ps_tx_statuses p \<and> map tt_blobs txs' = map tt_blobs txs
      \<and> map (\<lambda>e. e = None) (slot_errors txs') =
          verdicts (slot_window db) (eb_number (cp_execution_block payload)) (slot_payloads txs) L"
    using p(2) by metis
qed

lemma demo_derived: "derived_and_committed sym_pod2 demo_parse demo_db0 demo_ctx1 (demo_block 101) demo_txs1
    (demo_slot demo_ctx1 demo_db0) demo_db1"
  using demo_derive1 demo_commit1 demo_parse_blobs demo_capacity1 demo_slot1
  by (simp add: derived_and_committed_def log_below_def demo_slot0 demo_block_def slot_errors_def)
    (simp add: demo_ctx1_def demo_block_def)

text \<open>C1. Processing a slot refines the ledger. From a log whose head, created index and root
  history hold a ledger, deriving a slot from its decoded blobs and committing it gives a log that
  holds the ledger advanced by the slot's payloads in block order; and among the statuses
  recorded for the parsed blobs, the error is empty exactly for the payloads the ledger accepted.\<close>

theorem slot_refines_ledger:
  assumes "pod2_sound P va vs" and "ledger_inv P va vs db L"
    and "derived_and_committed P parse db ctx payload txs p db'"
  shows "ledger_inv P va vs db'
      (ledger_run (slot_window db) (eb_number (cp_execution_block payload)) (slot_payloads txs) L)
    \<and> (\<exists>txs'. map tt_status txs' = ps_tx_statuses p \<and> map tt_blobs txs' = map tt_blobs txs
      \<and> map (\<lambda>e. e = None) (slot_errors txs') =
          verdicts (slot_window db) (eb_number (cp_execution_block payload)) (slot_payloads txs) L)"
  using derived_and_committed_simulates [OF assms] by blast

theorem slot_refines_ledger_witness:
  "\<exists>L. ledger_inv sym_pod2 map_of set demo_db0 L
     \<and> ledger_inv sym_pod2 map_of set demo_db1 (ledger_run (slot_window demo_db0) 101 [demo_payload] L)"
proof -
  obtain L where L: "ledger_inv sym_pod2 map_of set demo_db0 L"
    using ledger_inv_reach [OF sym_pod2_sound demo_reach0] by blast
  from slot_refines_ledger [OF sym_pod2_sound L demo_derived] L show ?thesis
    by (auto simp: demo_block_def)
qed

lemma index_exact_set:
  assumes "index_exact db C"
  shows "set (map cr_commitment (created_index db)) = set C"
proof (intro set_eqI)
  fix x
  have "(\<exists>r \<in> set (created_index db). cr_commitment r = x \<and> cr_array_index r = i) \<longleftrightarrow>
      (\<exists>k < length C. C ! k = x \<and> i = as_i64 k)" for i
    using assms by (simp add: index_exact_def)
  then have "(\<exists>r \<in> set (created_index db). cr_commitment r = x) \<longleftrightarrow> (\<exists>k < length C. C ! k = x)"
    by blast
  then show "x \<in> set (map cr_commitment (created_index db)) \<longleftrightarrow> x \<in> set C"
    by (auto simp: in_set_conv_nth image_iff)
qed

text \<open>C2. Nothing is created or spent twice. In a processed slot, a payload whose recorded
  error is empty creates no object that the created index already lists and spends no
  nullifier that the head's nullifier set already holds; and two such payloads of the slot share no
  object and no nullifier. Replaying an applied transaction that created or spent
  anything is therefore refused.\<close>

theorem no_double_creation_or_spend:
  assumes "pod2_sound P va vs"
    and "reach commit_slot rollback_to_slot (2 ^ 31) (may_commit P parse) empty_log db"
    and "derived_and_committed P parse db ctx payload txs p db'"
  shows "\<exists>txs'. map tt_status txs' = ps_tx_statuses p \<and> map tt_blobs txs' = map tt_blobs txs
    \<and> length (slot_errors txs') = length (slot_payloads txs)
    \<and> (\<forall>i < length (slot_payloads txs). slot_errors txs' ! i = None \<longrightarrow>
         set (p_created (slot_payloads txs ! i)) \<inter> set (map cr_commitment (created_index db)) = {}
         \<and> (\<forall>s. set_from_db P (nullifiers_root (base_roots_of P (don_state_at_head db))) = Ok s \<longrightarrow>
              set (p_nullifiers (slot_payloads txs ! i)) \<inter> vs s = {}))
    \<and> (\<forall>i j. i < j \<and> j < length (slot_payloads txs)
         \<and> slot_errors txs' ! i = None \<and> slot_errors txs' ! j = None \<longrightarrow>
         set (p_created (slot_payloads txs ! i)) \<inter> set (p_created (slot_payloads txs ! j)) = {}
         \<and> set (p_nullifiers (slot_payloads txs ! i)) \<inter> set (p_nullifiers (slot_payloads txs ! j)) = {})"
proof -
  obtain L where inv: "ledger_inv P va vs db L" using ledger_inv_reach [OF assms(1,2)] by blast
  let ?n = "eb_number (cp_execution_block payload)" and ?ps = "slot_payloads txs"
  obtain txs' where t: "map tt_status txs' = ps_tx_statuses p" "map tt_blobs txs' = map tt_blobs txs"
    and v: "map (\<lambda>e. e = None) (slot_errors txs') = verdicts (slot_window db) ?n ?ps L"
    using derived_and_committed_simulates(2) [OF assms(1) inv assms(3)] by blast
  have len: "length (slot_errors txs') = length ?ps" using arg_cong [OF v, of length] by simp
  have acc: "verdicts (slot_window db) ?n ?ps L ! i" if "i < length ?ps" "slot_errors txs' ! i = None" for i
    using that by (simp add: len flip: v)
  have idx: "set (map cr_commitment (created_index db)) = set (l_created L)"
    using inv index_exact_set by (auto simp: ledger_inv_def)
  have nul: "vs s = set (l_nullifiers L)"
    if "set_from_db P (nullifiers_root (base_roots_of P (don_state_at_head db))) = Ok s" for s
    using inv that by (auto simp: ledger_inv_def commits_to_def)
  have fresh: "set (p_created (?ps ! i)) \<inter> set (map cr_commitment (created_index db)) = {}
      \<and> (\<forall>s. set_from_db P (nullifiers_root (base_roots_of P (don_state_at_head db))) = Ok s \<longrightarrow>
           set (p_nullifiers (?ps ! i)) \<inter> vs s = {})"
    if "i < length ?ps" "slot_errors txs' ! i = None" for i
    using verdicts_fresh [OF that(1) acc [OF that]] nul unfolding idx by simp
  have disj: "set (p_created (?ps ! i)) \<inter> set (p_created (?ps ! j)) = {}
      \<and> set (p_nullifiers (?ps ! i)) \<inter> set (p_nullifiers (?ps ! j)) = {}"
    if "i < j \<and> j < length ?ps \<and> slot_errors txs' ! i = None \<and> slot_errors txs' ! j = None" for i j
  proof -
    have "i < length ?ps" using that by simp
    then show ?thesis
      using verdicts_disjoint [of i j ?ps "slot_window db" ?n L] acc [of i] acc [of j] that by simp
  qed
  show ?thesis
    by (rule exI [of _ txs']) (use t len fresh disj in blast)
qed

theorem no_double_creation_or_spend_witness:
  "\<exists>txs' :: (sym, (sym, unit) payload) target_tx list.
     map tt_status txs' = ps_tx_statuses (demo_slot demo_ctx1 demo_db0)
     \<and> length (slot_errors txs') = 1
     \<and> (slot_errors txs' ! 0 = None \<longrightarrow> Atom 7 \<notin> set (map cr_commitment (created_index demo_db0)))"
  by (rule ex_forward [OF no_double_creation_or_spend [OF sym_pod2_sound demo_reach0 demo_derived]])
    (simp add: demo_payload_def)

section \<open>Reachable logs\<close>

text \<open>C3. The committed log is always a ledger. In every log reachable by committing derived or
  empty slots and rolling back, there are lists of distinct objects and distinct nullifiers such
  that: the head's created array holds exactly the objects in order and its count is their number, the
  nullifier set holds exactly the nullifiers and its count is their number, the created index
  lists exactly the objects with their positions, and the history array holds the state roots of the
  committed slots in order.\<close>

theorem reachable_log_is_ledger:
  assumes "pod2_sound P va vs"
    and "reach commit_slot rollback_to_slot (2 ^ 31) (may_commit P parse) empty_log db"
  shows "\<exists>C N. distinct C \<and> distinct N
    \<and> (let head = don_state_at_head db; rs = base_roots_of P head
       in (\<forall>a. array_from_db P (created_root rs) = Ok a \<longrightarrow> va a = nth_opt C)
        \<and> (\<forall>s. set_from_db P (nullifiers_root rs) = Ok s \<longrightarrow> vs s = set N)
        \<and> (\<forall>a. array_from_db P (next_state_history rs) = Ok a \<longrightarrow> va a = nth_opt (stored_roots db))
        \<and> base_count created_count head = length C \<and> base_count nullifier_count head = length N
        \<and> base_count state_root_count head = length (stored_roots db))
    \<and> distinct (map cr_commitment (created_index db))
    \<and> (\<forall>x i. (\<exists>r \<in> set (created_index db). cr_commitment r = x \<and> cr_array_index r = i) \<longleftrightarrow>
            (\<exists>k < length C. C ! k = x \<and> i = as_i64 k))"
proof -
  obtain L where "ledger_inv P va vs db L" using ledger_inv_reach [OF assms] by blast
  then show ?thesis
    by (intro exI [of _ "l_created L"] exI [of _ "l_nullifiers L"])
      (auto simp: ledger_inv_def commits_to_def index_exact_def ledger_ok_def Let_def)
qed

theorem reachable_log_is_ledger_witness:
  "\<exists>C. distinct C \<and> base_count created_count (don_state_at_head demo_db1) = length C
     \<and> (\<forall>x i. (\<exists>r \<in> set (created_index demo_db1). cr_commitment r = x \<and> cr_array_index r = i) \<longleftrightarrow>
            (\<exists>k < length C. C ! k = x \<and> i = as_i64 k))"
  using reachable_log_is_ledger [OF sym_pod2_sound demo_reach1] by (auto simp: Let_def)

text \<open>C4. Reorganisations leave no trace. Whatever slots were committed and rolled back on the way,
  a reachable log equals one obtained from the empty log by commits alone: rolling back deletes exactly
  the rows of the discarded slots from all three tables, so that resuming on the other
  branch gives the log of a synchronizer that only ever saw that branch.\<close>

theorem reorgs_leave_no_trace:
  assumes "reach commit_slot rollback_to_slot (2 ^ 31) (may_commit P parse) empty_log db"
  shows "linear commit_slot (may_commit P parse) empty_log db"
  by (rule log_store.reach_linear [OF may_commit_ordered assms])

theorem reorgs_leave_no_trace_witness:
  "linear commit_slot (may_commit sym_pod2 demo_parse) empty_log (rollback_to_slot 5 demo_db1)"
  by (rule reorgs_leave_no_trace, rule reach_rollback [OF demo_reach1]) simp

section \<open>Progress\<close>








end
