(* ===== verification/Sync_Loop_Properties.thy ===== *)
theory Sync_Loop_Properties
  imports Sync_Loop Sync_Properties
begin

text \<open>
  The sync loop keeps the slot history contiguous and only ever commits derived or empty slots and
  rolls back, so that the safety properties of the state log hold for every log the daemon
  produces; and the search for the last common ancestor is exact.
\<close>

section \<open>Contiguous logs\<close>

definition contiguous :: "'h state_log \<Rightarrow> nat \<Rightarrow> nat \<Rightarrow> bool" where
  "contiguous db init next \<longleftrightarrow> init \<le> next \<and> next \<le> 2 ^ 31 \<and> slot_numbers db = map int [init..<next]"

lemma contiguous_below: "contiguous db init next \<Longrightarrow> log_below db next"
  by (auto simp: contiguous_def log_below_def)

lemma contiguous_commit:
  assumes "contiguous db init next" and "commit_slot p db = Ok db'" and "ps_slot p = next"
    and "next < 2 ^ 31"
  shows "contiguous db' init (next + 1)"
  using assms by (simp add: contiguous_def cast_simps)

lemma contiguous_rollback:
  assumes c: "contiguous db init next" and r: "init \<le> r" "r \<le> next" "1 \<le> r"
  shows "contiguous (rollback_to_slot (r - 1) db) init r"
proof -
  have "as_i32 (r - 1) = int (r - 1)" using c r by (intro as_i32_id) (auto simp: contiguous_def)
  then have "as_i32 (r - 1) = int r - 1" using r by (simp add: of_nat_diff)
  moreover have "filter (\<lambda>s. \<not> s > int r - 1) (map int [init..<next]) = map int [init..<r]"
  proof -
    have "[init..<next] = [init..<r] @ [r..<next]" using r by (metis le_add_diff_inverse upt_add_eq_append)
    moreover have "filter (\<lambda>s. \<not> s > int r - 1) (map int [init..<r]) = map int [init..<r]"
      by (auto simp: filter_id_conv)
    moreover have "filter (\<lambda>s. \<not> s > int r - 1) (map int [r..<next]) = []"
      by (auto simp: filter_empty_conv)
    ultimately show ?thesis by simp
  qed
  moreover have "slot_numbers (rollback_to_slot (r - 1) db)
      = filter (\<lambda>s. \<not> s > as_i32 (r - 1)) (slot_numbers db)"
    by (simp add: rollback_to_slot_def slot_numbers_def filter_map comp_def Let_def)
  ultimately show ?thesis using c r by (simp add: contiguous_def)
qed

lemma slot_root_beyond:
  assumes "contiguous db init next" and "next < 2 ^ 31"
  shows "slot_root db next = None"
proof -
  have "\<forall>r \<in> set (slots db). sr_slot r \<noteq> int next"
    using assms(1) contiguous_below [OF assms(1)] by (auto simp: log_below_def slot_numbers_def)
  then have "List.find (\<lambda>r. sr_slot r = int next) (slots db) = None"
    by (simp add: find_None_iff_notin)
  then show ?thesis using assms(2) by (simp add: slot_root_def row_at_def cast_simps)
qed

lemma last_processed_contiguous:
  assumes "contiguous db init next"
  shows "last_processed_slot db = (if init = next then None else Some (next - 1))"
proof (cases "init = next")
  case True
  then show ?thesis using assms by (simp add: contiguous_def last_processed_slot_def slot_numbers_def)
next
  case False
  then have lt: "init < next" using assms by (simp add: contiguous_def)
  then have "slots db \<noteq> []" using assms by (auto simp: contiguous_def slot_numbers_def)
  moreover have "Max (set (slot_numbers db)) = int (next - 1)"
    using assms lt
    by (intro Max_eqI) (auto simp: contiguous_def image_iff of_nat_diff intro!: bexI [of _ "next - 1"])
  moreover have "next - 1 < 2 ^ 32" using assms by (auto simp: contiguous_def)
  ultimately show ?thesis using False by (simp add: last_processed_slot_def as_u32_int)
qed

section \<open>Finding the divergence\<close>

lemma find_divergence_bounds:
  "find_divergence_slot E init db cur = Ok r \<Longrightarrow> init \<le> cur \<Longrightarrow> init \<le> r \<and> r \<le> cur"
proof (induction cur)
  case (Suc cur)
  then show ?case by (cases "init \<le> cur") (auto simp: Let_def split: if_splits)
qed simp

lemma find_divergence_exact:
  "find_divergence_slot E init db cur = Ok r \<Longrightarrow> init \<le> cur \<Longrightarrow>
   (r > init \<longrightarrow> (\<exists>h. get_slot_header E (r - 1) = Ok (Some h) \<and> slot_root db (r - 1) = Some (bh_root h)))
   \<and> (\<forall>s. r \<le> s \<and> s < cur \<longrightarrow> (\<exists>h. get_slot_header E s = Ok h
        \<and> (slot_root db s = None \<or> slot_root db s \<noteq> map_option bh_root h)))"
proof (induction cur)
  case (Suc cur)
  show ?case
  proof (cases "init < Suc cur")
    case False
    then show ?thesis using Suc.prems by auto
  next
    case True
    with Suc.prems(1) obtain h where h: "get_slot_header E cur = Ok h"
      and r: "(if slot_root db cur \<noteq> None \<and> slot_root db cur = map_option bh_root h then Ok (Suc cur)
               else find_divergence_slot E init db cur) = Ok r"
      by (auto simp: Let_def)
    show ?thesis
    proof (cases "slot_root db cur \<noteq> None \<and> slot_root db cur = map_option bh_root h")
      case True
      then show ?thesis using r h by (cases h) auto
    next
      case False
      then have rec: "find_divergence_slot E init db cur = Ok r" using r by (auto split: if_splits)
      note IH = Suc.IH [OF rec]
      show ?thesis
      proof (intro conjI allI impI)
        show "\<exists>h. get_slot_header E (r - 1) = Ok (Some h) \<and> slot_root db (r - 1) = Some (bh_root h)"
          if "r > init" using IH \<open>init < Suc cur\<close> that by simp
        show "\<exists>h. get_slot_header E s = Ok h \<and> (slot_root db s = None \<or> slot_root db s \<noteq> map_option bh_root h)"
          if "r \<le> s \<and> s < Suc cur" for s
        proof (cases "s = cur")
          case True
          then show ?thesis using h \<open>\<not> (slot_root db cur \<noteq> None \<and> slot_root db cur = map_option bh_root h)\<close>
            by auto
        next
          case False
          then show ?thesis using IH \<open>init < Suc cur\<close> that by simp
        qed
      qed
    qed
  qed
qed auto

section \<open>What one step does to the log\<close>

text \<open>A beacon node answers a header query for a slot with that slot's header.\<close>

definition honest_slots :: "node_env \<Rightarrow> bool" where
  "honest_slots E \<longleftrightarrow> (\<forall>s n h. env_header E (Slot s) n = Ok (Some h) \<longrightarrow> bh_slot h = s)"

text \<open>Integers of a fetched slot are within their types, and what it offers fits the counters.\<close>

definition slot_bounds ::
    "(u8 list \<Rightarrow> (string, ('h, 'p) payload option) outcome) \<Rightarrow> 'h state_log \<Rightarrow> 'h slot_context \<Rightarrow> bool" where
  "slot_bounds parse db ctx \<longleftrightarrow> (\<forall>payload. sc_payload ctx = Some payload \<longrightarrow>
     eb_number (cp_execution_block payload) < 2 ^ 64 \<and> eb_timestamp (cp_execution_block payload) < 2 ^ 64
     \<and> (\<forall>txs. parse_blobs parse (sc_target_txs ctx) = Ok txs \<longrightarrow>
          within_capacity (don_state_at_head db) (slot_payloads txs)))"

definition log_effect ::
    "('h, 'a, 's, 'mp) pod2 \<Rightarrow> (u8 list \<Rightarrow> (string, ('h, 'p) payload option) outcome)
     \<Rightarrow> 'h state_log \<Rightarrow> 'h state_log \<Rightarrow> bool" where
  "log_effect P parse db db' \<longleftrightarrow> db' = db
     \<or> (\<exists>p. may_commit P parse p db \<and> commit_slot p db = Ok db')
     \<or> (\<exists>k < 2 ^ 31. db' = rollback_to_slot k db)"

lemma log_effect_refl [simp]: "log_effect P parse db db"
  by (simp add: log_effect_def)

lemma node_commit_slotD: "node_commit_slot sync p db = Ok db' \<Longrightarrow> commit_slot p db = Ok db'"
  by (auto simp: node_commit_slot_def)

lemma rewind_effect:
  assumes c: "contiguous db init next" and "1 \<le> init"
    and r: "rewind_for_reorg E init db next = Ok (s, db')"
  shows "contiguous db' init s \<and> log_effect P parse db db'"
proof -
  from r have d: "find_divergence_slot E init db next = Ok s" and db': "db' = rollback_to_slot (s - 1) db"
    by (auto simp: rewind_for_reorg_def)
  have b: "init \<le> s" "s \<le> next" using find_divergence_bounds [OF d] c by (auto simp: contiguous_def)
  then have "s - 1 < 2 ^ 31" using c assms(2) by (auto simp: contiguous_def)
  moreover have "contiguous db' init s" unfolding db'
    using contiguous_rollback [OF c b] b assms(2) by simp
  ultimately show ?thesis by (auto simp: log_effect_def db')
qed

lemma handle_missing_effect:
  assumes c: "contiguous db init next" and n: "next < 2 ^ 31"
    and r: "handle_missing_slot E sync init db next = Ok (a, db')"
  shows "a = Applied \<and> contiguous db' init (next + 1) \<and> log_effect P parse db db'"
proof -
  let ?p = "\<lparr> ps_slot = next, ps_block_root = None, ps_derived = None, ps_tx_statuses = [] \<rparr>"
  from r have cs: "commit_slot ?p db = Ok db'" and "a = Applied"
    using slot_root_beyond [OF c n] by (auto simp: handle_missing_slot_def dest: node_commit_slotD)
  moreover have "may_commit P parse ?p db"
    using contiguous_below [OF c] n by (simp add: may_commit_def)
  ultimately show ?thesis
    using contiguous_commit [OF c cs _ n] by (auto simp: log_effect_def)
qed

lemma handle_reorgs_effect:
  assumes c: "contiguous db init next" and n: "next < 2 ^ 31" and i: "1 \<le> init"
    and r: "handle_reorgs_for_present_slot E init db next header = Ok (x, db')"
  shows "(case x of None \<Rightarrow> db' = db \<and> (next = init \<or> latest_block_root_before db next = Ok (bh_parent_root header))
          | Some s \<Rightarrow> contiguous db' init s \<and> log_effect P parse db db')"
proof (cases x)
  case None
  then show ?thesis using r slot_root_beyond [OF c n] last_processed_contiguous [OF c] c
    by (auto simp: handle_reorgs_for_present_slot_def Let_def contiguous_def split: if_splits)
next
  case (Some s)
  then have rw: "rewind_for_reorg E init db next = Ok (s, db')"
    using r by (auto simp: handle_reorgs_for_present_slot_def Let_def split: if_splits)
  show ?thesis using rewind_effect [OF c i rw] Some by simp
qed

lemma derive_and_commit_effect:
  assumes c: "contiguous db init next" and n: "next < 2 ^ 31" and s: "sc_slot ctx = next"
    and b: "slot_bounds parse db ctx" and r: "derive_and_commit P parse sync db ctx = Ok db'"
  shows "contiguous db' init (next + 1) \<and> log_effect P parse db db'"
proof -
  from r obtain p where p: "derive_from_context P parse db ctx = Ok p" and cs: "commit_slot p db = Ok db'"
    by (auto simp: derive_and_commit_def dest: node_commit_slotD)
  have slot: "ps_slot p = next"
    using p s by (auto simp: derive_from_context_def Let_def split: option.splits)
  have "may_commit P parse p db"
  proof (cases "sc_payload ctx")
    case None
    then show ?thesis using p contiguous_below [OF c] n slot
      by (auto simp: may_commit_def derive_from_context_def)
  next
    case (Some payload)
    then obtain txs where "parse_blobs parse (sc_target_txs ctx) = Ok txs"
      using p by (auto simp: derive_from_context_def derive_slot_def Let_def)
    with Some show ?thesis using p b contiguous_below [OF c] n slot
      by (auto simp: may_commit_def slot_bounds_def)
  qed
  then show ?thesis using contiguous_commit [OF c cs slot n] cs by (auto simp: log_effect_def)
qed

section \<open>The daemon's invariant\<close>

fun fetched_ok :: "'h fetched_slot \<Rightarrow> bool" where
  "fetched_ok (FMissing slot) = True"
| "fetched_ok (FPresent slot header ctx) = (sc_slot ctx = slot)"

fun phase_inv :: "nat \<Rightarrow> 'h phase \<times> 'h state_log \<Rightarrow> bool" where
  "phase_inv init (Looping v, db) = contiguous db init (lv_next_slot v)"
| "phase_inv init (Refreshing v, db) = contiguous db init (lv_next_slot v)"
| "phase_inv init (InBatch v fs, db) =
     (contiguous db init (lv_next_slot v)
      \<and> map fetched_number fs = [lv_next_slot v ..< lv_next_slot v + length fs]
      \<and> list_all fetched_ok fs)"
| "phase_inv init (ph, db) = (\<exists>n. contiguous db init n)"

text \<open>The inputs of a step: headers as documented, slots below the storable limit, and fetched
  slots within bounds.\<close>

fun step_ok ::
    "(u8 list \<Rightarrow> (string, ('h, 'p) payload option) outcome) \<Rightarrow> step_input \<Rightarrow> 'h phase \<times> 'h state_log \<Rightarrow> bool" where
  "step_ok parse inp (Looping v, db) =
     (honest_slots (in_env inp) \<and> (\<forall>(w, E) \<in> set (in_wakes inp). honest_slots E) \<and> lv_next_slot v < 2 ^ 31
      \<and> (\<forall>header blk ctx. fetch_slot_context (in_env inp) header blk (lv_prev_block v) = Ok ctx \<longrightarrow>
           slot_bounds parse db ctx))"
| "step_ok parse inp (InBatch v fs, db) =
     (lv_next_slot v < 2 ^ 31
      \<and> (\<forall>slot header ctx. FPresent slot header ctx \<in> set fs \<longrightarrow> slot_bounds parse db ctx))"
| "step_ok parse inp (ph, db) = True"

lemma phase_inv_weaken:
  "contiguous db init n \<Longrightarrow> phase_inv init (if b then Restarting else Failed e, db)"
  by auto

text \<open>A failed call leaves the log as it was and ends in a phase that keeps the invariant.\<close>

lemma on_result_effect:
  assumes "on_result r db k = (ph, db')" and "contiguous db init n"
    and "\<And>x. r = Ok x \<Longrightarrow> k x = (ph, db') \<Longrightarrow> Q"
    and "phase_inv init (ph, db) \<Longrightarrow> db' = db \<Longrightarrow> Q"
  shows Q
proof (cases r)
  case (Ok x)
  then show ?thesis using assms(1,3) by (simp add: on_result_def)
next
  case (Err e)
  then have "ph = (if is_node_error e then Restarting else Failed e)" "db' = db"
    using assms(1) by (auto simp: on_result_def)
  then show ?thesis using assms(4) phase_inv_weaken [OF assms(2)] by simp
next
  case Panic
  then have "ph = Dead" "db' = db" using assms(1) by (auto simp: on_result_def)
  then show ?thesis using assms(2,4) by auto
qed

lemma fetch_slot_context_slot: "fetch_slot_context E h b pb = Ok ctx \<Longrightarrow> sc_slot ctx = bh_slot h"
  by (auto simp: fetch_slot_context_def)

lemma get_slot_header_slot: "honest_slots E \<Longrightarrow> get_slot_header E s = Ok (Some h) \<Longrightarrow> bh_slot h = s"
  by (auto simp: get_slot_header_def honest_slots_def)

lemma fetch_header_and_block_slot:
  "honest_slots E \<Longrightarrow> fetch_header_and_block E s = Ok sf \<Longrightarrow>
   fst sf = s \<and> (\<forall>h b. snd sf = Some (h, b) \<longrightarrow> bh_slot h = s)"
  using get_slot_header_slot [of E s]
  by (auto simp: fetch_header_and_block_def split: option.splits)

lemma fetch_context_of_slot:
  "fetch_context_of E m sf = Ok f \<Longrightarrow> (\<forall>h b. snd sf = Some (h, b) \<longrightarrow> bh_slot h = fst sf) \<Longrightarrow>
   fetched_number f = fst sf \<and> fetched_ok f"
  by (auto simp: fetch_context_of_def fetch_slot_context_slot split: option.splits)

lemma fetch_batch_shape:
  assumes E: "honest_slots E" and r: "fetch_batch E xs = Ok fs"
  shows "map fetched_number fs = xs \<and> list_all fetched_ok fs"
proof -
  from r obtain bl m where bl: "omap (fetch_header_and_block E) xs = Ok bl"
    and fs: "omap (fetch_context_of E m) bl = Ok fs"
    by (auto simp: fetch_batch_def Let_def)
  from bl have "list_all2 (\<lambda>s sf. fst sf = s \<and> (\<forall>h b. snd sf = Some (h, b) \<longrightarrow> bh_slot h = s)) xs bl"
    unfolding omap_Ok_iff by (rule list_all2_mono) (rule fetch_header_and_block_slot [OF E])
  from list_all2_trans [OF _ this fs [unfolded omap_Ok_iff], of "\<lambda>s f. fetched_number f = s \<and> fetched_ok f"]
  have "list_all2 (\<lambda>s f. fetched_number f = s \<and> fetched_ok f) xs fs"
    using fetch_context_of_slot by (metis (mono_tags, lifting))
  then show ?thesis
    by (auto simp: list_all2_conv_all_nth list_all_length intro: nth_equalityI)
qed

definition effect_ok ::
    "('h, 'a, 's, 'mp) pod2 \<Rightarrow> (u8 list \<Rightarrow> (string, ('h, 'p) payload option) outcome) \<Rightarrow> nat
     \<Rightarrow> 'h state_log \<Rightarrow> 'h phase \<times> 'h state_log \<Rightarrow> bool" where
  "effect_ok P parse init db r \<longleftrightarrow> phase_inv init r \<and> log_effect P parse db (snd r)"

lemma effect_ok_same: "phase_inv init (ph, db) \<Longrightarrow> effect_ok P parse init db (ph, db)"
  by (simp add: effect_ok_def)

lemma on_result_ok:
  assumes "contiguous db init n" and "\<And>x. r = Ok x \<Longrightarrow> effect_ok P parse init db (k x)"
  shows "effect_ok P parse init db (on_result r db k)"
proof (cases "on_result r db k")
  case (Pair ph db')
  then show ?thesis
  proof (rule on_result_effect [OF _ assms(1)])
    show "effect_ok P parse init db (on_result r db k)" if "r = Ok x" "k x = (ph, db')" for x
      using that assms(2) Pair by simp
    show "effect_ok P parse init db (on_result r db k)" if "phase_inv init (ph, db)" "db' = db"
      using that Pair effect_ok_same by simp
  qed
qed

text \<open>The present-slot checks either rewind or hand the unchanged log on.\<close>

lemma on_reorgs_ok:
  assumes c: "contiguous db init next" and n: "next < 2 ^ 31" and i: "1 \<le> init"
    and rew: "\<And>s db'. contiguous db' init s \<Longrightarrow> log_effect P parse db db' \<Longrightarrow> effect_ok P parse init db (k (Some s, db'))"
    and go: "effect_ok P parse init db (k (None, db))"
  shows "effect_ok P parse init db (on_result (handle_reorgs_for_present_slot E init db next header) db k)"
proof (rule on_result_ok [OF c])
  fix x
  assume x: "handle_reorgs_for_present_slot E init db next header = Ok x"
  obtain r db' where rd: "x = (r, db')" by (cases x)
  show "effect_ok P parse init db (k x)"
    using handle_reorgs_effect [OF c n i x [unfolded rd], of P parse] rew go
    by (cases r) (auto simp: rd)
qed

lemma batch_step_effect:
  assumes inv: "phase_inv (init_start_slot cfg) (InBatch v fs, db)"
    and ok: "step_ok parse inp (InBatch v fs, db)" and i: "1 \<le> init_start_slot cfg"
  shows "effect_ok P parse (init_start_slot cfg) db (batch_step P parse cfg inp v fs db)"
proof (cases fs)
  case Nil
  then show ?thesis using inv by (simp add: batch_step_def effect_ok_def)
next
  case (Cons f fs')
  let ?init = "init_start_slot cfg" and ?n = "lv_next_slot v"
  have c: "contiguous db ?init ?n" and n: "?n < 2 ^ 31" using inv ok by auto
  have num: "fetched_number f = ?n" and rest: "map fetched_number fs' = [?n + 1 ..< ?n + 1 + length fs']"
    and fok: "fetched_ok f" "list_all fetched_ok fs'"
    using inv by (simp_all add: Cons upt_conv_Cons del: upt_Suc)
  show ?thesis
  proof (cases f)
    case (FMissing slot)
    have "effect_ok P parse ?init db (on_result (handle_missing_slot (in_env inp) (in_sync inp) ?init db ?n) db
        (\<lambda>(a, db'). case a of
             Rewound s \<Rightarrow> (Refreshing (v\<lparr> lv_next_slot := s \<rparr>), db')
           | Applied \<Rightarrow> (InBatch (v\<lparr> lv_next_slot := ?n + 1 \<rparr>) fs', db')))"
      by (rule on_result_ok [OF c])
        (auto simp: effect_ok_def rest fok simp del: upt_Suc
          dest!: handle_missing_effect [OF c n, where P = P and parse = parse])
    then show ?thesis using num c by (auto simp: batch_step_def Cons FMissing effect_ok_def)
  next
    case (FPresent slot header ctx)
    have b: "slot_bounds parse db ctx" and s: "sc_slot ctx = ?n" "slot = ?n"
      using ok num fok by (auto simp: Cons FPresent)
    have dc: "effect_ok P parse ?init db (on_result (derive_and_commit P parse (in_sync inp) db ctx) db (\<lambda>db''.
          (InBatch (v\<lparr> lv_next_slot := ?n + 1 \<rparr>) fs', db'')))"
      by (rule on_result_ok [OF c])
        (auto simp: effect_ok_def rest fok simp del: upt_Suc
          dest!: derive_and_commit_effect [OF c n s(1) b])
    have "effect_ok P parse ?init db (on_result (handle_reorgs_for_present_slot (in_env inp) ?init db ?n header) db
        (\<lambda>(r, db'). case r of
             Some s \<Rightarrow> (Refreshing (v\<lparr> lv_next_slot := s \<rparr>), db')
           | None \<Rightarrow> on_result (derive_and_commit P parse (in_sync inp) db' ctx) db' (\<lambda>db''.
               (InBatch (v\<lparr> lv_next_slot := ?n + 1 \<rparr>) fs', db''))))"
      by (rule on_reorgs_ok [OF c n i]) (use dc in \<open>auto simp: effect_ok_def\<close>)
    then show ?thesis using s c by (auto simp: batch_step_def Cons FPresent effect_ok_def)
  qed
qed

lemma present_step_effect:
  assumes c: "contiguous db (init_start_slot cfg) (lv_next_slot v)" and n: "lv_next_slot v < 2 ^ 31"
    and i: "1 \<le> init_start_slot cfg" and h: "bh_slot header = lv_next_slot v"
    and b: "\<And>header blk ctx. fetch_slot_context (in_env inp) header blk (lv_prev_block v) = Ok ctx \<Longrightarrow>
      slot_bounds parse db ctx"
  shows "effect_ok P parse (init_start_slot cfg) db (present_step P parse cfg inp v header db)"
proof -
  let ?init = "init_start_slot cfg" and ?n = "lv_next_slot v"
  have dc: "contiguous db'' ?init (?n + 1) \<and> log_effect P parse db db''"
    if "fetch_slot_context (in_env inp) header blk (lv_prev_block v) = Ok ctx"
      "derive_and_commit P parse (in_sync inp) db ctx = Ok db''" for blk ctx db''
    using derive_and_commit_effect [OF c n _ b [OF that(1)] that(2)] fetch_slot_context_slot [OF that(1)] h
    by simp
  have fin: "effect_ok P parse ?init db (on_result (obind (get_beacon_block (in_env inp) (bh_root header)) (\<lambda>blk.
                       obind (fetch_slot_context (in_env inp) header blk (lv_prev_block v)) (\<lambda>ctx.
                       obind (derive_and_commit P parse (in_sync inp) db ctx) (\<lambda>db''. Ok (blk, db''))))) db
              (\<lambda>(blk, db'').
                if in_shutdown_after inp then (Stopped, db'')
                else (Looping (v\<lparr> lv_prev_block := Some \<lparr> br_root = bh_root header, br_block = blk \<rparr>,
                                  lv_next_slot := ?n + 1 \<rparr>), db'')))"
    by (rule on_result_ok [OF c]) (use dc in \<open>fastforce simp: effect_ok_def split: if_splits\<close>)
  show ?thesis
    unfolding present_step_def
    by (rule on_reorgs_ok [OF c n i]) (use fin in \<open>auto simp: effect_ok_def\<close>)
qed

lemma resolve_slot:
  "honest_slots E \<Longrightarrow> resolve_slot_from_head E slot = Ok (head, Some (HPresent h)) \<Longrightarrow> bh_slot h = slot"
  using get_slot_header_slot [of E slot h]
  by (auto simp: resolve_slot_from_head_def slot_header_state_of_def split: if_splits option.splits)

lemma await_present:
  "await_slot E slot sub head wakes = Ok (Some (head', HPresent h)) \<Longrightarrow> honest_slots E \<Longrightarrow>
     \<forall>(w, E) \<in> set wakes. honest_slots E \<Longrightarrow> bh_slot h = slot"
  "await_event slot head wakes = Ok (Some (head', HPresent h)) \<Longrightarrow>
     \<forall>(w, E) \<in> set wakes. honest_slots E \<Longrightarrow> bh_slot h = slot"
proof (induction E slot sub head wakes and slot head wakes rule: await_slot_await_event.induct)
  case (1 E slot sub head wakes)
  then show ?case by (fastforce split: if_splits option.splits dest: resolve_slot)
next
  case (3 slot head w E wakes)
  then show ?case by (cases w) (fastforce split: if_splits option.splits dest: resolve_slot)+
qed simp

lemma next_slot_header_present:
  assumes "next_slot_header E slot sub head wakes = Ok (Some (head', HPresent h))"
    and "honest_slots E" and "\<forall>(w, E) \<in> set wakes. honest_slots E"
  shows "bh_slot h = slot"
  using assms await_present(1) [of E slot sub head wakes head' h] get_slot_header_slot [of E slot h]
  by (auto simp: next_slot_header_def slot_header_state_of_def split: if_splits option.splits)

lemma loop_step_effect:
  assumes inv: "phase_inv (init_start_slot cfg) (Looping v, db)"
    and ok: "step_ok parse inp (Looping v, db)" and i: "1 \<le> init_start_slot cfg"
  shows "effect_ok P parse (init_start_slot cfg) db (loop_step P parse cfg inp v db)"
proof -
  let ?init = "init_start_slot cfg" and ?n = "lv_next_slot v"
  have c: "contiguous db ?init ?n" and n: "?n < 2 ^ 31" and hon: "honest_slots (in_env inp)"
    and wk: "\<forall>(w, E) \<in> set (in_wakes inp). honest_slots E"
    and b: "\<And>header blk ctx. fetch_slot_context (in_env inp) header blk (lv_prev_block v) = Ok ctx \<Longrightarrow>
      slot_bounds parse db ctx"
    using inv ok by auto
  have batch: "effect_ok P parse ?init db (on_result (fetch_batch (in_env inp)
      [?n ..< ?n + catchup_batch_size cfg]) db (\<lambda>fetched. (InBatch v fetched, db)))"
  proof (rule on_result_ok [OF c])
    fix fs :: "'a fetched_slot list"
    assume f: "fetch_batch (in_env inp) [?n ..< ?n + catchup_batch_size cfg] = Ok fs"
    from fetch_batch_shape [OF hon f]
    have m: "map fetched_number fs = [?n ..< ?n + catchup_batch_size cfg]" and "list_all fetched_ok fs"
      by auto
    moreover have "length fs = catchup_batch_size cfg" using arg_cong [OF m, of length] by simp
    ultimately show "effect_ok P parse ?init db (InBatch v fs, db)" using c by (simp add: effect_ok_def)
  qed
  let ?v = "\<lambda>head. v\<lparr> lv_head := head,
      lv_subscribed := lv_subscribed v \<or> ?n \<ge> bh_slot (lv_head v) \<rparr>"
  have miss: "effect_ok P parse ?init db
      (on_result (handle_missing_slot (in_env inp) (in_sync inp) ?init db ?n) db
        (\<lambda>(a, db'). case a of
           Rewound s \<Rightarrow> (Looping ((?v head)\<lparr> lv_next_slot := s \<rparr>), db')
         | Applied \<Rightarrow> (Looping ((?v head)\<lparr> lv_next_slot := ?n + 1 \<rparr>), db')))" for head
    by (rule on_result_ok [OF c])
      (auto simp: effect_ok_def dest!: handle_missing_effect [OF c n, where P = P and parse = parse])
  have pres: "effect_ok P parse ?init db (present_step P parse cfg inp (?v head) header db)"
    if "bh_slot header = ?n" for head header
    by (rule present_step_effect) (use c n i that b in simp_all)
  have stop: "effect_ok P parse ?init db (Stopped, db)" using c by (auto simp: effect_ok_def)
  have single: "effect_ok P parse ?init db (on_result (next_slot_header (in_env inp) ?n (lv_subscribed v)
        (lv_head v) (in_wakes inp)) db (\<lambda>r.
             case r of
               None \<Rightarrow> (Looping v, db)
             | Some (head, state) \<Rightarrow>
                 (case state of
                       HShutdown \<Rightarrow> (Stopped, db)
                     | HMissing \<Rightarrow>
                         on_result (handle_missing_slot (in_env inp) (in_sync inp) ?init db ?n) db
                           (\<lambda>(a, db'). case a of
                              Rewound s \<Rightarrow> (Looping ((?v head)\<lparr> lv_next_slot := s \<rparr>), db')
                            | Applied \<Rightarrow> (Looping ((?v head)\<lparr> lv_next_slot := ?n + 1 \<rparr>), db'))
                     | HPresent header \<Rightarrow> present_step P parse cfg inp (?v head) header db)))"
  proof (rule on_result_ok [OF c])
    fix r
    assume r: "next_slot_header (in_env inp) ?n (lv_subscribed v) (lv_head v) (in_wakes inp) = Ok r"
    show "effect_ok P parse ?init db (case r of
               None \<Rightarrow> (Looping v, db)
             | Some (head, state) \<Rightarrow>
                 (case state of
                       HShutdown \<Rightarrow> (Stopped, db)
                     | HMissing \<Rightarrow>
                         on_result (handle_missing_slot (in_env inp) (in_sync inp) ?init db ?n) db
                           (\<lambda>(a, db'). case a of
                              Rewound s \<Rightarrow> (Looping ((?v head)\<lparr> lv_next_slot := s \<rparr>), db')
                            | Applied \<Rightarrow> (Looping ((?v head)\<lparr> lv_next_slot := ?n + 1 \<rparr>), db'))
                     | HPresent header \<Rightarrow> present_step P parse cfg inp (?v head) header db))"
      using c miss pres stop r next_slot_header_present [OF _ hon wk]
      by (auto simp: effect_ok_same split: option.splits slot_header_state.splits)
  qed
  show ?thesis
    using batch single stop by (auto simp: loop_step_def Let_def)
qed

lemma start_step_effect:
  assumes "phase_inv (init_start_slot cfg) (Starting, db)"
  shows "effect_ok P parse (init_start_slot cfg) db (sync_step P parse cfg inp (Starting, db))"
proof -
  from assms obtain n where c: "contiguous db (init_start_slot cfg) n" by auto
  have "ss_next_slot st = n" if "initialize_sync (in_spec inp) (in_env inp) cfg db = Ok st" for st
    using that last_processed_contiguous [OF c] c
    by (auto simp: initialize_sync_def contiguous_def split: option.splits if_splits)
  then show ?thesis
    unfolding sync_step.simps by (intro on_result_ok [OF c]) (use c in \<open>auto simp: effect_ok_def\<close>)
qed

lemma sync_step_effect:
  assumes "phase_inv (init_start_slot cfg) s" and "step_ok parse inp s" and "1 \<le> init_start_slot cfg"
  shows "effect_ok P parse (init_start_slot cfg) (snd s) (sync_step P parse cfg inp s)"
proof -
  obtain ph db where s: "s = (ph, db)" by (cases s)
  show ?thesis
  proof (cases ph)
    case Starting
    then show ?thesis using start_step_effect assms by (simp add: s)
  next
    case (Looping v)
    then show ?thesis using loop_step_effect assms by (simp add: s)
  next
    case (InBatch v fs)
    then show ?thesis using batch_step_effect assms by (simp add: s)
  next
    case (Refreshing v)
    then have c: "contiguous db (init_start_slot cfg) (lv_next_slot v)" using assms(1) by (simp add: s)
    then show ?thesis
      unfolding s Refreshing sync_step.simps snd_conv
      by (intro on_result_ok [OF c]) (simp add: effect_ok_def)
  qed (use assms(1) in \<open>auto simp: s effect_ok_def\<close>)
qed

text \<open>Runs of the daemon from an empty database: steps, and restarts of the process, which
  begin again from the committed log.\<close>

inductive daemon_run ::
    "('h, 'a, 's, 'mp) pod2 \<Rightarrow> (u8 list \<Rightarrow> (string, ('h, 'p) payload option) outcome) \<Rightarrow> sync_config
     \<Rightarrow> 'h phase \<times> 'h state_log \<Rightarrow> bool" for P parse cfg where
  run_start: "daemon_run P parse cfg (Starting, empty_log)"
| run_step: "daemon_run P parse cfg s \<Longrightarrow> step_ok parse inp s \<Longrightarrow>
    daemon_run P parse cfg (sync_step P parse cfg inp s)"
| run_restart: "daemon_run P parse cfg (ph, db) \<Longrightarrow> daemon_run P parse cfg (Starting, db)"

lemma phase_inv_contiguous: "phase_inv init (ph, db) \<Longrightarrow> \<exists>n. contiguous db init n"
  by (cases ph) auto

lemma reach_effect:
  assumes "reach commit_slot rollback_to_slot (2 ^ 31) (may_commit P parse) empty_log db"
    and "log_effect P parse db db'"
  shows "reach commit_slot rollback_to_slot (2 ^ 31) (may_commit P parse) empty_log db'"
  using assms(2) unfolding log_effect_def
proof (elim disjE exE conjE)
  show "reach commit_slot rollback_to_slot (2 ^ 31) (may_commit P parse) empty_log db'"
    if "may_commit P parse p db" "commit_slot p db = Ok db'" for p
    by (rule reach_commit [OF assms(1)]) (rule that)+
qed (use assms(1) in \<open>auto intro: reach_rollback\<close>)

lemma daemon_run_inv:
  assumes "daemon_run P parse cfg s" and "1 \<le> init_start_slot cfg" and "init_start_slot cfg \<le> 2 ^ 31"
  shows "phase_inv (init_start_slot cfg) s
    \<and> reach commit_slot rollback_to_slot (2 ^ 31) (may_commit P parse) empty_log (snd s)"
  using assms(1)
proof (induction rule: daemon_run.induct)
  case run_start
  have "contiguous empty_log (init_start_slot cfg) (init_start_slot cfg)"
    using assms(3) by (simp add: contiguous_def empty_log_def slot_numbers_def)
  then show ?case by (auto intro: reach_init)
next
  case (run_step s inp)
  then have "effect_ok P parse (init_start_slot cfg) (snd s) (sync_step P parse cfg inp s)"
    using sync_step_effect assms(2) by blast
  then show ?case using run_step.IH reach_effect by (auto simp: effect_ok_def)
next
  case (run_restart ph db)
  then show ?case using phase_inv_contiguous by auto
qed

text \<open>C5. The daemon keeps a contiguous history and only produces reachable logs. Through any
  run, with any answers from the nodes, failures, reorganisations, batches and restarts included, the
  stored slots are exactly the interval from \<open>INIT_START_SLOT\<close> to the slot before the next one to
  process, and the log is reachable by committing derived or empty slots and rolling back; every property of
  reachable logs therefore holds for it.\<close>

theorem daemon_log_contiguous_and_reachable:
  assumes "daemon_run P parse cfg (ph, db)"
    and "1 \<le> init_start_slot cfg" and "init_start_slot cfg \<le> 2 ^ 31"
  shows "reach commit_slot rollback_to_slot (2 ^ 31) (may_commit P parse) empty_log db
    \<and> (\<exists>n. slot_numbers db = map int [init_start_slot cfg ..< n] \<and> init_start_slot cfg \<le> n
           \<and> (\<forall>v. ph = Looping v \<or> ph = Refreshing v \<longrightarrow> lv_next_slot v = n))"
proof -
  note inv = daemon_run_inv [OF assms]
  have "\<exists>n. slot_numbers db = map int [init_start_slot cfg ..< n] \<and> init_start_slot cfg \<le> n
           \<and> (\<forall>v. ph = Looping v \<or> ph = Refreshing v \<longrightarrow> lv_next_slot v = n)"
    using conjunct1 [OF inv] by (cases ph) (auto simp: contiguous_def)
  then show ?thesis using inv by simp
qed

text \<open>A beacon node whose head is slot 5, an Embedded block with an empty payload.\<close>

definition demo_header :: block_header where
  "demo_header = \<lparr> bh_root = [7], bh_parent_root = [6], bh_slot = 5 \<rparr>"

definition demo_env :: node_env where
  "demo_env = \<lparr> env_polling = availability_default, env_to_address = [],
     env_header = (\<lambda>i n. case i of Slot s \<Rightarrow> Ok (if s = 5 then Some demo_header else None) | _ \<Rightarrow> Ok (Some demo_header)),
     env_block = (\<lambda>r n. Ok (Some \<lparr> blob_kzg_commitments = [], execution_payload = Embedded [8],
                                  b_parent_root = [6], b_slot = 5 \<rparr>)),
     env_blobs = (\<lambda>r vs n. Ok []),
     env_exec = (\<lambda>h full n. Ok (Some \<lparr> xb_number = 100, xb_timestamp = 100, xb_transactions = Some [] \<rparr>)),
     kzg_to_versioned_hash = id \<rparr>"

definition demo_cfg :: sync_config where
  "demo_cfg = \<lparr> init_start_slot = 5, catchup_batch_size = 10 \<rparr>"

definition demo_input :: step_input where
  "demo_input = \<lparr> in_spec = Ok 1, in_env = demo_env, in_sync = Ok (), in_shutdown = False, in_wakes = [],
     in_shutdown_after = False \<rparr>"

lemma demo_available: "fetch_once_available availability_default what (\<lambda>n. Ok (Some x)) = Ok x"
  by (simp add: fetch_once_available_def availability_default_def upt_conv_Cons del: upt_Suc)

lemmas demo_net = demo_env_def demo_cfg_def demo_input_def demo_header_def demo_available
  get_beacon_block_def get_beacon_head_header_def

lemma demo_fetch:
  "fetch_slot_context demo_env header blk prev = Ok ctx \<Longrightarrow> sc_target_txs ctx = [] \<and>
     (\<forall>payload. sc_payload ctx = Some payload \<longrightarrow> eb_number (cp_execution_block payload) = 100
        \<and> eb_timestamp (cp_execution_block payload) = 100)"
  by (auto simp: fetch_slot_context_def canonical_payload_def fetch_target_blobs_def demo_net Let_def
      target_blob_txs_of_def map_filter_def split: option.splits)

lemma demo_run1: "sync_step sym_pod2 demo_parse demo_cfg demo_input (Starting, empty_log)
    = (Looping \<lparr> lv_next_slot = 5, lv_head = demo_header, lv_subscribed = False, lv_prev_block = None \<rparr>, empty_log)"
  by (simp add: on_result_def initialize_sync_def last_processed_slot_def validate_genesis_slot_def
     canonical_payload_def committing_block_def Let_def target_blob_txs_of_def ensure_def empty_log_def demo_net del: obind_Ok_iff)

lemma demo_run2: "\<exists>v db. sync_step sym_pod2 demo_parse demo_cfg demo_input
     (Looping \<lparr> lv_next_slot = 5, lv_head = demo_header, lv_subscribed = False, lv_prev_block = None \<rparr>, empty_log)
    = (Looping v, db) \<and> slot_numbers db = [5] \<and> lv_next_slot v = 6"
  by (simp add: on_result_def loop_step_def next_slot_header_def resolve_slot_from_head_def present_step_def
    handle_reorgs_for_present_slot_def last_processed_slot_def slot_root_def row_at_def
    fetch_slot_context_def canonical_payload_def committing_block_def fetch_target_blobs_def target_blob_txs_of_def map_filter_def
    derive_and_commit_def node_commit_slot_def demo_simps demo_net del: obind_Ok_iff)

lemma demo_bounds: "fetch_slot_context demo_env header blk prev = Ok ctx \<Longrightarrow> slot_bounds demo_parse empty_log ctx"
  using demo_fetch [of header blk prev ctx]
  by (simp add: slot_bounds_def parse_blobs_def within_capacity_def slot_payloads_def base_count_def
      don_state_at_head_def slot_state_at_head_def latest_row_def empty_log_def)

lemma demo_ok2: "step_ok demo_parse demo_input (Looping \<lparr> lv_next_slot = 5, lv_head = demo_header, lv_subscribed = False, lv_prev_block = None \<rparr>, empty_log)"
proof -
  have "honest_slots demo_env" by (auto simp: honest_slots_def demo_env_def demo_header_def split: if_splits)
  then show ?thesis using demo_bounds by (simp add: demo_input_def)
qed

lemma demo_daemon_run: "\<exists>v db. daemon_run sym_pod2 demo_parse demo_cfg (Looping v, db)
    \<and> slot_numbers db = [5] \<and> lv_next_slot v = 6"
proof -
  obtain v db where st: "sync_step sym_pod2 demo_parse demo_cfg demo_input
       (Looping \<lparr> lv_next_slot = 5, lv_head = demo_header, lv_subscribed = False, lv_prev_block = None \<rparr>, empty_log)
      = (Looping v, db)" and e: "slot_numbers db = [5] \<and> lv_next_slot v = 6"
    using demo_run2 by blast
  have "daemon_run sym_pod2 demo_parse demo_cfg
      (sync_step sym_pod2 demo_parse demo_cfg demo_input (Starting, empty_log))"
    by (rule run_step [OF run_start]) simp
  from run_step [OF this, of demo_input] demo_ok2 st show ?thesis
    unfolding demo_run1 using e by metis
qed

theorem daemon_log_contiguous_and_reachable_witness:
  "\<exists>v db. daemon_run sym_pod2 demo_parse demo_cfg (Looping v, db) \<and> slot_numbers db = [5] \<and> lv_next_slot v = 6
    \<and> reach commit_slot rollback_to_slot (2 ^ 31) (may_commit sym_pod2 demo_parse) empty_log db
    \<and> (\<exists>n. slot_numbers db = map int [5 ..< n] \<and> n = lv_next_slot v)"
proof -
  obtain v db where d: "daemon_run sym_pod2 demo_parse demo_cfg (Looping v, db)"
      "slot_numbers db = [5]" "lv_next_slot v = 6"
    using demo_daemon_run by blast
  from daemon_log_contiguous_and_reachable [OF d(1)] d show ?thesis
    by (intro exI [of _ v] exI [of _ db]) (simp add: demo_cfg_def)
qed

text \<open>C7. Rewinding goes to the last common ancestor. The slot from which the chain is derived
  again lies between \<open>INIT_START_SLOT\<close> and the current slot; if it is above \<open>INIT_START_SLOT\<close> then the
  block stored just before it is the live one; and no slot from it up to the current one
  stores a block that the live chain still has.\<close>

theorem find_divergence_slot_exact:
  assumes "find_divergence_slot E init db cur = Ok r" and "init \<le> cur"
  shows "init \<le> r \<and> r \<le> cur
    \<and> (r > init \<longrightarrow> (\<exists>h. get_slot_header E (r - 1) = Ok (Some h) \<and> slot_root db (r - 1) = Some (bh_root h)))
    \<and> (\<forall>s. r \<le> s \<and> s < cur \<longrightarrow> (\<exists>h. get_slot_header E s = Ok h
        \<and> (slot_root db s = None \<or> slot_root db s \<noteq> map_option bh_root h)))"
  using find_divergence_bounds [OF assms] find_divergence_exact [OF assms] by blast

text \<open>A node that still has the block stored for slot 6 and lost everything after it.\<close>

definition demo_env2 :: node_env where
  "demo_env2 = demo_env\<lparr> env_header := \<lambda>i n.
     Ok (if i = Slot 6 then Some \<lparr> bh_root = [1], bh_parent_root = [], bh_slot = 6 \<rparr> else None) \<rparr>"

lemma demo_divergence: "find_divergence_slot demo_env2 5 demo_db1 8 = Ok 7"
proof -
  have r: "slot_root demo_db1 7 = None" "slot_root demo_db1 6 = Some [1]"
    unfolding demo_db1_def demo_db0_def demo_commit_def demo_slot_def slot_root_def row_at_def
    by (simp_all add: demo_simps del: obind_Ok_iff)
  show ?thesis
    using r by (simp add: eval_nat_numeral get_slot_header_def demo_env2_def del: obind_Ok_iff)
qed

theorem find_divergence_slot_exact_witness:
  "find_divergence_slot demo_env2 5 demo_db1 8 = Ok 7
    \<and> (\<exists>h. get_slot_header demo_env2 6 = Ok (Some h) \<and> slot_root demo_db1 6 = Some (bh_root h))"
  using find_divergence_slot_exact [OF demo_divergence] demo_divergence by simp

end
