(* ===== verification/Sync_Api.thy ===== *)
theory Sync_Api
  imports Sync_Ledger
begin

text \<open>
  The synchronizer's HTTP API (\<open>synchronizer/src/api.rs\<close>): state queries, membership and
  grounding proofs, transaction statuses. A handler maps a request and the current database to a
  response or to a status code with a message. The parsers of block identifiers, transaction hashes and
  pod2 hashes belong to other packages and are arguments.
\<close>

section \<open>Responses\<close>

type_synonym http_error = "nat \<times> string"

definition BAD_REQUEST :: nat where "BAD_REQUEST = 400"
definition NOT_FOUND :: nat where "NOT_FOUND = 404"
definition INTERNAL_SERVER_ERROR :: nat where "INTERNAL_SERVER_ERROR = 500"
definition SERVICE_UNAVAILABLE :: nat where "SERVICE_UNAVAILABLE = 503"

record 'h state_head_response =
  shr_slot :: nat
  shr_state_root :: 'h
  shr_block_number :: int
  shr_block_hash :: b256
  shr_created_count :: nat
  shr_nullifier_count :: nat
  shr_state_root_count :: nat

record 'h object_contains_entry =
  oce_commitment :: 'h
  oce_present :: bool

record 'h nullifier_contains_entry =
  nce_nullifier :: 'h
  nce_present :: bool

record 'h object_contains_response =
  ocr_block_number :: int
  ocr_block_hash :: b256
  ocr_state_root :: 'h
  ocr_results :: "'h object_contains_entry list"

record 'h nullifier_contains_response =
  ncr_block_number :: int
  ncr_block_hash :: b256
  ncr_state_root :: 'h
  ncr_results :: "'h nullifier_contains_entry list"

record 'h membership_response =
  mr_block_number :: int
  mr_block_hash :: b256
  mr_state_root :: 'h
  mr_created_results :: "'h object_contains_entry list"
  mr_nullifier_results :: "'h nullifier_contains_entry list"

record ('h, 'mp) object_proof_response =
  opr_commitment :: 'h
  opr_present :: bool
  opr_index :: "int option"
  opr_proof :: "'mp option"

record ('h, 'mp) grounding_witness_response =
  gw_state_root :: 'h
  gw_block_number :: int
  gw_block_timestamp :: int
  gw_block_hash :: 'h
  gw_created_root :: 'h
  gw_nullifiers_root :: 'h
  gw_prior_state_history_root :: 'h
  gw_created_proofs :: "('h, 'mp) object_proof_response list"

record 'h membership =
  mb_head :: "'h slot_state"
  mb_created_present :: "bool list"
  mb_nullifier_present :: "bool list"

section \<open>Limits and errors\<close>

definition MAX_HASH_QUERY_ITEMS :: nat where
  "MAX_HASH_QUERY_ITEMS = 256"

definition not_initialized :: http_error where
  "not_initialized = (SERVICE_UNAVAILABLE, ''synchronizer has not derived its genesis state yet'')"

definition internal_error :: "string \<Rightarrow> http_error" where
  "internal_error err = (INTERNAL_SERVER_ERROR, err)"

definition ensure_hash_query_limit :: "string \<Rightarrow> nat \<Rightarrow> (http_error, unit) outcome" where
  "ensure_hash_query_limit field_name count =
     (if count > MAX_HASH_QUERY_ITEMS
      then Err (BAD_REQUEST, field_name @ '' exceeds maximum item count: '' @ show_nat count @ '' > ''
                  @ show_nat MAX_HASH_QUERY_ITEMS)
      else Ok ())"

definition ensure_membership_query_limit :: "nat \<Rightarrow> nat \<Rightarrow> (http_error, unit) outcome" where
  "ensure_membership_query_limit object_commitments nullifiers =
     (let total = min (object_commitments + nullifiers) (2 ^ 64 - 1)
      in if total > MAX_HASH_QUERY_ITEMS
         then Err (BAD_REQUEST, ''membership query exceeds maximum total item count: '' @ show_nat total
                     @ '' > '' @ show_nat MAX_HASH_QUERY_ITEMS
                     @ '' across object commitments and nullifiers'')
         else Ok ())"

section \<open>Queries\<close>

definition load_slot_state_at_head :: "'h state_log \<Rightarrow> (http_error, 'h slot_state) outcome" where
  "load_slot_state_at_head db = ok_or not_initialized (slot_state_at_head db)"

definition load_membership ::
    "('h, 'a, 's, 'mp) pod2 \<Rightarrow> 'h state_log \<Rightarrow> 'h list \<Rightarrow> 'h list \<Rightarrow> (http_error, 'h membership) outcome" where
  "load_membership P db object_commitments nullifiers =
     obind (ensure_membership_query_limit (length object_commitments) (length nullifiers)) (\<lambda>_.
       let (head, indices) = slot_state_at_head_with_created_indices db object_commitments
       in obind (ok_or not_initialized head) (\<lambda>head.
          obind (map_err internal_error
                   (created_exists_for P (roots (ss_state head)) object_commitments indices)) (\<lambda>created.
          obind (map_err internal_error
                   (nullifier_exists_batch P (roots (ss_state head)) nullifiers)) (\<lambda>nulls.
          Ok \<lparr> mb_head = head, mb_created_present = created, mb_nullifier_present = nulls \<rparr>))))"

definition object_contains_entries :: "'h list \<Rightarrow> bool list \<Rightarrow> 'h object_contains_entry list" where
  "object_contains_entries object_commitments created_present =
     map (\<lambda>(c, b). \<lparr> oce_commitment = c, oce_present = b \<rparr>) (zip object_commitments created_present)"

definition nullifier_contains_entries :: "'h list \<Rightarrow> bool list \<Rightarrow> 'h nullifier_contains_entry list" where
  "nullifier_contains_entries nullifiers nullifier_present =
     map (\<lambda>(n, b). \<lparr> nce_nullifier = n, nce_present = b \<rparr>) (zip nullifiers nullifier_present)"

definition state_head_response_of :: "'h slot_state \<Rightarrow> 'h state_head_response" where
  "state_head_response_of st =
     (let md = metadata (ss_state st)
      in \<lparr> shr_slot = ss_slot st, shr_state_root = state_root md,
           shr_block_number = as_i64 (eb_number (md_block md)), shr_block_hash = eb_hash (md_block md),
           shr_created_count = created_count md, shr_nullifier_count = nullifier_count md,
           shr_state_root_count = state_root_count md \<rparr>)"

section \<open>Handlers\<close>

definition get_sync_progress :: "'h state_log \<Rightarrow> (http_error, nat) outcome" where
  "get_sync_progress db = ok_or not_initialized (last_processed_slot db)"

definition get_state_head :: "'h state_log \<Rightarrow> (http_error, 'h state_head_response) outcome" where
  "get_state_head db = obind (load_slot_state_at_head db) (\<lambda>head. Ok (state_head_response_of head))"

definition get_state_by_el ::
    "(string \<Rightarrow> (string, block_hash_or_number) outcome) \<Rightarrow> 'h state_log \<Rightarrow> string
     \<Rightarrow> (http_error, 'h state_head_response) outcome" where
  "get_state_by_el parse_block db block_id =
     obind (map_err (\<lambda>err. (BAD_REQUEST, ''invalid execution block id: '' @ err)) (parse_block block_id)) (\<lambda>block.
     obind (case block of
              BlockNumber number \<Rightarrow>
                ensure (number < 2 ^ 63)
                  (BAD_REQUEST, ''execution block number '' @ show_nat number @ '' is out of range'')
            | BlockHash _ \<Rightarrow> Ok ()) (\<lambda>_.
     obind (map_err internal_error (slot_state_at_el_block db block)) (\<lambda>slot_state.
     case slot_state of
       Some st \<Rightarrow> Ok (state_head_response_of st)
     | None \<Rightarrow> Err (NOT_FOUND, ''no state derived at execution block '' @ block_id))))"

definition post_state_object_contains ::
    "('h, 'a, 's, 'mp) pod2 \<Rightarrow> 'h state_log \<Rightarrow> 'h list \<Rightarrow> (http_error, 'h object_contains_response) outcome" where
  "post_state_object_contains P db object_commitments =
     obind (load_membership P db object_commitments []) (\<lambda>m.
       let md = metadata (ss_state (mb_head m))
       in Ok \<lparr> ocr_block_number = as_i64 (eb_number (md_block md)), ocr_block_hash = eb_hash (md_block md),
               ocr_state_root = state_root md,
               ocr_results = object_contains_entries object_commitments (mb_created_present m) \<rparr>)"

definition post_state_nullifier_contains ::
    "('h, 'a, 's, 'mp) pod2 \<Rightarrow> 'h state_log \<Rightarrow> 'h list \<Rightarrow> (http_error, 'h nullifier_contains_response) outcome" where
  "post_state_nullifier_contains P db nullifiers =
     obind (load_membership P db [] nullifiers) (\<lambda>m.
       let md = metadata (ss_state (mb_head m))
       in Ok \<lparr> ncr_block_number = as_i64 (eb_number (md_block md)), ncr_block_hash = eb_hash (md_block md),
               ncr_state_root = state_root md,
               ncr_results = nullifier_contains_entries nullifiers (mb_nullifier_present m) \<rparr>)"

definition post_state_membership ::
    "('h, 'a, 's, 'mp) pod2 \<Rightarrow> 'h state_log \<Rightarrow> 'h list \<Rightarrow> 'h list
     \<Rightarrow> (http_error, 'h membership_response) outcome" where
  "post_state_membership P db object_commitments nullifiers =
     obind (load_membership P db object_commitments nullifiers) (\<lambda>m.
       let md = metadata (ss_state (mb_head m))
       in Ok \<lparr> mr_block_number = as_i64 (eb_number (md_block md)), mr_block_hash = eb_hash (md_block md),
               mr_state_root = state_root md,
               mr_created_results = object_contains_entries object_commitments (mb_created_present m),
               mr_nullifier_results = nullifier_contains_entries nullifiers (mb_nullifier_present m) \<rparr>)"

definition object_proof_response_of :: "'h \<times> (int \<times> 'mp) option \<Rightarrow> ('h, 'mp) object_proof_response" where
  "object_proof_response_of cw =
     \<lparr> opr_commitment = fst cw, opr_present = (map_option fst (snd cw) \<noteq> None),
       opr_index = map_option fst (snd cw), opr_proof = map_option snd (snd cw) \<rparr>"

definition post_grounding_witness ::
    "('h, 'a, 's, 'mp) pod2 \<Rightarrow> 'h state_log \<Rightarrow> 'h list
     \<Rightarrow> (http_error, ('h, 'mp) grounding_witness_response) outcome" where
  "post_grounding_witness P db object_commitments =
     obind (ensure_hash_query_limit ''objectCommitments'' (length object_commitments)) (\<lambda>_.
       let (head, indices) = slot_state_at_head_with_created_indices db object_commitments
       in obind (ok_or not_initialized head) (\<lambda>head.
          let state = ss_state head
          in obind (map_err internal_error
                      (prove_created_for P (roots state) object_commitments indices)) (\<lambda>witnesses.
             let hdr = don_state_header P state
             in Ok \<lparr> gw_state_root = state_root (metadata state),
                     gw_block_number = block_number hdr, gw_block_timestamp = block_timestamp hdr,
                     gw_block_hash = block_hash hdr, gw_created_root = h_created_root hdr,
                     gw_nullifiers_root = h_nullifiers_root hdr,
                     gw_prior_state_history_root = h_prior_state_history_root hdr,
                     gw_created_proofs =
                       map object_proof_response_of (zip object_commitments witnesses) \<rparr>)))"

text \<open>Of the status endpoints the database itself may fail: they read an outcome, the tables or the error of the query.\<close>

definition get_tx_status_by_tx_hash ::
    "(string \<Rightarrow> (string, b256) outcome) \<Rightarrow> (string, 'h state_log) outcome \<Rightarrow> string
     \<Rightarrow> (http_error, 'h tx_blob_status list) outcome" where
  "get_tx_status_by_tx_hash parse_b256 database tx_hash =
     obind (map_err (\<lambda>err. (BAD_REQUEST, ''invalid transaction hash: '' @ err)) (parse_b256 tx_hash)) (\<lambda>h.
     obind (map_err internal_error (obind database (\<lambda>db. tx_statuses_by_tx_hash db h))) (\<lambda>blobs.
     if blobs = [] then Err (NOT_FOUND, ''no committed transaction '' @ tx_hash) else Ok blobs))"

definition get_tx_status_by_tx_final ::
    "(string \<Rightarrow> (string, 'h) outcome) \<Rightarrow> (string, 'h state_log) outcome \<Rightarrow> string
     \<Rightarrow> (http_error, 'h tx_blob_status list) outcome" where
  "get_tx_status_by_tx_final decode_hash database tx_final =
     obind (map_err (\<lambda>err. (BAD_REQUEST, ''invalid tx_final: '' @ err)) (decode_hash tx_final)) (\<lambda>h.
     obind (map_err internal_error (obind database (\<lambda>db. tx_status_by_tx_final db h))) (\<lambda>blob.
     case blob of
       Some b \<Rightarrow> Ok [b]
     | None \<Rightarrow> Err (NOT_FOUND, ''no committed blob carries tx_final '' @ tx_final)))"

section \<open>The stored rows\<close>

text \<open>Every stored state root is the hash of the header its own columns spell out, and every
  transaction status belongs to a slot with a derived state.\<close>

definition rows_coherent :: "('h, 'a, 's, 'mp) pod2 \<Rightarrow> 'h state_log \<Rightarrow> bool" where
  "rows_coherent P db \<longleftrightarrow>
     (\<forall>r \<in> set (slots db). \<forall>c. sr_state r = Some c \<longrightarrow>
        don_state_root c = header_hash P (don_state_header P (decode_state_row c)))
     \<and> (\<forall>t \<in> set (tx_statuses db). \<exists>r \<in> set (slots db). sr_slot r = tr_slot t \<and> sr_state r \<noteq> None)"

lemma close_slot_header:
  "close_slot P rs n block w = Ok st \<Longrightarrow> state_root (metadata st) = header_hash P (don_state_header P st)"
  by (auto simp: close_slot_def don_state_header_def Let_def)

lemma derive_slot_state_header:
  "derive_slot_state P base R slot block txs prior = Ok (d, txs') \<Longrightarrow>
   state_root (metadata (ds_state d)) = header_hash P (don_state_header P (ds_state d))"
  by (erule derive_slot_stateE) (erule close_slot_header)

lemma encode_state_header:
  assumes "eb_number (md_block (metadata st)) < 2 ^ 64" and "eb_timestamp (md_block (metadata st)) < 2 ^ 64"
  shows "don_state_header P (decode_state_row (encode_state st)) = don_state_header P st"
  using assms by (simp add: don_state_header_def decode_state_row_def encode_state_def state_header_def)

lemma rows_coherent_step:
  assumes inv: "rows_coherent P db" and may: "may_commit P parse p db" and c: "commit_slot p db = Ok db'"
  shows "rows_coherent P db'"
proof -
  have rows: "slots db' = slots db @ [slot_row_of p]" "tx_statuses db' = tx_statuses db @ status_rows_of p"
    using commit_slotD(1) [OF c] by simp_all
  have st: "don_state_root cs = header_hash P (don_state_header P (decode_state_row cs))"
    if s: "sr_state (slot_row_of p) = Some cs" for cs
  proof -
    from s obtain d where d: "ps_derived p = Some d" "cs = encode_state (ds_state d)"
      by (auto simp: slot_row_of_def)
    with may obtain ctx payload txs where ctx: "sc_payload ctx = Some payload"
      "eb_number (cp_execution_block payload) < 2 ^ 64" "eb_timestamp (cp_execution_block payload) < 2 ^ 64"
      "derive_from_context P parse db ctx = Ok p" "parse_blobs parse (sc_target_txs ctx) = Ok txs"
      by (auto simp: may_commit_def)
    from derive_from_contextE [OF ctx(4,1,5)] obtain R prior txs' where
      "derive_slot_state P (don_state_at_head db) R (sc_slot ctx) (cp_execution_block payload) txs prior = Ok (d, txs')"
      using d(1) by (metis option.inject processed_slot.select_convs(3))
    then have "state_root (metadata (ds_state d)) = header_hash P (don_state_header P (ds_state d))"
      "md_block (metadata (ds_state d)) = cp_execution_block payload"
      by (auto dest: derive_slot_state_header derive_slot_state_block)
    moreover have "don_state_root cs = state_root (metadata (ds_state d))"
      by (simp add: d(2) encode_state_def)
    ultimately show ?thesis using ctx(2,3) by (simp add: d(2) encode_state_header)
  qed
  have "sr_state (slot_row_of p) \<noteq> None" if "t \<in> set (status_rows_of p)" for t
    using that may by (auto simp: may_commit_def status_rows_of_def slot_row_of_def derive_from_context_def
       derive_slot_def Let_def)
  then show ?thesis using inv st unfolding rows_coherent_def rows by fastforce
qed

lemma rows_coherent_reach:
  assumes "reach commit_slot rollback_to_slot (2 ^ 31) (may_commit P parse) empty_log db"
  shows "rows_coherent P db"
  using log_store.reach_linear [OF may_commit_ordered assms]
proof (induction rule: linear.induct)
  case linear_init
  then show ?case by (simp add: rows_coherent_def empty_log_def)
qed (rule rows_coherent_step)

lemma row_at_sorted:
  assumes "log_sorted db" and "r \<in> set (slots db)"
  shows "row_at db (sr_slot r) = Some r"
proof -
  have "distinct (map sr_slot (slots db))"
    using assms(1) by (simp add: log_sorted_def slot_numbers_def strict_sorted_iff)
  then have "r' = r" if "r' \<in> set (slots db)" "sr_slot r' = sr_slot r" for r'
    using that assms(2) by (metis distinct_map inj_on_def)
  moreover obtain r' where "row_at db (sr_slot r) = Some r'"
    using assms(2) by (cases "row_at db (sr_slot r)") (auto simp: row_at_def find_None_iff)
  ultimately show ?thesis by (auto simp: row_at_def dest: find_Some_in)
qed

section \<open>Membership answers\<close>

lemma head_created_bound:
  assumes "ledger_inv P va vs db L" and "slot_state_at_head db = Some head"
  shows "length (l_created L) < 2 ^ 64"
proof -
  obtain c where "ss_state head = decode_state_row c"
    using assms(2) by (auto simp: slot_state_at_head_def decode_slot_state_row_def bind_eq_Some_conv)
  moreover have "length (l_created L) = created_count (metadata (ss_state head))"
    using assms by (simp add: ledger_inv_def commits_to_def don_state_at_head_def base_count_def)
  ultimately show ?thesis by (simp add: decode_state_row_def as_u64_def nat_less_iff)
qed

lemma ledger_index:
  assumes inv: "ledger_inv P va vs db L" and "c \<in> set cs"
  shows "map_of (created_indices db cs) c = Some i \<longleftrightarrow> (\<exists>k < length (l_created L). l_created L ! k = c \<and> i = as_i64 k)"
  using inv assms(2) created_indices_lookup [of db cs] by (auto simp: ledger_inv_def index_exact_def)

lemma created_exists_for_exact:
  assumes snd: "pod2_sound P va vs" and inv: "ledger_inv P va vs db L"
    and head: "slot_state_at_head db = Some head"
    and ok: "created_exists_for P (roots (ss_state head)) cs (created_indices db cs) = Ok bs"
  shows "bs = map (\<lambda>c. c \<in> set (l_created L)) cs"
proof -
  have root: "base_roots_of P (don_state_at_head db) = roots (ss_state head)"
    by (simp add: head don_state_at_head_def base_roots_of_def)
  from ok obtain a where a: "array_from_db P (created_root (roots (ss_state head))) = Ok a"
    and bs: "omap (\<lambda>c. case map_of (created_indices db cs) c of None \<Rightarrow> Ok False
        | Some i \<Rightarrow> created_array_holds P a i c) cs = Ok bs"
    by (auto simp: created_exists_for_def open_created_def)
  have va: "va a = nth_opt (l_created L)"
    using inv a by (simp add: ledger_inv_def commits_to_def root)
  have "b = (c \<in> set (l_created L))"
    if c: "c \<in> set cs" and b: "(case map_of (created_indices db cs) c of None \<Rightarrow> Ok False
        | Some i \<Rightarrow> created_array_holds P a i c) = Ok b" for b c
  proof (cases "map_of (created_indices db cs) c")
    case None
    then show ?thesis using b ledger_index [OF inv c] by (auto simp: in_set_conv_nth)
  next
    case (Some i)
    then obtain k where k: "k < length (l_created L)" "l_created L ! k = c" "i = as_i64 k"
      using ledger_index [OF inv c] by auto
    moreover have "as_u64 i = k" using k head_created_bound [OF inv head] by simp
    ultimately show ?thesis
      using created_array_holds_sound [OF snd, of a i c b] b Some va by (auto simp: nth_opt_def)
  qed
  then show ?thesis by (rule omap_Ok_map [OF bs])
qed

lemma nullifier_exists_batch_exact:
  assumes snd: "pod2_sound P va vs" and inv: "ledger_inv P va vs db L"
    and head: "slot_state_at_head db = Some head"
    and ok: "nullifier_exists_batch P (roots (ss_state head)) ns = Ok bs"
  shows "bs = map (\<lambda>n. n \<in> set (l_nullifiers L)) ns"
proof -
  have root: "base_roots_of P (don_state_at_head db) = roots (ss_state head)"
    by (simp add: head don_state_at_head_def base_roots_of_def)
  from ok obtain s where s: "set_from_db P (nullifiers_root (roots (ss_state head))) = Ok s"
    and bs: "omap (set_contains P s) ns = Ok bs"
    by (auto simp: nullifier_exists_batch_def open_nullifiers_def)
  have "vs s = set (l_nullifiers L)" using inv s by (simp add: ledger_inv_def commits_to_def root)
  then show ?thesis
    using omap_Ok_map [OF bs, of "\<lambda>n. n \<in> set (l_nullifiers L)"] sound_set_contains [OF snd] by blast
qed

end
