(* ===== verification/Sync_Api_Properties.thy ===== *)
theory Sync_Api_Properties
  imports Sync_Api Sync_Properties "HOL-Library.Multiset"
begin

text \<open>
  What the synchronizer's API answers, over logs that hold a ledger: membership, grounding witnesses and
  transaction statuses.
\<close>

section \<open>Membership\<close>

text \<open>C9. Membership answers are exact. A membership response is given against one head state, its
  root is that head's, and it says for every queried object and nullifier, in the order asked,
  whether the ledger of the log contains it; it is only given for at most 256 items.\<close>

theorem membership_exact:
  assumes "pod2_sound P va vs" and "ledger_inv P va vs db L"
    and "post_state_membership P db cs ns = Ok r"
  shows "length cs + length ns \<le> 256
    \<and> (\<exists>st. don_state_at_head db = Some st \<and> mr_state_root r = state_root (metadata st))
    \<and> mr_created_results r = map (\<lambda>c. \<lparr> oce_commitment = c, oce_present = c \<in> set (l_created L) \<rparr>) cs
    \<and> mr_nullifier_results r = map (\<lambda>n. \<lparr> nce_nullifier = n, nce_present = n \<in> set (l_nullifiers L) \<rparr>) ns"
proof -
  from assms(3) obtain head bs ms where head: "slot_state_at_head db = Some head"
    and lim: "length cs + length ns \<le> 256"
    and bs: "created_exists_for P (roots (ss_state head)) cs (created_indices db cs) = Ok bs"
    and ms: "nullifier_exists_batch P (roots (ss_state head)) ns = Ok ms"
    and r: "mr_state_root r = state_root (metadata (ss_state head))"
      "mr_created_results r = object_contains_entries cs bs"
      "mr_nullifier_results r = nullifier_contains_entries ns ms"
    by (auto simp: post_state_membership_def load_membership_def Let_def
        slot_state_at_head_with_created_indices_def ensure_membership_query_limit_def
        MAX_HASH_QUERY_ITEMS_def split: if_splits)
  show ?thesis
    using lim r head created_exists_for_exact [OF assms(1,2) head bs]
      nullifier_exists_batch_exact [OF assms(1,2) head ms]
    by (auto simp: don_state_at_head_def object_contains_entries_def nullifier_contains_entries_def
        zip_map2 zip_same_conv_map)
qed

lemmas api_simps = post_state_membership_def load_membership_def ensure_membership_query_limit_def
  MAX_HASH_QUERY_ITEMS_def slot_state_at_head_with_created_indices_def created_exists_for_def open_created_def
  nullifier_exists_batch_def open_nullifiers_def created_array_holds_def

lemma demo_membership: "\<exists>r. post_state_membership sym_pod2 demo_db1 (p_created demo_payload) [Atom 99] = Ok r"
  unfolding demo_db1_def demo_db0_def demo_commit_def demo_slot_def 
  by (simp add: demo_simps api_simps del: obind_Ok_iff)

theorem membership_exact_witness:
  "\<exists>L r. ledger_inv sym_pod2 map_of set demo_db1 L
     \<and> post_state_membership sym_pod2 demo_db1 (p_created demo_payload) [Atom 99] = Ok r
     \<and> map oce_present (mr_created_results r) = map (\<lambda>c. c \<in> set (l_created L)) (p_created demo_payload)"
proof -
  obtain L where L: "ledger_inv sym_pod2 map_of set demo_db1 L"
    using ledger_inv_reach [OF sym_pod2_sound demo_reach1] by blast
  obtain r where r: "post_state_membership sym_pod2 demo_db1 (p_created demo_payload) [Atom 99] = Ok r"
    using demo_membership by blast
  show ?thesis
    using membership_exact [OF sym_pod2_sound L r] L r
    by (intro exI [of _ L] exI [of _ r]) (auto simp: comp_def)
qed

section \<open>Grounding witnesses\<close>

lemma head_row:
  assumes "log_sorted db" and "slot_state_at_head db = Some head"
  shows "\<exists>r c. r \<in> set (slots db) \<and> sr_state r = Some c \<and> ss_state head = decode_state_row c"
proof -
  have "slot_state_at_head db = decode_slot_state_row (last (filter (\<lambda>r. sr_state r \<noteq> None) (slots db)))"
    "filter (\<lambda>r. sr_state r \<noteq> None) (slots db) \<noteq> []"
    using slot_state_at_head_sorted [OF assms(1)] assms(2) by (auto simp: Let_def split: if_splits)
  then show ?thesis
    using assms(2) last_in_set [of "filter (\<lambda>r. sr_state r \<noteq> None) (slots db)"]
    by (auto simp: decode_slot_state_row_def)
qed

lemma head_header_hash:
  assumes "reach commit_slot rollback_to_slot (2 ^ 31) (may_commit P parse) empty_log db"
    and "log_sorted db" and "slot_state_at_head db = Some head"
  shows "state_root (metadata (ss_state head)) = header_hash P (don_state_header P (ss_state head))"
  using head_row [OF assms(2,3)] rows_coherent_reach [OF assms(1)]
  by (auto simp: rows_coherent_def decode_state_row_def)

text \<open>What one entry of a grounding witness says of the object it is for.\<close>

definition proof_entry_ok ::
    "('h, 'a, 's, 'mp) pod2 \<Rightarrow> 'h ledger \<Rightarrow> 'h \<Rightarrow> 'h \<Rightarrow> ('h, 'mp) object_proof_response \<Rightarrow> bool" where
  "proof_entry_ok P L root c e \<longleftrightarrow> opr_commitment e = c \<and> (opr_present e \<longleftrightarrow> c \<in> set (l_created L))
     \<and> (if c \<in> set (l_created L)
        then \<exists>a k pr. array_from_db P root = Ok a \<and> k < length (l_created L) \<and> l_created L ! k = c
               \<and> opr_index e = Some (as_i64 k) \<and> array_prove P a k = Ok (c, pr) \<and> opr_proof e = Some pr
        else opr_index e = None \<and> opr_proof e = None)"

definition prove_one ::
    "('h, 'a, 's, 'mp) pod2 \<Rightarrow> 'a \<Rightarrow> ('h \<times> int) list \<Rightarrow> 'h \<Rightarrow> (string, (int \<times> 'mp) option) outcome" where
  "prove_one P a indices c = (case map_of indices c of
           None \<Rightarrow> Ok None
         | Some index \<Rightarrow>
             (case array_prove P a (as_u64 index) of
                Panic \<Rightarrow> Panic
              | Err _ \<Rightarrow> Ok None
              | Ok (v, proof) \<Rightarrow> if v = c then Ok (Some (index, proof)) else Ok None))"

lemma prove_one_ok:
  assumes snd: "pod2_sound P va vs" and live: "pod2_live P va vs" and inv: "ledger_inv P va vs db L"
    and head: "slot_state_at_head db = Some head" and c: "c \<in> set cs"
    and a: "array_from_db P (created_root (roots (ss_state head))) = Ok a"
    and w: "prove_one P a (created_indices db cs) c = Ok w"
  shows "proof_entry_ok P L (created_root (roots (ss_state head))) c (object_proof_response_of (c, w))"
proof (cases "c \<in> set (l_created L)")
  case False
  then have "map_of (created_indices db cs) c = None"
    using ledger_index [OF inv c] by (metis nth_mem option.exhaust)
  then show ?thesis
    using w False by (simp add: prove_one_def proof_entry_ok_def object_proof_response_of_def)
next
  case True
  then obtain k where k: "k < length (l_created L)" "l_created L ! k = c" by (auto simp: in_set_conv_nth)
  then have i: "map_of (created_indices db cs) c = Some (as_i64 k)" "as_u64 (as_i64 k) = k"
    using ledger_index [OF inv c] head_created_bound [OF inv head] by auto
  have "base_roots_of P (don_state_at_head db) = roots (ss_state head)"
    by (simp add: head don_state_at_head_def base_roots_of_def)
  then have "va a k = Some c"
    using inv a k by (simp add: ledger_inv_def commits_to_def nth_opt_def)
  then obtain pr where "array_prove P a k = Ok (c, pr)" using live unfolding pod2_live_def by blast
  then show ?thesis
    using w a k True i by (auto simp: prove_one_def proof_entry_ok_def object_proof_response_of_def)
qed

text \<open>C10. Grounding witnesses are complete and self-consistent. On a reachable log with storage that
  answers, the response's state root is the hash of the header made of the response's own
  fields, and for every asked object, in order, the entry says present exactly when the ledger
  contains it, with its position and a Merkle proof of that position under the response's created
  root.\<close>

theorem grounding_witness_exact:
  assumes "pod2_sound P va vs" and "pod2_live P va vs"
    and "reach commit_slot rollback_to_slot (2 ^ 31) (may_commit P parse) empty_log db"
    and "ledger_inv P va vs db L" and "post_grounding_witness P db cs = Ok r"
  shows "gw_state_root r = header_hash P \<lparr> block_number = gw_block_number r,
      block_timestamp = gw_block_timestamp r, block_hash = gw_block_hash r,
      h_created_root = gw_created_root r, h_nullifiers_root = gw_nullifiers_root r,
      h_prior_state_history_root = gw_prior_state_history_root r \<rparr>
    \<and> list_all2 (proof_entry_ok P L (gw_created_root r)) cs (gw_created_proofs r)"
proof -
  from assms(5) obtain head ws a where head: "slot_state_at_head db = Some head"
    and a: "array_from_db P (created_root (roots (ss_state head))) = Ok a"
    and ws: "omap (prove_one P a (created_indices db cs)) cs = Ok ws"
    and r: "gw_state_root r = state_root (metadata (ss_state head))"
      "gw_created_root r = created_root (roots (ss_state head))"
      "gw_created_proofs r = map object_proof_response_of (zip cs ws)"
      "\<lparr> block_number = gw_block_number r,
      block_timestamp = gw_block_timestamp r, block_hash = gw_block_hash r,
      h_created_root = gw_created_root r, h_nullifiers_root = gw_nullifiers_root r,
      h_prior_state_history_root = gw_prior_state_history_root r \<rparr> = don_state_header P (ss_state head)"
    by (auto simp: post_grounding_witness_def Let_def slot_state_at_head_with_created_indices_def
        prove_created_for_def open_created_def prove_one_def [abs_def] don_state_header_def state_header_def)
  have srt: "log_sorted db" using assms(4) by (simp add: ledger_inv_def)
  have "list_all2 (\<lambda>c w. prove_one P a (created_indices db cs) c = Ok w) cs ws"
    using ws by (simp add: omap_Ok_iff)
  then have "list_all2 (proof_entry_ok P L (gw_created_root r)) cs (gw_created_proofs r)"
    using prove_one_ok [OF assms(1,2,4) head nth_mem a]
    by (simp add: list_all2_conv_all_nth r)
  then show ?thesis using head_header_hash [OF assms(3) srt head] r by simp
qed

lemma demo_grounding: "\<exists>r. post_grounding_witness sym_pod2 demo_db1 (p_created demo_payload) = Ok r"
  unfolding demo_db1_def demo_db0_def demo_commit_def demo_slot_def 
  by (simp add: demo_simps api_simps post_grounding_witness_def ensure_hash_query_limit_def prove_created_for_def del: obind_Ok_iff)

theorem grounding_witness_exact_witness:
  "\<exists>L r. ledger_inv sym_pod2 map_of set demo_db1 L
     \<and> post_grounding_witness sym_pod2 demo_db1 (p_created demo_payload) = Ok r
     \<and> list_all2 (proof_entry_ok sym_pod2 L (gw_created_root r)) (p_created demo_payload) (gw_created_proofs r)"
proof -
  obtain L where L: "ledger_inv sym_pod2 map_of set demo_db1 L"
    using ledger_inv_reach [OF sym_pod2_sound demo_reach1] by blast
  obtain r where r: "post_grounding_witness sym_pod2 demo_db1 (p_created demo_payload) = Ok r"
    using demo_grounding by blast
  show ?thesis
    using grounding_witness_exact [OF sym_pod2_sound sym_pod2_live demo_reach1 L r] L r by blast
qed

section \<open>Transaction statuses\<close>

lemma log_sorted_reach:
  assumes "reach commit_slot rollback_to_slot (2 ^ 31) (may_commit P parse) empty_log db"
  shows "log_sorted db"
  using log_store.reach_linear [OF may_commit_ordered assms]
proof (induction rule: linear.induct)
  case linear_init
  then show ?case by (simp add: log_sorted_def empty_log_def slot_numbers_def)
qed (auto simp: may_commit_def intro: log_sorted_commit)

lemma status_rows_decode:
  assumes "reach commit_slot rollback_to_slot (2 ^ 31) (may_commit P parse) empty_log db"
    and "t \<in> set (tx_statuses db)"
  shows "\<exists>r c. r \<in> set (slots db) \<and> row_at db (tr_slot t) = Some r \<and> sr_state r = Some c
    \<and> decode_tx_blob_status_row db t = Ok \<lparr> tbs_tx_hash = tr_tx_hash t,
        tbs_tx_blob_index = as_u32 (tr_tx_blob_index t), tbs_tx_final = tr_tx_final t,
        tbs_error = tr_error t, tbs_block_number = el_block_number c, tbs_block_hash = el_block_hash c \<rparr>"
proof -
  obtain r c where r: "r \<in> set (slots db)" "sr_slot r = tr_slot t" "sr_state r = Some c"
    using rows_coherent_reach [OF assms(1)] assms(2) by (fastforce simp: rows_coherent_def)
  moreover have "row_at db (tr_slot t) = Some r"
    using row_at_sorted [OF log_sorted_reach [OF assms(1)] r(1)] r(2) by simp
  ultimately show ?thesis by (auto simp: decode_tx_blob_status_row_def)
qed

lemma joined_all:
  assumes "reach commit_slot rollback_to_slot (2 ^ 31) (may_commit P parse) empty_log db"
  shows "joined_tx_rows db = tx_statuses db"
  using status_rows_decode [OF assms] by (fastforce simp: joined_tx_rows_def filter_id_conv)

text \<open>C11. The status of a transaction is found by its \<open>tx_final\<close>. On a reachable log the query always
  answers; it finds nothing exactly when no stored blob carries the commitment, and otherwise it
  reports a stored blob that does, an applied one whenever any of them was applied.\<close>

theorem tx_final_status_exact:
  assumes "reach commit_slot rollback_to_slot (2 ^ 31) (may_commit P parse) empty_log db"
  shows "\<exists>res. tx_status_by_tx_final db f = Ok res
    \<and> (res = None \<longleftrightarrow> f \<notin> {x. \<exists>t \<in> set (tx_statuses db). tr_tx_final t = Some x})
    \<and> (\<forall>b. res = Some b \<longrightarrow> (\<exists>t \<in> set (tx_statuses db). tr_tx_final t = Some f
         \<and> tbs_tx_final b = Some f \<and> tbs_tx_hash b = tr_tx_hash t \<and> tbs_error b = tr_error t)
         \<and> (tbs_error b = None \<longleftrightarrow> (\<exists>t \<in> set (tx_statuses db). tr_tx_final t = Some f \<and> tr_error t = None)))"
proof -
  let ?ts = "filter (\<lambda>t. tr_tx_final t = Some f) (tx_statuses db)"
  note st = tx_status_by_tx_final_def joined_all [OF assms]
  show ?thesis
  proof (cases "sort_key tx_final_order ?ts")
    case Nil
    then have "?ts = []" by (metis length_0_conv length_sort)
    then show ?thesis by (auto simp: st filter_empty_conv)
  next
    case (Cons t ts)
    have t: "t \<in> set (tx_statuses db)" "tr_tx_final t = Some f"
      using arg_cong [OF Cons, of set] by auto
    have "tx_final_order t \<le> tx_final_order u" if "u \<in> set ?ts" for u
    proof -
      have "u \<in> set (t # ts)" using that arg_cong [OF Cons, of set] by (metis set_sort)
      moreover have "sorted (map tx_final_order (t # ts))" by (metis Cons sorted_sort_key)
      ultimately show ?thesis by auto
    qed
    then have min: "tr_error t = None" if "u \<in> set (tx_statuses db)" "tr_tx_final u = Some f" "tr_error u = None" for u
      using that by (fastforce simp: tx_final_order_def less_eq_prod_def)
    show ?thesis
      using status_rows_decode [OF assms t(1)] t min by (auto simp: st Cons)
  qed
qed

lemma demo_statuses: "tx_statuses demo_db1 =
    [\<lparr> tr_slot = 6, tr_tx_hash = [], tr_tx_blob_index = 0, tr_tx_final = Some (Atom 9), tr_error = None \<rparr>]"
  unfolding demo_db1_def demo_db0_def demo_commit_def demo_slot_def
  by (simp add: demo_simps del: obind_Ok_iff)

theorem tx_final_status_exact_witness:
  "\<exists>b. tx_status_by_tx_final demo_db1 (Atom 9) = Ok (Some b) \<and> tbs_error b = None"
  using tx_final_status_exact [OF demo_reach1, of "Atom 9"] by (auto simp: demo_statuses)

text \<open>The primary key of the status rows.\<close>

lemma tx_keys_reach:
  assumes "reach commit_slot rollback_to_slot (2 ^ 31) (may_commit P parse) empty_log db"
  shows "distinct (map tx_key (tx_statuses db))"
  using log_store.reach_linear [OF may_commit_ordered assms]
proof (induction rule: linear.induct)
  case (linear_commit d c d')
  obtain d1 d2 where i: "insert_slot_row (slot_row_of c) d = Ok d1" and cr: "ofold insert_created_row (created_rows_of c) d1 = Ok d2"
    and tx: "ofold insert_tx_row (concat (map (tx_rows_of (ps_slot c)) (ps_tx_statuses c))) d2 = Ok d'"
    using linear_commit.hyps(3) by (auto simp: commit_slot_def slot_row_of_def created_rows_of_def)
  have "tx_statuses d1 = tx_statuses d" using i by (auto simp: insert_slot_row_def split: if_splits)
  moreover have "tx_statuses d2 = tx_statuses d1"
    by (rule ofold_invariant [OF cr]) (auto simp: insert_created_row_def split: if_splits)
  ultimately have "distinct (map tx_key (tx_statuses d2))" using linear_commit.IH by simp
  then show ?case
    by (rule ofold_invariant [OF tx]) (auto simp: insert_tx_row_def tx_key_def split: if_splits)
qed (simp add: empty_log_def)

text \<open>The status of a stored blob, with the execution block of its slot.\<close>

definition row_status :: "'h state_log \<Rightarrow> 'h tx_row \<Rightarrow> 'h tx_blob_status \<Rightarrow> bool" where
  "row_status db t b \<longleftrightarrow> (\<exists>r c. r \<in> set (slots db) \<and> sr_slot r = tr_slot t \<and> sr_state r = Some c
     \<and> b = \<lparr> tbs_tx_hash = tr_tx_hash t, tbs_tx_blob_index = as_u32 (tr_tx_blob_index t), tbs_tx_final = tr_tx_final t,
            tbs_error = tr_error t, tbs_block_number = el_block_number c, tbs_block_hash = el_block_hash c \<rparr>)"

lemma statuses_in_blob_order:
  assumes "reach commit_slot rollback_to_slot (2 ^ 31) (may_commit P parse) empty_log db"
  defines "rows \<equiv> \<lambda>h. sort_key tr_tx_blob_index (filter (\<lambda>t. tr_tx_hash t = h) (tx_statuses db))"
  shows "\<exists>bs. tx_statuses_by_tx_hash db h = Ok bs \<and> list_all2 (row_status db) (rows h) bs"
    and "sorted_wrt (<) (map tr_tx_blob_index (rows h))"
proof -
  have dec: "\<exists>b. decode_tx_blob_status_row db t = Ok b \<and> row_status db t b" if "t \<in> set (rows h)" for t
  proof -
    have "t \<in> set (tx_statuses db)" using that by (simp add: rows_def)
    from status_rows_decode [OF assms(1) this] show ?thesis
      by (auto simp: row_status_def row_at_def dest: find_Some_in)
  qed
  then obtain d where d: "\<And>t. t \<in> set (rows h) \<Longrightarrow> decode_tx_blob_status_row db t = Ok (d t) \<and> row_status db t (d t)" by metis
  have rows: "rows h = sort_key tr_tx_blob_index (filter (\<lambda>t. tr_tx_hash t = h) (tx_statuses db))" by (simp add: rows_def)
  have "tx_statuses_by_tx_hash db h = Ok (map d (rows h))"
    unfolding tx_statuses_by_tx_hash_def joined_all [OF assms(1)] rows [symmetric] by (rule omap_all_Ok) (use d in auto)
  moreover have "list_all2 (row_status db) (rows h) (map d (rows h))"
    using d by (auto simp: list_all2_conv_all_nth)
  ultimately show "\<exists>bs. tx_statuses_by_tx_hash db h = Ok bs \<and> list_all2 (row_status db) (rows h) bs" by blast
  have "distinct (map tx_key (filter (\<lambda>t. tr_tx_hash t = h) (tx_statuses db)))"
    using tx_keys_reach [OF assms(1)] by (rule distinct_map_filter)
  then have "inj_on tr_tx_blob_index (set (rows h))" and "distinct (rows h)"
    by (auto simp: rows_def distinct_map inj_on_def tx_key_def)
  then show "sorted_wrt (<) (map tr_tx_blob_index (rows h))"
    unfolding strict_sorted_iff by (simp add: distinct_map rows_def)
qed

text \<open>C12. The status endpoint by transaction hash answers in every case. Text that is not a hash is a 400; a failing
  database is a 500; on a reachable log, a transaction of which no blob is stored is a 404, and otherwise the answer lists
  one status per stored blob of the transaction, in the order of their index in the transaction (no index comes twice), each with the blob's own
  index, commitment and error and the number and hash of the execution block of the slot it is stored with.\<close>

theorem tx_status_endpoint_total:
  assumes "reach commit_slot rollback_to_slot (2 ^ 31) (may_commit P parse) empty_log db"
  shows "(parse_b256 s = Err e \<longrightarrow> get_tx_status_by_tx_hash parse_b256 database s = Err (400, ''invalid transaction hash: '' @ e))
    \<and> (parse_b256 s = Ok h \<longrightarrow> get_tx_status_by_tx_hash parse_b256 (Err e') s = Err (500, e'))
    \<and> (parse_b256 s = Ok h \<and> h \<notin> tr_tx_hash ` set (tx_statuses db) \<longrightarrow>
        get_tx_status_by_tx_hash parse_b256 (Ok db) s = Err (404, ''no committed transaction '' @ s))
    \<and> (parse_b256 s = Ok h \<and> h \<in> tr_tx_hash ` set (tx_statuses db) \<longrightarrow>
        (\<exists>rows bs. get_tx_status_by_tx_hash parse_b256 (Ok db) s = Ok bs
           \<and> set rows = {t \<in> set (tx_statuses db). tr_tx_hash t = h} \<and> sorted_wrt (<) (map tr_tx_blob_index rows)
           \<and> list_all2 (row_status db) rows bs))"
proof -
  let ?rows = "sort_key tr_tx_blob_index (filter (\<lambda>t. tr_tx_hash t = h) (tx_statuses db))"
  obtain bs where bs: "tx_statuses_by_tx_hash db h = Ok bs" "list_all2 (row_status db) ?rows bs"
    using statuses_in_blob_order(1) [OF assms] by blast
  have rows: "set ?rows = {t \<in> set (tx_statuses db). tr_tx_hash t = h}" by auto
  have "bs = [] \<longleftrightarrow> set ?rows = {}" using list_all2_lengthD [OF bs(2)] by (metis length_0_conv set_empty)
  then have e: "bs = [] \<longleftrightarrow> h \<notin> tr_tx_hash ` set (tx_statuses db)" unfolding rows by auto
  have answer: "get_tx_status_by_tx_hash parse_b256 (Ok db) s
      = (if bs = [] then Err (404, ''no committed transaction '' @ s) else Ok bs)" if "parse_b256 s = Ok h"
    using that bs(1) by (simp add: get_tx_status_by_tx_hash_def NOT_FOUND_def del: obind_Ok_iff)
  show ?thesis
    using answer e rows statuses_in_blob_order(2) [OF assms, of h] bs(2)
    by (auto simp: get_tx_status_by_tx_hash_def BAD_REQUEST_def internal_error_def INTERNAL_SERVER_ERROR_def simp del: obind_Ok_iff)
qed

theorem tx_status_endpoint_total_witness:
  "(\<exists>b. get_tx_status_by_tx_hash (\<lambda>s. Ok []) (Ok demo_db1) ''0x'' = Ok [b] \<and> tbs_tx_final b = Some (Atom 9) \<and> tbs_tx_blob_index b = 0)
   \<and> get_tx_status_by_tx_hash (\<lambda>s. Ok [1]) (Ok demo_db1) ''0x01'' = Err (404, ''no committed transaction 0x01'')"
proof -
  let ?t = "\<lparr> tr_slot = 6, tr_tx_hash = [], tr_tx_blob_index = 0, tr_tx_final = Some (Atom 9), tr_error = None \<rparr> :: sym tx_row"
  note ex = tx_status_endpoint_total [OF demo_reach1, unfolded demo_statuses]
  obtain rows bs where r: "get_tx_status_by_tx_hash (\<lambda>s. Ok []) (Ok demo_db1) ''0x'' = Ok bs" "set rows = {?t}"
    "sorted_wrt (<) (map tr_tx_blob_index rows)" "list_all2 (row_status demo_db1) rows bs"
    using conjunct2 [OF conjunct2 [OF conjunct2 [OF ex [of "\<lambda>s. Ok []" "''0x''" undefined undefined "[]"]]]]
    by (auto simp: Collect_conv_if)
  have "rows = [?t]"
  proof (cases rows)
    case (Cons x xs)
    then show ?thesis using r(2,3) by (cases xs) auto
  qed (use r(2) in simp)
  then obtain b where b: "bs = [b]" "row_status demo_db1 ?t b" using r(4) by (auto simp: list_all2_Cons1)
  then have "tbs_tx_final b = Some (Atom 9)" "tbs_tx_blob_index b = 0" by (auto simp: row_status_def as_u32_def)
  moreover have "get_tx_status_by_tx_hash (\<lambda>s. Ok [1]) (Ok demo_db1) ''0x01'' = Err (404, ''no committed transaction 0x01'')"
    using conjunct1 [OF conjunct2 [OF conjunct2 [OF ex [of "\<lambda>s. Ok [1]" "''0x01''" undefined undefined "[1]"]]]] by simp
  ultimately show ?thesis using r(1) b(1) by blast
qed

end
