(* ===== verification/Relay_Db.thy ===== *)
theory Relay_Db
  imports Prelude
begin

text \<open>
  The relayer's job table (\<open>relayer/src/model.rs\<close>, \<open>relayer/src/db.rs\<close>, \<open>JobStatus\<close> of
  \<open>wire-types/src/relayer.rs\<close>). The table is the list of its rows. Hash columns hold the hash itself:
  they are only ever written with \<open>hash_to_db_bytes\<close>, and that coding reads back.
\<close>

section \<open>Jobs\<close>

datatype job_status = Queued | Sending | Submitted | Confirmed | Failed

fun as_str :: "job_status \<Rightarrow> string" where
  "as_str Queued = ''queued''"
| "as_str Sending = ''sending''"
| "as_str Submitted = ''submitted''"
| "as_str Confirmed = ''confirmed''"
| "as_str Failed = ''failed''"

fun is_terminal :: "job_status \<Rightarrow> bool" where
  "is_terminal Confirmed = True"
| "is_terminal Failed = True"
| "is_terminal _ = False"

definition from_db_str :: "string \<Rightarrow> (string, job_status) outcome" where
  "from_db_str value =
     (if value = ''queued'' then Ok Queued
      else if value = ''sending'' then Ok Sending
      else if value = ''submitted'' then Ok Submitted
      else if value = ''confirmed'' then Ok Confirmed
      else if value = ''failed'' then Ok Failed
      else Err (''invalid job status: '' @ value))"

record 'h relay_job =
  job_id :: string
  status :: job_status
  job_payload_bytes :: "8 word list"
  tx_final :: 'h
  job_state_root :: 'h
  client_ref :: "string option"
  attempt_count :: nat
  tx_hash :: "string option"
  submitted_at :: "int option"
  job_block_number :: "nat option"
  last_error :: "string option"
  next_attempt_at :: "int option"
  nonce :: "int option"
  bump_count :: int
  prev_tx_hashes :: "string list"
  created_at :: int
  updated_at :: int

section \<open>Rows\<close>

text \<open>A row of \<open>relay_jobs\<close>: the status as its text, the counters as signed columns.\<close>

record 'h job_row =
  r_job_id :: string
  r_status :: string
  r_payload_bytes :: "8 word list"
  r_tx_final :: 'h
  r_state_root :: 'h
  r_client_ref :: "string option"
  r_attempt_count :: int
  r_tx_hash :: "string option"
  r_submitted_at :: "int option"
  r_block_number :: "int option"
  r_last_error :: "string option"
  r_next_attempt_at :: "int option"
  r_nonce :: "int option"
  r_bump_count :: int
  r_prev_tx_hashes :: "string list"
  r_created_at :: int
  r_updated_at :: int

type_synonym 'h job_table = "'h job_row list"

text \<open>The parameters bound by \<open>insert_job\<close> and \<open>put_job\<close>.\<close>

definition job_to_row :: "'h relay_job \<Rightarrow> 'h job_row" where
  "job_to_row job =
     \<lparr> r_job_id = job_id job, r_status = as_str (status job), r_payload_bytes = job_payload_bytes job,
       r_tx_final = tx_final job, r_state_root = job_state_root job, r_client_ref = client_ref job,
       r_attempt_count = as_i32 (attempt_count job), r_tx_hash = tx_hash job,
       r_submitted_at = submitted_at job, r_block_number = map_option as_i64 (job_block_number job),
       r_last_error = last_error job, r_next_attempt_at = next_attempt_at job, r_nonce = nonce job,
       r_bump_count = bump_count job, r_prev_tx_hashes = prev_tx_hashes job,
       r_created_at = created_at job, r_updated_at = updated_at job \<rparr>"

definition row_to_job :: "'h job_row \<Rightarrow> (string, 'h relay_job) outcome" where
  "row_to_job row =
     obind (from_db_str (r_status row)) (\<lambda>st.
     obind (if r_attempt_count row < 0
            then Err (''invalid attempt_count: '' @ show_int (r_attempt_count row))
            else Ok (nat (r_attempt_count row))) (\<lambda>attempts.
     obind (case r_block_number row of
              None \<Rightarrow> Ok None
            | Some value \<Rightarrow> if value < 0 then Err (''invalid block_number: '' @ show_int value)
                            else Ok (Some (nat value))) (\<lambda>block.
     Ok \<lparr> job_id = r_job_id row, status = st, job_payload_bytes = r_payload_bytes row,
          tx_final = r_tx_final row, job_state_root = r_state_root row, client_ref = r_client_ref row,
          attempt_count = attempts, tx_hash = r_tx_hash row, submitted_at = r_submitted_at row,
          job_block_number = block, last_error = r_last_error row,
          next_attempt_at = r_next_attempt_at row, nonce = r_nonce row, bump_count = r_bump_count row,
          prev_tx_hashes = r_prev_tx_hashes row, created_at = r_created_at row,
          updated_at = r_updated_at row \<rparr>)))"

definition row_to_job_opt :: "'h job_row option \<Rightarrow> (string, 'h relay_job option) outcome" where
  "row_to_job_opt row =
     (case row of None \<Rightarrow> Ok None | Some r \<Rightarrow> obind (row_to_job r) (\<lambda>j. Ok (Some j)))"

section \<open>Queries and updates\<close>

datatype 'h insert_job_result = Inserted | Existing "'h relay_job"

definition get_job :: "'h job_table \<Rightarrow> string \<Rightarrow> (string, 'h relay_job option) outcome" where
  "get_job db jid = row_to_job_opt (List.find (\<lambda>r. r_job_id r = jid) db)"

definition get_job_by_tx_final :: "'h job_table \<Rightarrow> 'h \<Rightarrow> (string, 'h relay_job option) outcome" where
  "get_job_by_tx_final db f = row_to_job_opt (List.find (\<lambda>r. r_tx_final r = f) db)"

text \<open>\<open>ON CONFLICT (tx_final) DO NOTHING\<close>; a clash on the primary key alone is an error.\<close>

definition insert_job ::
    "'h relay_job \<Rightarrow> 'h job_table \<Rightarrow> (string, 'h insert_job_result) outcome \<times> 'h job_table" where
  "insert_job job db =
     (if tx_final job \<in> r_tx_final ` set db
      then (obind (get_job_by_tx_final db (tx_final job)) (\<lambda>e.
              case e of
                Some existing \<Rightarrow> Ok (Existing existing)
              | None \<Rightarrow> Err ''idempotent insert conflict but existing job not found''), db)
      else if job_id job \<in> r_job_id ` set db
      then (Err ''duplicate key value violates unique constraint relay_jobs_pkey'', db)
      else (Ok Inserted, db @ [job_to_row job]))"

definition put_job :: "'h relay_job \<Rightarrow> 'h job_table \<Rightarrow> (string, unit) outcome \<times> 'h job_table" where
  "put_job job db =
     (if job_id job \<notin> r_job_id ` set db then (Err (''job not found: '' @ job_id job), db)
      else if \<exists>r \<in> set db. r_job_id r \<noteq> job_id job \<and> r_tx_final r = tx_final job
      then (Err ''duplicate key value violates unique constraint relay_jobs_tx_final_key'', db)
      else (Ok (), map (\<lambda>r. if r_job_id r = job_id job then job_to_row job else r) db))"

definition recover_row :: "int \<Rightarrow> 'h job_row \<Rightarrow> 'h job_row" where
  "recover_row now r =
     (if r_status r = ''sending'' \<or> (r_status r = ''submitted'' \<and> r_tx_hash r = None)
      then r\<lparr> r_status := ''queued'', r_next_attempt_at := Some now, r_updated_at := now \<rparr>
      else r)"

definition recover_inflight_jobs :: "int \<Rightarrow> 'h job_table \<Rightarrow> nat \<times> 'h job_table" where
  "recover_inflight_jobs now db =
     (length (filter (\<lambda>r. r_status r = ''sending'' \<or> (r_status r = ''submitted'' \<and> r_tx_hash r = None)) db),
      map (recover_row now) db)"

definition is_due :: "int \<Rightarrow> 'h job_row \<Rightarrow> bool" where
  "is_due now r \<longleftrightarrow> r_status r \<in> {''queued'', ''sending'', ''submitted''}
     \<and> (case r_next_attempt_at r of None \<Rightarrow> True | Some t \<Rightarrow> t \<le> now)"

text \<open>\<open>ORDER BY COALESCE(next_attempt_at, created_at), created_at\<close>, as nested stable sorts; rows that
  tie on both keys come in table order.\<close>

definition due_key :: "'h job_row \<Rightarrow> int" where
  "due_key r = (case r_next_attempt_at r of None \<Rightarrow> r_created_at r | Some t \<Rightarrow> t)"

definition next_due_row :: "'h job_table \<Rightarrow> int \<Rightarrow> 'h job_row option" where
  "next_due_row db now =
     (case sort_key due_key (sort_key r_created_at (filter (is_due now) db)) of
        [] \<Rightarrow> None | r # _ \<Rightarrow> Some r)"

definition next_due_job :: "'h job_table \<Rightarrow> int \<Rightarrow> (string, 'h relay_job option) outcome" where
  "next_due_job db now = row_to_job_opt (next_due_row db now)"

section \<open>Lemmas\<close>

lemma from_db_str_as_str [simp]: "from_db_str (as_str st) = Ok st"
  by (cases st) (simp_all add: from_db_str_def)

lemma from_db_str_Ok_iff: "from_db_str s = Ok st \<longleftrightarrow> s = as_str st"
  by (cases st) (auto simp: from_db_str_def split: if_splits)

text \<open>A job whose counters fit their columns.\<close>

definition job_fits :: "'h relay_job \<Rightarrow> bool" where
  "job_fits job \<longleftrightarrow> attempt_count job < 2 ^ 31 \<and> pred_option (\<lambda>b. b < 2 ^ 63) (job_block_number job)"

lemma row_to_job_to_row: "job_fits job \<Longrightarrow> row_to_job (job_to_row job) = Ok job"
  by (cases "job_block_number job") (auto simp: row_to_job_def job_to_row_def job_fits_def cast_simps)

lemma row_to_jobD:
  assumes "row_to_job r = Ok j"
  shows "job_id j = r_job_id r" "as_str (status j) = r_status r" "job_payload_bytes j = r_payload_bytes r"
    "tx_final j = r_tx_final r" "job_state_root j = r_state_root r" "client_ref j = r_client_ref r"
    "tx_hash j = r_tx_hash r" "next_attempt_at j = r_next_attempt_at r" "created_at j = r_created_at r"
  using assms by (auto simp: row_to_job_def from_db_str_Ok_iff split: if_splits option.splits)

lemma job_to_row_simps [simp]:
  "r_job_id (job_to_row j) = job_id j" "r_status (job_to_row j) = as_str (status j)"
  "r_payload_bytes (job_to_row j) = job_payload_bytes j" "r_tx_final (job_to_row j) = tx_final j"
  "r_state_root (job_to_row j) = job_state_root j" "r_client_ref (job_to_row j) = client_ref j"
  "r_tx_hash (job_to_row j) = tx_hash j" "r_next_attempt_at (job_to_row j) = next_attempt_at j"
  "r_created_at (job_to_row j) = created_at j" "r_attempt_count (job_to_row j) = as_i32 (attempt_count j)"
  by (simp_all add: job_to_row_def)

text \<open>The keys the table declares unique.\<close>

definition table_wf :: "'h job_table \<Rightarrow> bool" where
  "table_wf db \<longleftrightarrow> distinct (map r_job_id db) \<and> distinct (map r_tx_final db)"

lemma next_due_row_spec:
  "(case next_due_row db now of
      None \<Rightarrow> \<forall>r \<in> set db. \<not> is_due now r
    | Some r \<Rightarrow> r \<in> set db \<and> is_due now r
        \<and> (\<forall>r' \<in> set db. is_due now r' \<longrightarrow> due_key r < due_key r'
             \<or> due_key r = due_key r' \<and> r_created_at r \<le> r_created_at r'))"
proof (cases "sort_key due_key (sort_key r_created_at (filter (is_due now) db))")
  case Nil
  then have "set (filter (is_due now) db) = {}" by (metis set_empty set_sort)
  then show ?thesis by (auto simp: next_due_row_def Nil)
next
  case (Cons r rs)
  have mem: "set (r # rs) = set (filter (is_due now) db)" by (metis Cons set_sort)
  have srt: "sorted (map due_key (r # rs))" by (metis Cons sorted_sort_key)
  have stable: "filter (\<lambda>x. due_key x = k) (r # rs)
      = filter (\<lambda>x. due_key x = k) (sort_key r_created_at (filter (is_due now) db))" for k
    using sort_key_stable [of due_key k "sort_key r_created_at (filter (is_due now) db)"] by (simp add: Cons)
  have "sorted (map r_created_at (filter (\<lambda>x. due_key x = due_key r) (r # rs)))"
    unfolding stable by (intro sorted_filter sorted_sort_key)
  then have "\<forall>r' \<in> set (r # rs). due_key r < due_key r'
      \<or> due_key r = due_key r' \<and> r_created_at r \<le> r_created_at r'"
    using srt by (fastforce simp: le_less)
  moreover have "r \<in> set (filter (is_due now) db)" unfolding mem [symmetric] by simp
  ultimately show ?thesis unfolding mem by (simp add: next_due_row_def Cons)
qed

end
