(* ===== verification/Relay_Worker.thy ===== *)
theory Relay_Worker
  imports Relay_Db
begin

text \<open>
  The relayer's worker (\<open>relayer/src/worker.rs\<close>) over the Ethereum gateway trait of
  \<open>relayer/src/eth.rs\<close>. Each operation returns its result and the job table, which keeps the
  writes made before a failure. The clock and the gateway's answers are arguments of a step; a
  gateway that panics stands for the process dying at that call.
\<close>

section \<open>The gateway\<close>

record receipt_outcome =
  success :: bool
  ro_block_number :: "nat option"

record fee_estimate =
  base_fee_per_gas :: nat
  fe_max_priority_fee_per_gas :: nat

record pending_tx_fees =
  pf_max_fee_per_gas :: nat
  pf_max_priority_fee_per_gas :: nat
  pf_max_fee_per_blob_gas :: "nat option"

record fee_overrides =
  fo_max_fee_per_gas :: nat
  fo_max_priority_fee_per_gas :: nat
  fo_max_fee_per_blob_gas :: "nat option"

record eth_gateway =
  submit_payload :: "8 word list \<Rightarrow> nat \<Rightarrow> (string, string) outcome"
  poll_receipt :: "string \<Rightarrow> (string, receipt_outcome option) outcome"
  get_next_nonce :: "(string, nat) outcome"
  get_current_fees :: "(string, fee_estimate) outcome"
  get_pending_tx_fees :: "string \<Rightarrow> (string, pending_tx_fees option) outcome"
  submit_payload_with_fees :: "8 word list \<Rightarrow> nat \<Rightarrow> fee_overrides \<Rightarrow> (string, string) outcome"

record worker_config =
  max_attempts :: nat
  retry_initial_secs :: nat
  retry_max_secs :: nat
  receipt_poll_secs :: nat
  receipt_timeout_secs :: "nat option"
  idle_sleep_ms :: nat
  fee_bump_after_secs :: "nat option"
  fee_bump_multiplier_pct :: nat
  fee_bump_max :: nat

section \<open>Retries and failures\<close>

definition backoff_secs :: "nat \<Rightarrow> nat \<Rightarrow> nat \<Rightarrow> nat" where
  "backoff_secs attempts initial max_secs =
     (let shift = min (attempts - 1) 20
      in min (u64_sat_mul initial (2 ^ shift)) max_secs)"

definition contains_text :: "string \<Rightarrow> string \<Rightarrow> bool" where
  "contains_text s pat = list_ex (\<lambda>i. take (length pat) (drop i s) = pat) [0 ..< Suc (length s)]"

definition is_permanent_error :: "string \<Rightarrow> bool" where
  "is_permanent_error err = contains_text err ''invalid tx hash''"

definition schedule_retry_or_fail ::
    "worker_config \<Rightarrow> 'h relay_job \<Rightarrow> int \<Rightarrow> string \<Rightarrow> 'h job_table \<Rightarrow> (string, unit) outcome \<times> 'h job_table" where
  "schedule_retry_or_fail cfg job now msg db =
     (if attempt_count job \<ge> max_attempts cfg
      then put_job (job\<lparr> status := Failed, next_attempt_at := None, last_error := Some msg,
                         updated_at := now \<rparr>) db
      else let backoff = backoff_secs (attempt_count job) (retry_initial_secs cfg) (retry_max_secs cfg)
           in put_job (job\<lparr> status := Queued, next_attempt_at := Some (wrap_i64 (now + as_i64 backoff)),
                            last_error := Some msg, updated_at := now \<rparr>) db)"

definition fail_job_with_block ::
    "'h relay_job \<Rightarrow> int \<Rightarrow> nat option \<Rightarrow> string \<Rightarrow> 'h job_table \<Rightarrow> (string, unit) outcome \<times> 'h job_table" where
  "fail_job_with_block job now block reason db =
     put_job (job\<lparr> status := Failed, job_block_number := block, next_attempt_at := None,
                   last_error := Some reason, updated_at := now \<rparr>) db"

section \<open>Fee bumps\<close>

definition apply_bump :: "nat \<Rightarrow> nat \<Rightarrow> nat" where
  "apply_bump multiplier_pct base = u128_sat_mul base (100 + multiplier_pct) div 100"

definition bumped_fees :: "nat \<Rightarrow> fee_estimate \<Rightarrow> pending_tx_fees \<Rightarrow> fee_overrides" where
  "bumped_fees multiplier_pct network original =
     (let base_priority = max (pf_max_priority_fee_per_gas original) (fe_max_priority_fee_per_gas network);
          base_max_fee = max (pf_max_fee_per_gas original)
                           (u128_add (base_fee_per_gas network) base_priority)
      in \<lparr> fo_max_fee_per_gas = apply_bump multiplier_pct base_max_fee,
           fo_max_priority_fee_per_gas = apply_bump multiplier_pct base_priority,
           fo_max_fee_per_blob_gas = map_option (apply_bump multiplier_pct) (pf_max_fee_per_blob_gas original) \<rparr>)"

definition try_fee_bump ::
    "eth_gateway \<Rightarrow> worker_config \<Rightarrow> 8 word list \<Rightarrow> nat \<Rightarrow> string \<Rightarrow> (string, string option) outcome" where
  "try_fee_bump G cfg bytes n current_tx_hash =
     obind (get_current_fees G) (\<lambda>network.
     obind (get_pending_tx_fees G current_tx_hash) (\<lambda>pending.
     case pending of
       None \<Rightarrow> Ok None
     | Some original \<Rightarrow>
         obind (submit_payload_with_fees G bytes n
                  (bumped_fees (fee_bump_multiplier_pct cfg) network original)) (\<lambda>h. Ok (Some h))))"

section \<open>Submitting and polling\<close>

definition next_poll :: "worker_config \<Rightarrow> int \<Rightarrow> int option" where
  "next_poll cfg now = Some (wrap_i64 (now + as_i64 (receipt_poll_secs cfg)))"

definition send_queued_job ::
    "eth_gateway \<Rightarrow> worker_config \<Rightarrow> int \<Rightarrow> 'h relay_job \<Rightarrow> 'h job_table \<Rightarrow> (string, unit) outcome \<times> 'h job_table" where
  "send_queued_job G cfg now job0 db0 =
     (let job = job0\<lparr> status := Sending, attempt_count := u32_sat_add (attempt_count job0) 1,
                      updated_at := now \<rparr>
      in sbind (put_job job db0) (\<lambda>_ db.
         case get_next_nonce G of
           Err e \<Rightarrow> (Err e, db)
         | Panic \<Rightarrow> (Panic, db)
         | Ok n \<Rightarrow>
             (case submit_payload G (job_payload_bytes job) n of
                Ok h \<Rightarrow> put_job (job\<lparr> status := Submitted, tx_hash := Some h, submitted_at := Some now,
                                     next_attempt_at := next_poll cfg now, last_error := None,
                                     nonce := Some (as_i64 n), bump_count := 0, updated_at := now \<rparr>) db
              | Err e \<Rightarrow> schedule_retry_or_fail cfg job now e db
              | Panic \<Rightarrow> (Panic, db))))"

text \<open>The scan of the replaced transactions, most recent first.\<close>

fun find_mined :: "eth_gateway \<Rightarrow> string list \<Rightarrow> (string, (string \<times> nat option) option) outcome" where
  "find_mined G [] = Ok None"
| "find_mined G (h # hs) =
     (case poll_receipt G h of
        Panic \<Rightarrow> Panic
      | Ok (Some receipt) \<Rightarrow>
          if success receipt then Ok (Some (h, ro_block_number receipt)) else find_mined G hs
      | _ \<Rightarrow> find_mined G hs)"

definition keep_polling ::
    "worker_config \<Rightarrow> int \<Rightarrow> 'h relay_job \<Rightarrow> 'h job_table \<Rightarrow> (string, unit) outcome \<times> 'h job_table" where
  "keep_polling cfg now job db =
     put_job (job\<lparr> status := Submitted, next_attempt_at := next_poll cfg now, updated_at := now \<rparr>) db"

text \<open>The transaction left the mempool: either its nonce was used, by one of the replaced
  transactions or by one without a receipt yet, or it was dropped.\<close>

definition on_tx_gone ::
    "eth_gateway \<Rightarrow> worker_config \<Rightarrow> int \<Rightarrow> int \<Rightarrow> 'h relay_job \<Rightarrow> 'h job_table
     \<Rightarrow> (string, unit) outcome \<times> 'h job_table" where
  "on_tx_gone G cfg now n job db =
     (let stopped = job\<lparr> bump_count := as_i32 (fee_bump_max cfg), updated_at := now \<rparr>;
          dropped = sbind (put_job stopped db) (\<lambda>_ db. keep_polling cfg now stopped db)
      in case get_next_nonce G of
           Panic \<Rightarrow> (Panic, db)
         | Err _ \<Rightarrow> dropped
         | Ok current_nonce \<Rightarrow>
             if current_nonce > as_u64 n
             then (case find_mined G (rev (prev_tx_hashes job)) of
                     Ok (Some (h, block)) \<Rightarrow>
                       put_job (job\<lparr> tx_hash := Some h, status := Confirmed,
                                     job_block_number := (case block of None \<Rightarrow> job_block_number job | Some b \<Rightarrow> Some b),
                                     next_attempt_at := None, last_error := None, updated_at := now \<rparr>) db
                   | Ok None \<Rightarrow>
                       put_job (job\<lparr> bump_count := as_i32 (fee_bump_max cfg),
                                     next_attempt_at := next_poll cfg now, updated_at := now \<rparr>) db
                   | Err e \<Rightarrow> (Err e, db)
                   | Panic \<Rightarrow> (Panic, db))
             else dropped)"

definition bump_due :: "worker_config \<Rightarrow> int \<Rightarrow> 'h relay_job \<Rightarrow> int option" where
  "bump_due cfg now job =
     (case (fee_bump_after_secs cfg, submitted_at job, nonce job) of
        (Some bump_after, Some t, Some n) \<Rightarrow>
          let bump_threshold = wrap_i64 (as_i64 bump_after * wrap_i64 (bump_count job + 1));
              elapsed = i64_sat_sub now t
          in if elapsed \<ge> bump_threshold \<and> as_u32 (bump_count job) < fee_bump_max cfg then Some n else None
      | _ \<Rightarrow> None)"

definition on_no_receipt ::
    "eth_gateway \<Rightarrow> worker_config \<Rightarrow> int \<Rightarrow> string \<Rightarrow> 'h relay_job \<Rightarrow> 'h job_table
     \<Rightarrow> (string, unit) outcome \<times> 'h job_table" where
  "on_no_receipt G cfg now h job db =
     (case bump_due cfg now job of
        None \<Rightarrow> keep_polling cfg now job db
      | Some n \<Rightarrow>
          (case try_fee_bump G cfg (job_payload_bytes job) (as_u64 n) h of
             Ok (Some new_tx_hash) \<Rightarrow>
               put_job (job\<lparr> prev_tx_hashes := prev_tx_hashes job @ [h], tx_hash := Some new_tx_hash,
                             bump_count := wrap_i32 (bump_count job + 1),
                             next_attempt_at := next_poll cfg now, updated_at := now \<rparr>) db
           | Ok None \<Rightarrow> on_tx_gone G cfg now n job db
           | Err _ \<Rightarrow> keep_polling cfg now job db
           | Panic \<Rightarrow> (Panic, db)))"

definition timed_out :: "worker_config \<Rightarrow> int \<Rightarrow> 'h relay_job \<Rightarrow> nat option" where
  "timed_out cfg now job =
     (case (receipt_timeout_secs cfg, submitted_at job) of
        (Some timeout, Some t) \<Rightarrow> if i64_sat_sub now t \<ge> as_i64 timeout then Some timeout else None
      | _ \<Rightarrow> None)"

definition poll_submitted_job ::
    "eth_gateway \<Rightarrow> worker_config \<Rightarrow> int \<Rightarrow> 'h relay_job \<Rightarrow> 'h job_table \<Rightarrow> (string, unit) outcome \<times> 'h job_table" where
  "poll_submitted_job G cfg now job0 db0 =
     (case tx_hash job0 of
        None \<Rightarrow> (Err ''submitted job missing tx_hash'', db0)
      | Some h \<Rightarrow>
          (case timed_out cfg now job0 of
             Some timeout \<Rightarrow>
               fail_job_with_block job0 now (job_block_number job0)
                 (''receipt timeout after '' @ show_nat timeout @ ''s'') db0
           | None \<Rightarrow>
               let job = job0\<lparr> updated_at := now \<rparr>
               in sbind (put_job job db0) (\<lambda>_ db.
                  case poll_receipt G h of
                    Ok (Some receipt) \<Rightarrow>
                      if success receipt
                      then put_job (job\<lparr> status := Confirmed, job_block_number := ro_block_number receipt,
                                         next_attempt_at := None, last_error := None, updated_at := now \<rparr>) db
                      else fail_job_with_block job now (ro_block_number receipt)
                             ''transaction reverted on-chain'' db
                  | Ok None \<Rightarrow> on_no_receipt G cfg now h job db
                  | Err e \<Rightarrow>
                      if is_permanent_error e
                      then fail_job_with_block job now (job_block_number job) e db
                      else schedule_retry_or_fail cfg job now e db
                  | Panic \<Rightarrow> (Panic, db))))"

definition process_due_job ::
    "eth_gateway \<Rightarrow> worker_config \<Rightarrow> int \<Rightarrow> 'h relay_job \<Rightarrow> 'h job_table \<Rightarrow> (string, unit) outcome \<times> 'h job_table" where
  "process_due_job G cfg now job db =
     (if is_terminal (status job) then (Ok (), db)
      else if tx_hash job \<noteq> None then poll_submitted_job G cfg now job db
      else send_queued_job G cfg now job db)"

text \<open>One iteration of \<open>run_worker\<close>: the pick at one reading of the clock, the processing at a
  later one. A failure to process is logged and the loop goes on; a failure to read the table ends it.\<close>

datatype worker_event = Idle | Processed | WorkerFailed string | WorkerDied

definition worker_step ::
    "eth_gateway \<Rightarrow> worker_config \<Rightarrow> int \<Rightarrow> int \<Rightarrow> 'h job_table \<Rightarrow> worker_event \<times> 'h job_table" where
  "worker_step G cfg now now' db =
     (case next_due_job db now of
        Err e \<Rightarrow> (WorkerFailed e, db)
      | Panic \<Rightarrow> (WorkerDied, db)
      | Ok None \<Rightarrow> (Idle, db)
      | Ok (Some job) \<Rightarrow>
          (case process_due_job G cfg now' job db of
             (Panic, db') \<Rightarrow> (WorkerDied, db')
           | (_, db') \<Rightarrow> (Processed, db')))"

end
