(* ===== verification/Relay_Machine.thy ===== *)
theory Relay_Machine
  imports Relay_Worker
begin

text \<open>
  An abstract account of the relayer's worker: a state machine on one job, without the table. The
  refinement shows that processing a picked job does to the table exactly what the machine does to
  the job, whatever the number of writes on the way.
\<close>

section \<open>The machine\<close>

definition retry_job :: "worker_config \<Rightarrow> int \<Rightarrow> string \<Rightarrow> 'h relay_job \<Rightarrow> 'h relay_job" where
  "retry_job cfg now msg job =
     (if attempt_count job \<ge> max_attempts cfg
      then job\<lparr> status := Failed, next_attempt_at := None, last_error := Some msg, updated_at := now \<rparr>
      else job\<lparr> status := Queued,
                next_attempt_at := Some (wrap_i64 (now + as_i64 (backoff_secs (attempt_count job)
                  (retry_initial_secs cfg) (retry_max_secs cfg)))),
                last_error := Some msg, updated_at := now \<rparr>)"

definition failed_job :: "int \<Rightarrow> nat option \<Rightarrow> string \<Rightarrow> 'h relay_job \<Rightarrow> 'h relay_job" where
  "failed_job now block reason job =
     job\<lparr> status := Failed, job_block_number := block, next_attempt_at := None,
          last_error := Some reason, updated_at := now \<rparr>"

definition confirmed_job :: "int \<Rightarrow> string \<Rightarrow> nat option \<Rightarrow> 'h relay_job \<Rightarrow> 'h relay_job" where
  "confirmed_job now h block job =
     job\<lparr> tx_hash := Some h, status := Confirmed, job_block_number := block, next_attempt_at := None,
          last_error := None, updated_at := now \<rparr>"

definition polling_job :: "worker_config \<Rightarrow> int \<Rightarrow> 'h relay_job \<Rightarrow> 'h relay_job" where
  "polling_job cfg now job =
     job\<lparr> status := Submitted, next_attempt_at := next_poll cfg now, updated_at := now \<rparr>"

definition sending_job :: "int \<Rightarrow> 'h relay_job \<Rightarrow> 'h relay_job" where
  "sending_job now job =
     job\<lparr> status := Sending, attempt_count := u32_sat_add (attempt_count job) 1, updated_at := now \<rparr>"

definition submitted_job :: "worker_config \<Rightarrow> int \<Rightarrow> string \<Rightarrow> nat \<Rightarrow> 'h relay_job \<Rightarrow> 'h relay_job" where
  "submitted_job cfg now h n job =
     job\<lparr> status := Submitted, tx_hash := Some h, submitted_at := Some now,
          next_attempt_at := next_poll cfg now, last_error := None, nonce := Some (as_i64 n),
          bump_count := 0, updated_at := now \<rparr>"

definition send_machine ::
    "eth_gateway \<Rightarrow> worker_config \<Rightarrow> int \<Rightarrow> 'h relay_job \<Rightarrow> (string, unit) outcome \<times> 'h relay_job" where
  "send_machine G cfg now job0 =
     (let job = sending_job now job0
      in case get_next_nonce G of
           Err e \<Rightarrow> (Err e, job)
         | Panic \<Rightarrow> (Panic, job)
         | Ok n \<Rightarrow>
             (case submit_payload G (job_payload_bytes job) n of
                Ok h \<Rightarrow> (Ok (), submitted_job cfg now h n job)
              | Err e \<Rightarrow> (Ok (), retry_job cfg now e job)
              | Panic \<Rightarrow> (Panic, job)))"

definition gone_machine ::
    "eth_gateway \<Rightarrow> worker_config \<Rightarrow> int \<Rightarrow> int \<Rightarrow> 'h relay_job \<Rightarrow> (string, unit) outcome \<times> 'h relay_job" where
  "gone_machine G cfg now n job =
     (let stopped = job\<lparr> bump_count := as_i32 (fee_bump_max cfg), updated_at := now \<rparr>;
          dropped = (Ok (), polling_job cfg now stopped)
      in case get_next_nonce G of
           Panic \<Rightarrow> (Panic, job)
         | Err _ \<Rightarrow> dropped
         | Ok current_nonce \<Rightarrow>
             if current_nonce > as_u64 n
             then (case find_mined G (rev (prev_tx_hashes job)) of
                     Ok (Some (h, block)) \<Rightarrow>
                       (Ok (), confirmed_job now h
                          (case block of None \<Rightarrow> job_block_number job | Some b \<Rightarrow> Some b) job)
                   | Ok None \<Rightarrow> (Ok (), job\<lparr> bump_count := as_i32 (fee_bump_max cfg),
                                         next_attempt_at := next_poll cfg now, updated_at := now \<rparr>)
                   | Err e \<Rightarrow> (Err e, job)
                   | Panic \<Rightarrow> (Panic, job))
             else dropped)"

definition no_receipt_machine ::
    "eth_gateway \<Rightarrow> worker_config \<Rightarrow> int \<Rightarrow> string \<Rightarrow> 'h relay_job \<Rightarrow> (string, unit) outcome \<times> 'h relay_job" where
  "no_receipt_machine G cfg now h job =
     (case bump_due cfg now job of
        None \<Rightarrow> (Ok (), polling_job cfg now job)
      | Some n \<Rightarrow>
          (case try_fee_bump G cfg (job_payload_bytes job) (as_u64 n) h of
             Ok (Some new_tx_hash) \<Rightarrow>
               (Ok (), job\<lparr> prev_tx_hashes := prev_tx_hashes job @ [h], tx_hash := Some new_tx_hash,
                             bump_count := wrap_i32 (bump_count job + 1),
                             next_attempt_at := next_poll cfg now, updated_at := now \<rparr>)
           | Ok None \<Rightarrow> gone_machine G cfg now n job
           | Err _ \<Rightarrow> (Ok (), polling_job cfg now job)
           | Panic \<Rightarrow> (Panic, job)))"

definition poll_machine ::
    "eth_gateway \<Rightarrow> worker_config \<Rightarrow> int \<Rightarrow> string \<Rightarrow> 'h relay_job \<Rightarrow> (string, unit) outcome \<times> 'h relay_job" where
  "poll_machine G cfg now h job0 =
     (case timed_out cfg now job0 of
        Some timeout \<Rightarrow>
          (Ok (), failed_job now (job_block_number job0)
             (''receipt timeout after '' @ show_nat timeout @ ''s'') job0)
      | None \<Rightarrow>
          let job = job0\<lparr> updated_at := now \<rparr>
          in (case poll_receipt G h of
                Ok (Some receipt) \<Rightarrow>
                  if success receipt
                  then (Ok (), confirmed_job now h (ro_block_number receipt) job)
                  else (Ok (), failed_job now (ro_block_number receipt) ''transaction reverted on-chain'' job)
              | Ok None \<Rightarrow> no_receipt_machine G cfg now h job
              | Err e \<Rightarrow>
                  if is_permanent_error e then (Ok (), failed_job now (job_block_number job) e job)
                  else (Ok (), retry_job cfg now e job)
              | Panic \<Rightarrow> (Panic, job)))"

definition job_machine ::
    "eth_gateway \<Rightarrow> worker_config \<Rightarrow> int \<Rightarrow> 'h relay_job \<Rightarrow> (string, unit) outcome \<times> 'h relay_job" where
  "job_machine G cfg now job =
     (case tx_hash job of
        Some h \<Rightarrow> poll_machine G cfg now h job
      | None \<Rightarrow> send_machine G cfg now job)"

lemmas machine_defs = send_machine_def poll_machine_def no_receipt_machine_def gone_machine_def
  retry_job_def failed_job_def confirmed_job_def polling_job_def sending_job_def submitted_job_def

section \<open>Writes collapse\<close>

definition set_row :: "'h relay_job \<Rightarrow> 'h job_table \<Rightarrow> 'h job_table" where
  "set_row job db = map (\<lambda>r. if r_job_id r = job_id job then job_to_row job else r) db"

text \<open>The table can take a write of the job: it has the job's row and no other row with its
  \<open>tx_final\<close>.\<close>

definition writable :: "string \<Rightarrow> 'h \<Rightarrow> 'h job_table \<Rightarrow> bool" where
  "writable jid f db \<longleftrightarrow> jid \<in> r_job_id ` set db
     \<and> (\<forall>r \<in> set db. r_job_id r \<noteq> jid \<longrightarrow> r_tx_final r \<noteq> f)"

lemma put_job_writable:
  "writable (job_id job) (tx_final job) db \<Longrightarrow> put_job job db = (Ok (), set_row job db)"
  by (auto simp: writable_def put_job_def set_row_def)

lemma map_job_id_set_row [simp]: "map r_job_id (set_row job db) = map r_job_id db"
  by (simp add: set_row_def)

lemma writable_set_row:
  assumes "writable jid f db" and "job_id job = jid" and "tx_final job = f"
  shows "writable jid f (set_row job db)"
proof -
  have "r_job_id ` set (set_row job db) = r_job_id ` set db" 
    by (simp only: list.set_map [symmetric] map_job_id_set_row)
  moreover have "r_tx_final r \<noteq> f" if mem: "r \<in> set (set_row job db)" and other: "r_job_id r \<noteq> jid" for r
  proof -
    obtain x where x: "x \<in> set db" "r = (if r_job_id x = jid then job_to_row job else x)"
      using mem unfolding set_row_def assms(2) set_map by blast
    then have "r_job_id x \<noteq> jid" using other assms(2) by (cases "r_job_id x = jid") simp_all
    then show ?thesis using x assms(1) by (simp add: writable_def)
  qed
  ultimately show ?thesis using assms(1) by (simp add: writable_def)
qed

lemma set_row_set_row: "job_id j = job_id i \<Longrightarrow> set_row j (set_row i db) = set_row j db"
  by (simp add: set_row_def)

text \<open>A write followed by an operation that overwrites the same row.\<close>

lemma put_then:
  assumes w: "writable (job_id i) (tx_final i) db"
    and k: "k () (set_row i db) = (r, set_row j (set_row i db))" and "job_id j = job_id i"
  shows "sbind (put_job i db) k = (r, set_row j db)"
  using k by (simp add: put_job_writable [OF w] set_row_set_row assms(3))

lemma put_ends: "writable (job_id i) (tx_final i) db \<Longrightarrow> k () (set_row i db) = (r, set_row i db) \<Longrightarrow>
    sbind (put_job i db) k = (r, set_row i db)"
  by (simp add: put_job_writable)

lemma retry_refines:
  "writable (job_id job) (tx_final job) db \<Longrightarrow>
   schedule_retry_or_fail cfg job now msg db = (Ok (), set_row (retry_job cfg now msg job) db)"
  by (simp add: schedule_retry_or_fail_def retry_job_def put_job_writable Let_def)

lemma fail_refines:
  "writable (job_id job) (tx_final job) db \<Longrightarrow>
   fail_job_with_block job now block reason db = (Ok (), set_row (failed_job now block reason job) db)"
  by (simp add: fail_job_with_block_def failed_job_def put_job_writable)

lemma keep_polling_refines:
  "writable (job_id job) (tx_final job) db \<Longrightarrow>
   keep_polling cfg now job db = (Ok (), set_row (polling_job cfg now job) db)"
  by (simp add: keep_polling_def polling_job_def put_job_writable)

lemma machine_ids [simp]:
  "job_id (retry_job cfg now msg job) = job_id job" "tx_final (retry_job cfg now msg job) = tx_final job"
  "job_id (polling_job cfg now job) = job_id job" "job_id (failed_job now b m job) = job_id job"
  "job_id (confirmed_job now h b job) = job_id job" "job_id (sending_job now job) = job_id job"
  "tx_final (sending_job now job) = tx_final job" "job_id (submitted_job cfg now h n job) = job_id job"
  "job_payload_bytes (sending_job now job) = job_payload_bytes job"
  by (simp_all add: machine_defs)

section \<open>Refinement\<close>

lemma gone_refines:
  assumes w: "writable (job_id job) (tx_final job) db" and cur: "set_row job db = db"
  shows "on_tx_gone G cfg now n job db
    = (fst (gone_machine G cfg now n job), set_row (snd (gone_machine G cfg now n job)) db)"
proof -
  let ?s = "job\<lparr> bump_count := as_i32 (fee_bump_max cfg), updated_at := now \<rparr>"
  have ws: "writable (job_id ?s) (tx_final ?s) db" using w by simp
  have drop: "sbind (put_job ?s db) (\<lambda>_ db. keep_polling cfg now ?s db)
      = (Ok (), set_row (polling_job cfg now ?s) db)"
    by (rule put_then [OF ws]) (simp_all add: keep_polling_refines writable_set_row [OF w])
  show ?thesis
    unfolding on_tx_gone_def gone_machine_def Let_def drop
    by (auto simp: put_job_writable w cur confirmed_job_def split: outcome.splits option.splits)
qed

lemma no_receipt_refines:
  assumes w: "writable (job_id job) (tx_final job) db" and cur: "set_row job db = db"
  shows "on_no_receipt G cfg now h job db
    = (fst (no_receipt_machine G cfg now h job), set_row (snd (no_receipt_machine G cfg now h job)) db)"
  unfolding on_no_receipt_def no_receipt_machine_def
  by (auto simp: put_job_writable keep_polling_refines gone_refines w cur split: outcome.splits option.splits)

lemma confirmed_job_same:
  "tx_hash job = Some h \<Longrightarrow> confirmed_job now h block job = job\<lparr> status := Confirmed,
     job_block_number := block, next_attempt_at := None, last_error := None, updated_at := now \<rparr>"
  by (cases job) (simp add: confirmed_job_def)

lemma set_row_idem: "set_row job (set_row job db) = set_row job db"
  by (simp add: set_row_set_row)

lemma no_receipt_id: "job_id (snd (no_receipt_machine G cfg now h job)) = job_id job"
  by (auto simp: machine_defs Let_def split: outcome.splits option.splits)

lemma poll_refines:
  assumes w: "writable (job_id job) (tx_final job) db" and "tx_hash job = Some h"
  shows "poll_submitted_job G cfg now job db
    = (fst (poll_machine G cfg now h job), set_row (snd (poll_machine G cfg now h job)) db)"
proof (cases "timed_out cfg now job")
  case None
  let ?j = "job\<lparr> updated_at := now \<rparr>"
  have wj: "writable (job_id ?j) (tx_final ?j) db" using w by simp
  have wj': "writable (job_id ?j) (tx_final ?j) (set_row ?j db)" using writable_set_row [OF wj] by simp
  note steps = fail_refines [OF wj'] retry_refines [OF wj'] no_receipt_refines [OF wj' set_row_idem]
  show ?thesis
  proof (cases "poll_receipt G h")
    case (Ok r)
    show ?thesis
    proof (cases r)
      case None
      then show ?thesis using \<open>timed_out cfg now job = None\<close> Ok assms(2)
        by (simp add: poll_submitted_job_def poll_machine_def Let_def put_job_writable [OF wj] steps
            set_row_set_row no_receipt_id)
    next
      case (Some receipt)
      then show ?thesis using \<open>timed_out cfg now job = None\<close> Ok assms(2) wj'
        by (simp add: poll_submitted_job_def poll_machine_def Let_def put_job_writable [OF wj] steps
            set_row_set_row put_job_writable confirmed_job_same)
    qed
  qed (use None assms(2) in \<open>simp_all add: poll_submitted_job_def poll_machine_def Let_def
         put_job_writable [OF wj] steps set_row_set_row\<close>)
qed (use assms in \<open>simp add: poll_submitted_job_def poll_machine_def fail_refines\<close>)

lemma send_refines:
  assumes w: "writable (job_id job) (tx_final job) db"
  shows "send_queued_job G cfg now job db
    = (fst (send_machine G cfg now job), set_row (snd (send_machine G cfg now job)) db)"
proof -
  let ?j = "sending_job now job"
  have wj: "writable (job_id ?j) (tx_final ?j) db" using w by simp
  have wj': "writable (job_id ?j) (tx_final ?j) (set_row ?j db)" using writable_set_row [OF wj] by simp
  have put: "put_job (submitted_job cfg now h n ?j) (set_row ?j db)
      = (Ok (), set_row (submitted_job cfg now h n ?j) db)" for h n
    using put_job_writable [of "submitted_job cfg now h n ?j"] wj'
    by (simp add: submitted_job_def set_row_set_row)
  show ?thesis
    unfolding send_queued_job_def send_machine_def Let_def sending_job_def [symmetric]
      put_job_writable [OF wj] sbind.simps submitted_job_def [symmetric]
    by (simp add: put retry_refines [OF wj'] set_row_set_row split: outcome.splits)
qed

lemma process_refines:
  assumes "writable (job_id job) (tx_final job) db" and "\<not> is_terminal (status job)"
  shows "process_due_job G cfg now job db
    = (fst (job_machine G cfg now job), set_row (snd (job_machine G cfg now job)) db)"
  using assms by (auto simp: process_due_job_def job_machine_def poll_refines send_refines split: option.splits)

end
