(* ===== verification/Relay_Api.thy ===== *)
theory Relay_Api
  imports Relay_Worker Simple_Blob Payload_Codec
begin

text \<open>
  The relayer's API (\<open>relayer/src/api.rs\<close>, request and response types of
  \<open>wire-types/src/relayer.rs\<close>) and its settings (\<open>relayer/src/config.rs\<close>). The base64 decoder, the blob
  parser, the generator of job identifiers and the clock are arguments.
\<close>

section \<open>Settings\<close>

definition DEFAULT_MAX_ATTEMPTS :: nat where "DEFAULT_MAX_ATTEMPTS = 8"
definition DEFAULT_RETRY_INITIAL_SECS :: nat where "DEFAULT_RETRY_INITIAL_SECS = 4"
definition DEFAULT_RETRY_MAX_SECS :: nat where "DEFAULT_RETRY_MAX_SECS = 300"
definition DEFAULT_RECEIPT_POLL_SECS :: nat where "DEFAULT_RECEIPT_POLL_SECS = 6"
definition DEFAULT_WORKER_IDLE_SLEEP_MS :: nat where "DEFAULT_WORKER_IDLE_SLEEP_MS = 1000"

text \<open>\<open>dotenvy::var(name).ok().and_then(|v| v.parse().ok())\<close> for a type of the given width.\<close>

definition env_unsigned :: "(string \<Rightarrow> string option) \<Rightarrow> nat \<Rightarrow> string \<Rightarrow> nat option" where
  "env_unsigned env width name = Option.bind (env name) (parse_unsigned (2 ^ width))"

definition unwrap_or :: "'a option \<Rightarrow> 'a \<Rightarrow> 'a" where
  "unwrap_or x d = (case x of None \<Rightarrow> d | Some v \<Rightarrow> v)"

definition positive :: "nat option \<Rightarrow> nat option" where
  "positive x = (case x of Some v \<Rightarrow> if v > 0 then Some v else None | None \<Rightarrow> None)"

text \<open>The worker's share of \<open>load_config\<close>.\<close>

definition load_worker_config :: "(string \<Rightarrow> string option) \<Rightarrow> (string, worker_config) outcome" where
  "load_worker_config env =
     (let attempts = max (unwrap_or (env_unsigned env 32 ''MAX_ATTEMPTS'') DEFAULT_MAX_ATTEMPTS) 1;
          initial = max (unwrap_or (env_unsigned env 64 ''RETRY_INITIAL_SECS'') DEFAULT_RETRY_INITIAL_SECS) 1;
          retry_max = max (unwrap_or (env_unsigned env 64 ''RETRY_MAX_SECS'') DEFAULT_RETRY_MAX_SECS) initial;
          poll = max (unwrap_or (env_unsigned env 64 ''RECEIPT_POLL_SECS'') DEFAULT_RECEIPT_POLL_SECS) 1;
          timeout = positive (env_unsigned env 64 ''RECEIPT_TIMEOUT_SECS'');
          idle = max (unwrap_or (env_unsigned env 64 ''WORKER_IDLE_SLEEP_MS'') DEFAULT_WORKER_IDLE_SLEEP_MS) 100;
          bump_after = positive (env_unsigned env 64 ''FEE_BUMP_AFTER_SECS'');
          pct = max (unwrap_or (env_unsigned env 64 ''FEE_BUMP_MULTIPLIER_PCT'') 100) 100;
          bump_max = max (unwrap_or (env_unsigned env 32 ''FEE_BUMP_MAX'') 5) 1
      in obind (case bump_after of
                  None \<Rightarrow> Ok ()
                | Some b \<Rightarrow>
                    ensure (b \<ge> poll)
                      (''FEE_BUMP_AFTER_SECS ('' @ show_nat b @ '') must be >= RECEIPT_POLL_SECS ('' @ show_nat poll
                       @ ''); bumps are only checked during receipt polls so a lower value has no effect''))
           (\<lambda>_. Ok \<lparr> max_attempts = attempts, retry_initial_secs = initial, retry_max_secs = retry_max,
                    receipt_poll_secs = poll, receipt_timeout_secs = timeout, idle_sleep_ms = idle,
                    fee_bump_after_secs = bump_after, fee_bump_multiplier_pct = pct,
                    fee_bump_max = bump_max \<rparr>))"

section \<open>Requests and responses\<close>

datatype api_error = BadRequest string | NotFound string | Internal string

fun api_error_status :: "api_error \<Rightarrow> nat" where
  "api_error_status (BadRequest _) = 400"
| "api_error_status (NotFound _) = 404"
| "api_error_status (Internal _) = 500"

record submit_proof_request =
  payload_base64 :: string
  req_client_ref :: "string option"

record 'h submit_proof_response =
  sp_job_id :: string
  sp_status :: job_status
  sp_tx_final :: 'h
  sp_state_root :: 'h
  sp_attempt_count :: nat
  sp_created_at :: int

record 'h job_status_response =
  js_job_id :: string
  js_status :: job_status
  js_tx_hash :: "string option"
  js_block_number :: "nat option"
  js_attempt_count :: nat
  js_last_error :: "string option"
  js_updated_at :: int
  js_created_at :: int
  js_tx_final :: 'h
  js_state_root :: 'h

definition to_submit_response :: "'h relay_job \<Rightarrow> 'h submit_proof_response" where
  "to_submit_response job =
     \<lparr> sp_job_id = job_id job, sp_status = status job, sp_tx_final = tx_final job,
       sp_state_root = job_state_root job, sp_attempt_count = attempt_count job,
       sp_created_at = created_at job \<rparr>"

definition to_status_response :: "'h relay_job \<Rightarrow> 'h job_status_response" where
  "to_status_response job =
     \<lparr> js_job_id = job_id job, js_status = status job, js_tx_hash = tx_hash job,
       js_block_number = job_block_number job, js_attempt_count = attempt_count job,
       js_last_error = last_error job, js_updated_at = updated_at job, js_created_at = created_at job,
       js_tx_final = tx_final job, js_state_root = job_state_root job \<rparr>"

section \<open>Handlers\<close>

definition new_job :: "string \<Rightarrow> int \<Rightarrow> u8 list \<Rightarrow> ('h, 'p) payload \<Rightarrow> string option \<Rightarrow> 'h relay_job" where
  "new_job uuid now bytes payload cref =
     \<lparr> job_id = uuid, status = Queued, job_payload_bytes = bytes, tx_final = p_tx_final payload,
       job_state_root = p_state_root payload, client_ref = cref, attempt_count = 0, tx_hash = None,
       submitted_at = None, job_block_number = None, last_error = None, next_attempt_at = Some now,
       nonce = None, bump_count = 0, prev_tx_hashes = [], created_at = now, updated_at = now \<rparr>"

text \<open>What a request must pass before anything is stored.\<close>

definition accept_payload ::
    "(string \<Rightarrow> u8 list option) \<Rightarrow> (u8 list \<Rightarrow> (string, ('h, 'p) payload option) outcome)
     \<Rightarrow> submit_proof_request \<Rightarrow> (api_error, u8 list \<times> ('h, 'p) payload) outcome" where
  "accept_payload decode64 parse req =
     obind (ok_or (BadRequest ''payload_base64 is invalid base64'') (decode64 (payload_base64 req))) (\<lambda>bytes.
     if length bytes > MAX_SIMPLE_BLOB_PAYLOAD_BYTES
     then Err (BadRequest (''payload exceeds single-blob limit: '' @ show_nat (length bytes) @ '' > ''
                           @ show_nat MAX_SIMPLE_BLOB_PAYLOAD_BYTES))
     else obind (map_err (\<lambda>err. BadRequest (''payload verification failed: '' @ err)) (parse bytes)) (\<lambda>parsed.
          obind (ok_or (BadRequest ''payload did not decode into a valid proof payload'') parsed) (\<lambda>payload.
          Ok (bytes, payload))))"

definition submit_proof ::
    "(string \<Rightarrow> u8 list option) \<Rightarrow> (u8 list \<Rightarrow> (string, ('h, 'p) payload option) outcome) \<Rightarrow> string \<Rightarrow> int
     \<Rightarrow> submit_proof_request \<Rightarrow> 'h job_table
     \<Rightarrow> (api_error, nat \<times> 'h submit_proof_response) outcome \<times> 'h job_table" where
  "submit_proof decode64 parse uuid now req db =
     (case accept_payload decode64 parse req of
        Err e \<Rightarrow> (Err e, db)
      | Panic \<Rightarrow> (Panic, db)
      | Ok (bytes, payload) \<Rightarrow>
          let job = new_job uuid now bytes payload (req_client_ref req)
          in (case insert_job job db of
                (Ok Inserted, db') \<Rightarrow> (Ok (202, to_submit_response job), db')
              | (Ok (Existing existing), db') \<Rightarrow> (Ok (200, to_submit_response existing), db')
              | (Err e, db') \<Rightarrow> (Err (Internal e), db')
              | (Panic, db') \<Rightarrow> (Panic, db')))"

definition get_proof :: "'h job_table \<Rightarrow> string \<Rightarrow> (api_error, 'h job_status_response) outcome" where
  "get_proof db jid =
     obind (map_err Internal (get_job db jid)) (\<lambda>job.
     obind (ok_or (NotFound (''job not found: '' @ jid)) job) (\<lambda>job. Ok (to_status_response job)))"

end
