(* ===== verification/Relay_Properties.thy ===== *)
theory Relay_Properties
  imports Relay_Machine Relay_Api
begin

text \<open>
  The relayer as a whole: tables reachable through submissions, worker iterations with any gateway, and
  recovery after a restart; what every step keeps, and the properties of scheduling, retries,
  fee bumps and confirmation.
\<close>

section \<open>Rows that evolve\<close>

text \<open>Tables whose rows change only in an allowed way and are never removed.\<close>

locale row_evolution =
  fixes kept :: "'r \<Rightarrow> 'r \<Rightarrow> bool"
  assumes kept_refl: "kept r r"
    and kept_trans: "kept a b \<Longrightarrow> kept b c \<Longrightarrow> kept a c"
begin

definition evolves :: "'r list \<Rightarrow> 'r list \<Rightarrow> bool" where
  "evolves db db' \<longleftrightarrow> length db \<le> length db' \<and> (\<forall>i < length db. kept (db ! i) (db' ! i))"

lemma evolves_refl: "evolves db db"
  by (simp add: evolves_def kept_refl)

lemma evolves_trans: "evolves a b \<Longrightarrow> evolves b c \<Longrightarrow> evolves a c"
  unfolding evolves_def by (meson kept_trans less_le_trans le_trans)

lemma evolves_append: "evolves db (db @ rs)"
  by (simp add: evolves_def nth_append kept_refl)

lemma evolves_map: "(\<And>r. r \<in> set db \<Longrightarrow> kept r (f r)) \<Longrightarrow> evolves db (map f db)"
  by (simp add: evolves_def)

end

text \<open>A job keeps its identity, its payload and its creation; a finished job does not change at
  all.\<close>

definition job_kept :: "'h job_row \<Rightarrow> 'h job_row \<Rightarrow> bool" where
  "job_kept r r' \<longleftrightarrow> r_job_id r' = r_job_id r \<and> r_payload_bytes r' = r_payload_bytes r
     \<and> r_tx_final r' = r_tx_final r \<and> r_state_root r' = r_state_root r
     \<and> r_client_ref r' = r_client_ref r \<and> r_created_at r' = r_created_at r
     \<and> (r_status r \<in> {''confirmed'', ''failed''} \<longrightarrow> r' = r)
     \<and> ((\<exists>st. r_status r = as_str st) \<longrightarrow> (\<exists>st. r_status r' = as_str st))"

interpretation job_rows: row_evolution job_kept
  by unfold_locales (auto simp: job_kept_def)

section \<open>Steps and reachable tables\<close>

inductive relay_step ::
    "(u8 list \<Rightarrow> (string, ('h, 'p) payload option) outcome) \<Rightarrow> 'h job_table \<Rightarrow> 'h job_table \<Rightarrow> bool"
  for parse where
  step_submit: "relay_step parse db (snd (submit_proof decode64 parse uuid now req db))"
| step_work: "relay_step parse db (snd (worker_step G cfg now now' db))"
| step_recover: "relay_step parse db (snd (recover_inflight_jobs now db))"

inductive relay_reach ::
    "(u8 list \<Rightarrow> (string, ('h, 'p) payload option) outcome) \<Rightarrow> 'h job_table \<Rightarrow> bool" for parse where
  reach_empty: "relay_reach parse []"
| reach_step: "relay_reach parse db \<Longrightarrow> relay_step parse db db' \<Longrightarrow> relay_reach parse db'"

inductive_cases relay_stepE: "relay_step parse db db'"

definition row_ok :: "(u8 list \<Rightarrow> (string, ('h, 'p) payload option) outcome) \<Rightarrow> 'h job_row \<Rightarrow> bool" where
  "row_ok parse r \<longleftrightarrow> (\<exists>st. r_status r = as_str st)
     \<and> length (r_payload_bytes r) \<le> MAX_SIMPLE_BLOB_PAYLOAD_BYTES
     \<and> (\<exists>p. parse (r_payload_bytes r) = Ok (Some p) \<and> p_tx_final p = r_tx_final r
            \<and> p_state_root p = r_state_root r)"

lemma row_ok_kept: "row_ok parse r \<Longrightarrow> job_kept r r' \<Longrightarrow> row_ok parse r'"
  by (auto simp: row_ok_def job_kept_def)

section \<open>What the worker does to the picked row\<close>

definition same_job :: "'h relay_job \<Rightarrow> 'h relay_job \<Rightarrow> bool" where
  "same_job j j' \<longleftrightarrow> job_id j' = job_id j \<and> job_payload_bytes j' = job_payload_bytes j \<and> tx_final j' = tx_final j
     \<and> job_state_root j' = job_state_root j \<and> client_ref j' = client_ref j \<and> created_at j' = created_at j"

lemma gone_same: "same_job job (snd (gone_machine G cfg now n job))"
  by (auto simp: same_job_def gone_machine_def Let_def polling_job_def confirmed_job_def
      split: outcome.splits option.splits)

lemma no_receipt_same: "same_job job (snd (no_receipt_machine G cfg now h job))"
  using gone_same [of job G cfg now]
  by (auto simp: same_job_def no_receipt_machine_def polling_job_def split: outcome.splits option.splits)

lemma poll_same: "same_job job (snd (poll_machine G cfg now h job))"
  using no_receipt_same [of "job\<lparr> updated_at := now \<rparr>" G cfg now h]
  by (auto simp: same_job_def poll_machine_def Let_def retry_job_def failed_job_def confirmed_job_def
      split: outcome.splits option.splits)

lemma send_same: "same_job job (snd (send_machine G cfg now job))"
  by (auto simp: same_job_def send_machine_def Let_def retry_job_def sending_job_def submitted_job_def
      split: outcome.splits)

lemma machine_same: "same_job job (snd (job_machine G cfg now job))"
  by (auto simp: job_machine_def poll_same send_same split: option.splits)

lemma next_due_rowD:
  assumes "next_due_job db now = Ok (Some job)"
  obtains r where "next_due_row db now = Some r" "r \<in> set db" "is_due now r" "row_to_job r = Ok job"
    "\<not> is_terminal (status job)"
proof -
  obtain r where r: "next_due_row db now = Some r" "row_to_job r = Ok job"
    using assms by (auto simp: next_due_job_def row_to_job_opt_def split: option.splits)
  then have mem: "r \<in> set db" "is_due now r" using next_due_row_spec [of db now] by auto
  have "\<not> is_terminal (status job)"
    using mem(2) row_to_jobD(2) [OF r(2)] by (cases "status job") (auto simp: is_due_def)
  then show ?thesis using that r mem by blast
qed

lemma table_wf_unique:
  assumes "table_wf db" and "r \<in> set db" and "x \<in> set db"
  shows "r_job_id x = r_job_id r \<Longrightarrow> x = r" "r_tx_final x = r_tx_final r \<Longrightarrow> x = r"
  using assms by (auto simp: table_wf_def distinct_map inj_on_def)

lemma picked_writable:
  assumes "table_wf db" and "r \<in> set db" and "row_to_job r = Ok job"
  shows "writable (job_id job) (tx_final job) db"
  using assms table_wf_unique(2) [OF assms(1,2)] row_to_jobD(1,4) [OF assms(3)]
  by (auto simp: writable_def)

text \<open>The table after an iteration: unchanged, or the picked row replaced by the machine's result.\<close>

lemma worker_step_table:
  assumes "table_wf db"
  shows "snd (worker_step G cfg now now' db) = db
    \<or> (\<exists>r job. next_due_row db now = Some r \<and> r \<in> set db \<and> is_due now r \<and> row_to_job r = Ok job
        \<and> \<not> is_terminal (status job)
        \<and> snd (worker_step G cfg now now' db) = set_row (snd (job_machine G cfg now' job)) db)"
proof (cases "next_due_job db now")
  case (Ok picked)
  show ?thesis
  proof (cases picked)
    case (Some job)
    with Ok obtain r where r: "next_due_row db now = Some r" "r \<in> set db" "is_due now r"
        "row_to_job r = Ok job" "\<not> is_terminal (status job)"
      by (auto elim: next_due_rowD)
    have "snd (worker_step G cfg now now' db) = set_row (snd (job_machine G cfg now' job)) db"
      using process_refines [OF picked_writable [OF assms r(2,4)] r(5), of G cfg now']
      by (auto simp: worker_step_def Ok Some split: outcome.splits)
    then show ?thesis using r by blast
  qed (simp add: worker_step_def Ok)
qed (simp_all add: worker_step_def)

lemma set_row_kept:
  assumes wf: "table_wf db" and r: "r \<in> set db" "row_to_job r = Ok job" "\<not> is_terminal (status job)"
    and same: "same_job job j"
  shows "job_rows.evolves db (set_row j db)"
  unfolding set_row_def
proof (rule job_rows.evolves_map)
  fix x assume x: "x \<in> set db"
  have "r_status r \<notin> {''confirmed'', ''failed''}"
    using row_to_jobD(2) [OF r(2)] r(3) by (cases "status job") auto
  then have "job_kept r (job_to_row j)"
    using row_to_jobD [OF r(2)] same by (auto simp: job_kept_def same_job_def)
  then show "job_kept x (if r_job_id x = job_id j then job_to_row j else x)"
    using table_wf_unique(1) [OF wf r(1) x] row_to_jobD(1) [OF r(2)] same
    by (auto simp: same_job_def job_rows.kept_refl)
qed

lemma recover_kept: "job_kept r (recover_row now r)"
proof -
  have "\<exists>st. ''queued'' = as_str st" by (rule exI [of _ Queued]) simp
  then show ?thesis by (auto simp: job_kept_def recover_row_def)
qed

lemma relay_step_evolves:
  assumes "table_wf db" and "relay_step parse db db'"
  shows "job_rows.evolves db db'"
  using assms(2)
proof cases
  case (step_submit decode64 uuid now req)
  have "\<exists>rs. db' = db @ rs"
    unfolding step_submit submit_proof_def insert_job_def
    by (auto simp: Let_def split: outcome.splits insert_job_result.splits option.splits)
  then show ?thesis using job_rows.evolves_append by auto
next
  case (step_work G cfg now now')
  then show ?thesis
    using worker_step_table [OF assms(1), of G cfg now now'] set_row_kept [OF assms(1) _ _ _ machine_same]
    by (auto simp: job_rows.evolves_refl)
next
  case (step_recover now)
  then show ?thesis by (auto simp: recover_inflight_jobs_def recover_kept intro: job_rows.evolves_map)
qed

section \<open>The invariant\<close>

definition relay_inv :: "(u8 list \<Rightarrow> (string, ('h, 'p) payload option) outcome) \<Rightarrow> 'h job_table \<Rightarrow> bool" where
  "relay_inv parse db \<longleftrightarrow> table_wf db \<and> (\<forall>r \<in> set db. row_ok parse r)"

text \<open>A step adds at most one row, with new keys and an accepted payload.\<close>

lemma submit_table:
  "snd (submit_proof decode64 parse uuid now req db) = db
   \<or> (\<exists>bytes p. accept_payload decode64 parse req = Ok (bytes, p)
        \<and> p_tx_final p \<notin> r_tx_final ` set db \<and> uuid \<notin> r_job_id ` set db
        \<and> snd (submit_proof decode64 parse uuid now req db)
            = db @ [job_to_row (new_job uuid now bytes p (req_client_ref req))])"
proof (cases "accept_payload decode64 parse req")
  case (Ok bp)
  obtain bytes p where bp: "bp = (bytes, p)" by (cases bp)
  let ?j = "new_job uuid now bytes p (req_client_ref req)"
  have ids: "tx_final ?j = p_tx_final p" "job_id ?j = uuid" by (simp_all add: new_job_def)
  show ?thesis
  proof (cases "p_tx_final p \<in> r_tx_final ` set db \<or> uuid \<in> r_job_id ` set db")
    case True
    then have "snd (insert_job ?j db) = db" by (auto simp: insert_job_def ids)
    then show ?thesis
      by (cases "insert_job ?j db")
        (auto simp: submit_proof_def Ok bp Let_def split: outcome.splits insert_job_result.splits)
  next
    case False
    then show ?thesis by (auto simp: submit_proof_def Ok bp Let_def insert_job_def ids)
  qed
qed (simp_all add: submit_proof_def)

lemma accept_payloadD:
  assumes "accept_payload decode64 parse req = Ok (bytes, p)"
  shows "decode64 (payload_base64 req) = Some bytes" "length bytes \<le> MAX_SIMPLE_BLOB_PAYLOAD_BYTES"
    "parse bytes = Ok (Some p)"
  using assms by (auto simp: accept_payload_def split: if_splits)

lemma evolves_same_length_inv:
  assumes "relay_inv parse db" and ev: "job_rows.evolves db db'" and len: "length db' = length db"
  shows "relay_inv parse db'"
proof -
  have kept: "job_kept (db ! i) (db' ! i)" if "i < length db" for i
    using ev that by (simp add: job_rows.evolves_def)
  have "map r_job_id db' = map r_job_id db" "map r_tx_final db' = map r_tx_final db"
    using kept len by (auto intro!: nth_equalityI simp: job_kept_def)
  moreover have "row_ok parse r" if "r \<in> set db'" for r
    using that kept len assms(1) row_ok_kept by (metis in_set_conv_nth relay_inv_def)
  ultimately show ?thesis using assms(1) by (simp add: relay_inv_def table_wf_def)
qed

lemma relay_inv_step:
  assumes inv: "relay_inv parse db" and step: "relay_step parse db db'"
  shows "relay_inv parse db'"
proof -
  have wf: "table_wf db" using inv by (simp add: relay_inv_def)
  note ev = relay_step_evolves [OF wf step]
  from step show ?thesis
  proof cases
    case (step_submit decode64 uuid now req)
    consider "db' = db" | bytes p where "accept_payload decode64 parse req = Ok (bytes, p)"
      "p_tx_final p \<notin> r_tx_final ` set db" "uuid \<notin> r_job_id ` set db"
      "db' = db @ [job_to_row (new_job uuid now bytes p (req_client_ref req))]"
      using submit_table [of decode64 parse uuid now req db] step_submit by auto
    then show ?thesis
    proof cases
      case 2
      have "\<exists>st. ''queued'' = as_str st" by (rule exI [of _ Queued]) simp
      then have "row_ok parse (job_to_row (new_job uuid now bytes p (req_client_ref req)))"
        using accept_payloadD [OF 2(1)] by (auto simp: row_ok_def new_job_def)
      then show ?thesis
        using inv 2 by (auto simp: relay_inv_def table_wf_def new_job_def)
    qed (use inv in simp)
  next
    case (step_work G cfg now now')
    then have "length db' = length db"
      using worker_step_table [OF wf, of G cfg now now'] by (auto simp: set_row_def)
    then show ?thesis using evolves_same_length_inv [OF inv ev] by simp
  next
    case (step_recover now)
    then show ?thesis using evolves_same_length_inv [OF inv ev] by (simp add: recover_inflight_jobs_def)
  qed
qed

lemma relay_inv_reach: "relay_reach parse db \<Longrightarrow> relay_inv parse db"
proof (induction rule: relay_reach.induct)
  case reach_empty
  then show ?case by (simp add: relay_inv_def table_wf_def)
qed (rule relay_inv_step)

section \<open>A demonstration queue\<close>

definition demo_verify :: "u8 list \<Rightarrow> (string, (nat, unit) payload option) outcome" where
  "demo_verify bs = Ok (Some \<lparr> p_proof = (), p_tx_final = length bs, p_state_root = 0,
     p_nullifiers = [], p_created = [] \<rparr>)"

definition demo_decode64 :: "string \<Rightarrow> u8 list option" where
  "demo_decode64 s = Some (map of_char s)"

definition demo_req :: submit_proof_request where
  "demo_req = \<lparr> payload_base64 = ''abc'', req_client_ref = None \<rparr>"

definition demo_table :: "nat job_table" where
  "demo_table = snd (submit_proof demo_decode64 demo_verify ''job-1'' 100 demo_req [])"

lemmas relay_demo = demo_table_def demo_req_def demo_verify_def demo_decode64_def submit_proof_def
  accept_payload_def new_job_def insert_job_def MAX_SIMPLE_BLOB_PAYLOAD_BYTES_def
  FIELD_ELEMENT_BYTES_USIZE_def job_to_row_def as_i32_def

lemma demo_table_reach: "relay_reach demo_verify demo_table"
  unfolding demo_table_def by (intro reach_step [OF reach_empty] step_submit)

lemma demo_table_eq: "demo_table = [\<lparr> r_job_id = ''job-1'', r_status = ''queued'', r_payload_bytes = [97, 98, 99],
    r_tx_final = 3, r_state_root = 0, r_client_ref = None, r_attempt_count = 0, r_tx_hash = None,
    r_submitted_at = None, r_block_number = None, r_last_error = None, r_next_attempt_at = Some 100,
    r_nonce = None, r_bump_count = 0, r_prev_tx_hashes = [], r_created_at = 100, r_updated_at = 100 \<rparr>]"
  by (simp add: relay_demo del: obind_Ok_iff)

section \<open>Properties\<close>

text \<open>C13. The queue holds each verified payload once. In every table reachable by submissions, worker
  iterations against any gateway and recoveries, job identifiers and \<open>tx_final\<close>s are unique, and each
  stored payload fits one blob and was accepted by the proof parser as exactly the transaction the row names;
  so it reaches the chain as a blob that decodes to the same bytes and parses to the same payload.\<close>

theorem relay_queue_verified:
  assumes "relay_reach parse db"
  shows "distinct (map r_job_id db) \<and> distinct (map r_tx_final db)
    \<and> (\<forall>r \<in> set db. \<exists>blob p. encode_simple_blob (r_payload_bytes r) = Ok blob
          \<and> decode_simple_blob blob = Ok (r_payload_bytes r)
          \<and> parse (r_payload_bytes r) = Ok (Some p)
          \<and> p_tx_final p = r_tx_final r \<and> p_state_root p = r_state_root r)"
proof -
  have inv: "relay_inv parse db" by (rule relay_inv_reach [OF assms])
  have "\<exists>blob p. encode_simple_blob (r_payload_bytes r) = Ok blob
          \<and> decode_simple_blob blob = Ok (r_payload_bytes r)
          \<and> parse (r_payload_bytes r) = Ok (Some p)
          \<and> p_tx_final p = r_tx_final r \<and> p_state_root p = r_state_root r" if "r \<in> set db" for r
  proof -
    have ok: "row_ok parse r" using inv that by (simp add: relay_inv_def)
    then have len: "length (r_payload_bytes r) \<le> MAX_SIMPLE_BLOB_PAYLOAD_BYTES" by (simp add: row_ok_def)
    show ?thesis using ok encode_layout [OF len] decode_layout [OF len] by (auto simp: row_ok_def)
  qed
  then show ?thesis using inv by (simp add: relay_inv_def table_wf_def)
qed

theorem relay_queue_verified_witness:
  "relay_reach demo_verify demo_table \<and> length demo_table = 1
   \<and> (\<exists>blob. encode_simple_blob [97, 98, 99] = Ok blob \<and> decode_simple_blob blob = Ok [97, 98, 99])"
  using relay_queue_verified [OF demo_table_reach] demo_table_reach by (auto simp: demo_table_eq)

text \<open>C16. Jobs are never lost or rewritten. Every step from a reachable table keeps every row at its
  place with its identifier, payload, transaction and creation time, and does not touch a
  confirmed or failed job.\<close>

theorem relay_jobs_kept:
  assumes "relay_reach parse db" and "relay_step parse db db'" and "i < length db"
  shows "i < length db' \<and> r_job_id (db' ! i) = r_job_id (db ! i)
    \<and> r_payload_bytes (db' ! i) = r_payload_bytes (db ! i) \<and> r_tx_final (db' ! i) = r_tx_final (db ! i)
    \<and> r_state_root (db' ! i) = r_state_root (db ! i) \<and> r_created_at (db' ! i) = r_created_at (db ! i)
    \<and> (r_status (db ! i) \<in> {''confirmed'', ''failed''} \<longrightarrow> db' ! i = db ! i)"
proof -
  have "table_wf db" using relay_inv_reach [OF assms(1)] by (simp add: relay_inv_def)
  from relay_step_evolves [OF this assms(2)] assms(3) show ?thesis
    by (auto simp: job_rows.evolves_def job_kept_def)
qed

theorem relay_jobs_kept_witness:
  "relay_step demo_verify demo_table (snd (recover_inflight_jobs 200 demo_table))
   \<and> r_tx_final (snd (recover_inflight_jobs 200 demo_table) ! 0) = 3"
  using relay_jobs_kept [OF demo_table_reach step_recover [of demo_verify demo_table 200], of 0]
    step_recover [of demo_verify demo_table 200]
  by (simp add: demo_table_eq)

text \<open>Submission is idempotent. Once a payload's transaction has a row in a reachable table,
  submitting a payload for it again changes nothing, stores no second job and answers 200 with the existing
  job's identifier, whenever that row can be read.\<close>

theorem submit_idempotent:
  assumes "relay_reach parse db" and "accept_payload decode64 parse req = Ok (bytes, p)"
    and "r \<in> set db" and "r_tx_final r = p_tx_final p" and "row_to_job r = Ok j"
  shows "submit_proof decode64 parse uuid now req db = (Ok (200, to_submit_response j), db)
    \<and> sp_job_id (to_submit_response j) = r_job_id r"
proof -
  have wf: "table_wf db" using relay_inv_reach [OF assms(1)] by (simp add: relay_inv_def)
  obtain x where x: "List.find (\<lambda>r. r_tx_final r = p_tx_final p) db = Some x"
    using assms(3,4) by (cases "List.find (\<lambda>r. r_tx_final r = p_tx_final p) db") (auto simp: find_None_iff)
  then have "x = r" using table_wf_unique(2) [OF wf assms(3), of x] assms(4) find_Some_in [OF x] by simp
  then have "get_job_by_tx_final db (p_tx_final p) = Ok (Some j)"
    using x assms(5) by (simp add: get_job_by_tx_final_def row_to_job_opt_def)
  moreover have "p_tx_final p \<in> r_tx_final ` set db" using assms(3,4) by force
  ultimately show ?thesis
    using row_to_jobD(1) [OF assms(5)]
    by (simp add: submit_proof_def assms(2) Let_def insert_job_def new_job_def to_submit_response_def)
qed

theorem submit_idempotent_witness:
  "\<exists>j. submit_proof demo_decode64 demo_verify ''job-2'' 150 demo_req demo_table
     = (Ok (200, to_submit_response j), demo_table)"
proof -
  have a: "\<exists>p. accept_payload demo_decode64 demo_verify demo_req = Ok ([97, 98, 99], p) \<and> p_tx_final p = 3"
    by (simp add: relay_demo del: obind_Ok_iff)
  have "\<exists>j. row_to_job (demo_table ! 0) = Ok j"
    by (simp add: demo_table_eq row_to_job_def from_db_str_def del: obind_Ok_iff)
  with a show ?thesis
    using submit_idempotent [OF demo_table_reach, of demo_decode64 demo_req "[97, 98, 99]" _ "demo_table ! 0"]
    by (fastforce simp: demo_table_eq)
qed

text \<open>The worker picks the job that is longest due. It picks nothing exactly when no queued, sending or
  submitted job is due, and otherwise a due job with the least scheduled time, the oldest among
  those; finished jobs are never picked.\<close>

theorem next_due_exact:
  "case next_due_row db now of
     None \<Rightarrow> \<not> list_ex (is_due now) db
   | Some r \<Rightarrow> r \<in> set db \<and> is_due now r \<and> r_status r \<notin> {''confirmed'', ''failed''}
       \<and> list_all (\<lambda>x. due_key r < due_key x \<or> due_key r = due_key x \<and> r_created_at r \<le> r_created_at x)
            (filter (is_due now) db)"
  using next_due_row_spec [of db now]
  by (auto simp: list_ex_iff list_all_iff is_due_def split: option.splits)

section \<open>Confirmation\<close>

lemma find_mined_Some:
  "find_mined G hs = Ok (Some (h, b)) \<Longrightarrow>
   h \<in> set hs \<and> (\<exists>rc. poll_receipt G h = Ok (Some rc) \<and> success rc \<and> ro_block_number rc = b)"
  by (induction hs) (auto split: outcome.splits option.splits if_splits)

text \<open>A successful receipt for one of the transactions the job was sent as.\<close>

definition receipt_for :: "eth_gateway \<Rightarrow> 'h relay_job \<Rightarrow> string option \<Rightarrow> bool" where
  "receipt_for G job res \<longleftrightarrow> (\<exists>h rc. res = Some h \<and> poll_receipt G h = Ok (Some rc) \<and> success rc
     \<and> (tx_hash job = Some h \<or> h \<in> set (prev_tx_hashes job)))"

lemma gone_confirmed:
  assumes "status (snd (gone_machine G cfg now n job)) = Confirmed" and "status job \<noteq> Confirmed"
  shows "receipt_for G job (tx_hash (snd (gone_machine G cfg now n job)))"
  using assms
  by (auto simp: gone_machine_def Let_def polling_job_def confirmed_job_def receipt_for_def
      dest: find_mined_Some split: outcome.splits option.splits if_splits)

lemma no_receipt_confirmed:
  assumes "status (snd (no_receipt_machine G cfg now h job)) = Confirmed" and "status job \<noteq> Confirmed"
  shows "receipt_for G job (tx_hash (snd (no_receipt_machine G cfg now h job)))"
  using assms gone_confirmed [of G cfg now _ job]
  by (auto simp: no_receipt_machine_def polling_job_def split: outcome.splits option.splits)

lemma poll_confirmed:
  assumes "status (snd (poll_machine G cfg now h job)) = Confirmed" and "status job \<noteq> Confirmed"
    and "tx_hash job = Some h"
  shows "receipt_for G job (tx_hash (snd (poll_machine G cfg now h job)))"
proof -
  have "receipt_for G job x" if "receipt_for G (job\<lparr> updated_at := now \<rparr>) x" for x
    using that by (simp add: receipt_for_def)
  then show ?thesis
    using assms no_receipt_confirmed [of G cfg now h "job\<lparr> updated_at := now \<rparr>"]
    by (auto simp: poll_machine_def Let_def failed_job_def retry_job_def confirmed_job_def receipt_for_def
        split: outcome.splits option.splits if_splits)
qed

lemma send_not_confirmed: "status (snd (send_machine G cfg now job)) \<noteq> Confirmed"
  by (auto simp: send_machine_def Let_def sending_job_def submitted_job_def retry_job_def split: outcome.splits)

lemma machine_confirmed:
  assumes "status (snd (job_machine G cfg now job)) = Confirmed" and "status job \<noteq> Confirmed"
  shows "receipt_for G job (tx_hash (snd (job_machine G cfg now job)))"
  using assms poll_confirmed [of G cfg now _ job] send_not_confirmed [of G cfg now job]
  by (auto simp: job_machine_def split: option.splits)

text \<open>C15. A job is confirmed only on a receipt. When an iteration of the worker turns a job to
  confirmed, the gateway reported a successful receipt for the transaction hash the row then names, and
  that hash is the one the job was last sent with or one it replaced.\<close>

theorem confirmed_only_on_receipt:
  assumes "relay_reach parse db" and "i < length db"
    and "r_status (db ! i) \<noteq> ''confirmed''"
    and "r_status (snd (worker_step G cfg now now' db) ! i) = ''confirmed''"
  shows "\<exists>h rc. r_tx_hash (snd (worker_step G cfg now now' db) ! i) = Some h
    \<and> poll_receipt G h = Ok (Some rc) \<and> success rc
    \<and> (r_tx_hash (db ! i) = Some h \<or> h \<in> set (r_prev_tx_hashes (db ! i)))"
proof -
  have wf: "table_wf db" using relay_inv_reach [OF assms(1)] by (simp add: relay_inv_def)
  have ne: "snd (worker_step G cfg now now' db) \<noteq> db" using assms(3,4) by auto
  with worker_step_table [OF wf, of G cfg now now'] obtain r job where
    r: "r \<in> set db" "row_to_job r = Ok job" "\<not> is_terminal (status job)"
      "snd (worker_step G cfg now now' db) = set_row (snd (job_machine G cfg now' job)) db" by blast
  let ?j = "snd (job_machine G cfg now' job)"
  have id: "job_id ?j = r_job_id r"
    using machine_same [of job G cfg now'] row_to_jobD(1) [OF r(2)] by (simp add: same_job_def)
  have at: "r_job_id (db ! i) = r_job_id r"
    using assms(2,3,4) unfolding r(4) set_row_def by (simp add: id split: if_splits)
  then have ri: "db ! i = r" using table_wf_unique(1) [OF wf r(1), of "db ! i"] assms(2) by simp
  have new: "snd (worker_step G cfg now now' db) ! i = job_to_row ?j"
    unfolding r(4) set_row_def using assms(2) at id by simp
  have "status ?j = Confirmed" using assms(4) unfolding new by (cases "status ?j") auto
  then have "receipt_for G job (tx_hash ?j)"
    by (rule machine_confirmed) (use r(3) in auto)
  moreover have "prev_tx_hashes job = r_prev_tx_hashes r" "tx_hash job = r_tx_hash r"
    using r(2) by (auto simp: row_to_job_def)
  ultimately show ?thesis unfolding new ri by (auto simp: receipt_for_def)
qed

text \<open>A gateway that accepts the submission and then reports the receipt.\<close>

definition demo_gateway :: eth_gateway where
  "demo_gateway = \<lparr> submit_payload = (\<lambda>bs n. Ok ''0xaa''),
     poll_receipt = (\<lambda>h. Ok (Some \<lparr> success = True, ro_block_number = Some 42 \<rparr>)),
     get_next_nonce = Ok 7, get_current_fees = Err ''down'', get_pending_tx_fees = (\<lambda>h. Err ''down''),
     submit_payload_with_fees = (\<lambda>bs n f. Err ''down'') \<rparr>"

definition demo_worker_cfg :: worker_config where
  "demo_worker_cfg = \<lparr> max_attempts = 8, retry_initial_secs = 4, retry_max_secs = 300, receipt_poll_secs = 6,
     receipt_timeout_secs = None, idle_sleep_ms = 1000, fee_bump_after_secs = None,
     fee_bump_multiplier_pct = 100, fee_bump_max = 5 \<rparr>"

lemmas worker_demo = worker_step_def next_due_job_def next_due_row_def is_due_def due_key_def
  row_to_job_opt_def row_to_job_def from_db_str_def process_due_job_def send_queued_job_def
  poll_submitted_job_def put_job_def job_to_row_def next_poll_def timed_out_def demo_gateway_def
  demo_worker_cfg_def as_i32_def as_i64_def wrap_i64_def u32_sat_add_def schedule_retry_or_fail_def
  backoff_secs_def u64_sat_mul_def

definition demo_sent :: "nat job_table" where
  "demo_sent = snd (worker_step demo_gateway demo_worker_cfg 100 100 demo_table)"

lemma demo_sent_reach: "relay_reach demo_verify demo_sent"
  unfolding demo_sent_def by (intro reach_step [OF demo_table_reach] step_work)

lemma demo_sent_eq: "demo_sent = [\<lparr> r_job_id = ''job-1'', r_status = ''submitted'', r_payload_bytes = [97, 98, 99],
    r_tx_final = 3, r_state_root = 0, r_client_ref = None, r_attempt_count = 1, r_tx_hash = Some ''0xaa'',
    r_submitted_at = Some 100, r_block_number = None, r_last_error = None, r_next_attempt_at = Some 106,
    r_nonce = Some 7, r_bump_count = 0, r_prev_tx_hashes = [], r_created_at = 100, r_updated_at = 100 \<rparr>]"
  unfolding demo_sent_def demo_table_eq by (simp add: worker_demo del: obind_Ok_iff)

lemma demo_confirmed: "r_status (snd (worker_step demo_gateway demo_worker_cfg 106 106 demo_sent) ! 0) = ''confirmed''"
  unfolding demo_sent_eq by (simp add: worker_demo del: obind_Ok_iff)

theorem confirmed_only_on_receipt_witness:
  "r_status (demo_sent ! 0) = ''submitted''
   \<and> r_status (snd (worker_step demo_gateway demo_worker_cfg 106 106 demo_sent) ! 0) = ''confirmed''
   \<and> (\<exists>h rc. r_tx_hash (snd (worker_step demo_gateway demo_worker_cfg 106 106 demo_sent) ! 0) = Some h
        \<and> poll_receipt demo_gateway h = Ok (Some rc) \<and> success rc)"
  using confirmed_only_on_receipt [OF demo_sent_reach _ _ demo_confirmed] demo_confirmed
  by (auto simp: demo_sent_eq)

section \<open>Retries, fees and progress\<close>

text \<open>Retry delays. The delay before a retry is never above the maximum, never below the smaller of
  the initial delay and the maximum, does not shrink as attempts grow, and doubles with each of the first
  attempts until it reaches the maximum.\<close>

theorem backoff_bounds:
  assumes "initial < 2 ^ 64" and "m \<le> n"
  shows "backoff_secs n initial max_secs \<le> max_secs
    \<and> min initial max_secs \<le> backoff_secs n initial max_secs
    \<and> backoff_secs m initial max_secs \<le> backoff_secs n initial max_secs
    \<and> (1 \<le> n \<and> n \<le> 21 \<and> initial * 2 ^ (n - 1) < 2 ^ 64 \<longrightarrow>
         backoff_secs n initial max_secs = min (initial * 2 ^ (n - 1)) max_secs)"
proof (intro conjI)
  define B :: nat where "B = 2 ^ 64 - 1"
  have eq: "backoff_secs k initial max_secs = min (min (initial * 2 ^ min (k - 1) 20) B) max_secs" for k
    by (simp add: backoff_secs_def u64_sat_mul_def Let_def B_def)
  have iB: "initial \<le> B" using assms(1) unfolding B_def by linarith
  show "backoff_secs n initial max_secs \<le> max_secs" unfolding eq by simp
  define X where "X = initial * 2 ^ min (n - 1) 20"
  have "initial * 1 \<le> X" unfolding X_def by (rule mult_le_mono2) simp
  then show "min initial max_secs \<le> backoff_secs n initial max_secs"
    unfolding eq X_def [symmetric] using iB by auto
  have "min (m - 1) 20 \<le> min (n - 1) 20" using assms(2) by linarith
  then have "(2 :: nat) ^ min (m - 1) 20 \<le> 2 ^ min (n - 1) 20" by (rule power_increasing) simp
  then have "initial * 2 ^ min (m - 1) 20 \<le> X" unfolding X_def by (rule mult_le_mono2)
  then show "backoff_secs m initial max_secs \<le> backoff_secs n initial max_secs"
    unfolding eq X_def [symmetric] by (intro min.mono order_refl)
  show "1 \<le> n \<and> n \<le> 21 \<and> initial * 2 ^ (n - 1) < 2 ^ 64 \<longrightarrow>
         backoff_secs n initial max_secs = min (initial * 2 ^ (n - 1)) max_secs"
  proof (intro impI, elim conjE)
    assume "n \<le> 21" and lt: "initial * 2 ^ (n - 1) < 2 ^ 64"
    then have "min (n - 1) 20 = n - 1" by linarith
    moreover have "initial * 2 ^ (n - 1) \<le> B" using lt unfolding B_def by linarith
    ultimately show "backoff_secs n initial max_secs = min (initial * 2 ^ (n - 1)) max_secs"
      unfolding eq by simp
  qed
qed

theorem backoff_bounds_witness:
  "backoff_secs 3 4 300 \<le> backoff_secs 5 4 300 \<and> backoff_secs 5 4 300 = 64"
  using backoff_bounds [of 4 3 5 300] by simp

lemma double_le: "a \<le> b \<Longrightarrow> 2 * b \<le> c \<Longrightarrow> 2 * a \<le> c \<and> a \<le> c" for a b c :: nat
  by linarith

lemma apply_bump_doubles:
  assumes "100 \<le> pct" and "x * (100 + pct) < 2 ^ 128"
  shows "2 * x \<le> apply_bump pct x"
proof -
  have "x * (100 + pct) \<le> 2 ^ 128 - 1" using assms(2) by linarith
  then have "apply_bump pct x = x * (100 + pct) div 100"
    unfolding apply_bump_def u128_sat_mul_def by (simp only: min_absorb1)
  moreover have "x * 200 \<le> x * (100 + pct)" using assms(1) by (intro mult_le_mono2) linarith
  then have "x * 200 div 100 \<le> x * (100 + pct) div 100" by (rule div_le_mono)
  ultimately show ?thesis by simp
qed

text \<open>A fee bump replaces. With settings the relayer loads, and fees small enough not to saturate
  128 bits, every fee cap of the replacement is at least twice the cap of the transaction it
  replaces, which is what blob pools require, and the gas caps also cover the network's current
  fees.\<close>

theorem fee_bump_doubles:
  assumes "load_worker_config env = Ok cfg"
    and "pf_max_fee_per_gas orig * (100 + fee_bump_multiplier_pct cfg) < 2 ^ 128"
    and "(base_fee_per_gas net + max (pf_max_priority_fee_per_gas orig) (fe_max_priority_fee_per_gas net))
           * (100 + fee_bump_multiplier_pct cfg) < 2 ^ 128"
    and "pred_option (\<lambda>b. b * (100 + fee_bump_multiplier_pct cfg) < 2 ^ 128) (pf_max_fee_per_blob_gas orig)"
  shows "let fees = bumped_fees (fee_bump_multiplier_pct cfg) net orig
    in 2 * pf_max_fee_per_gas orig \<le> fo_max_fee_per_gas fees
     \<and> 2 * pf_max_priority_fee_per_gas orig \<le> fo_max_priority_fee_per_gas fees
     \<and> rel_option (\<lambda>b b'. 2 * b \<le> b') (pf_max_fee_per_blob_gas orig) (fo_max_fee_per_blob_gas fees)
     \<and> base_fee_per_gas net + fe_max_priority_fee_per_gas net \<le> fo_max_fee_per_gas fees
     \<and> fe_max_priority_fee_per_gas net \<le> fo_max_priority_fee_per_gas fees"
proof -
  let ?pct = "fee_bump_multiplier_pct cfg"
  let ?prio = "max (pf_max_priority_fee_per_gas orig) (fe_max_priority_fee_per_gas net)"
  have pct: "100 \<le> ?pct" using assms(1) by (auto simp: load_worker_config_def Let_def)
  have "base_fee_per_gas net + ?prio \<le> (base_fee_per_gas net + ?prio) * (100 + ?pct)"
    using mult_le_mono2 [of 1 "100 + ?pct" "base_fee_per_gas net + ?prio"] by simp
  then have sum: "u128_add (base_fee_per_gas net) ?prio = base_fee_per_gas net + ?prio"
    unfolding u128_add_def using assms(3) by (intro mod_less) linarith
  let ?fee = "max (pf_max_fee_per_gas orig) (base_fee_per_gas net + ?prio)"
  have fee: "2 * ?fee \<le> apply_bump ?pct ?fee"
    by (rule apply_bump_doubles [OF pct]) (cases "pf_max_fee_per_gas orig \<le> base_fee_per_gas net + ?prio",
        use assms(2,3) in \<open>simp_all add: max_def\<close>)
  have "?prio * (100 + ?pct) \<le> (base_fee_per_gas net + ?prio) * (100 + ?pct)" by (rule mult_le_mono1) simp
  then have prio: "2 * ?prio \<le> apply_bump ?pct ?prio"
    by (intro apply_bump_doubles [OF pct]) (rule le_less_trans [OF _ assms(3)])
  have blob: "rel_option (\<lambda>b b'. 2 * b \<le> b') (pf_max_fee_per_blob_gas orig)
      (map_option (apply_bump ?pct) (pf_max_fee_per_blob_gas orig))"
    using assms(4) apply_bump_doubles [OF pct] by (cases "pf_max_fee_per_blob_gas orig") auto
  have le: "pf_max_fee_per_gas orig \<le> ?fee" "base_fee_per_gas net + ?prio \<le> ?fee"
    "pf_max_priority_fee_per_gas orig \<le> ?prio" "fe_max_priority_fee_per_gas net \<le> ?prio"
    "base_fee_per_gas net + fe_max_priority_fee_per_gas net \<le> ?fee" by (simp_all add: le_max_iff_disj)
  show ?thesis
    unfolding bumped_fees_def Let_def sum fee_overrides.select_convs
  proof (intro conjI)
    show "2 * pf_max_fee_per_gas orig \<le> apply_bump ?pct ?fee" using double_le [OF le(1) fee] ..
    show "2 * pf_max_priority_fee_per_gas orig \<le> apply_bump ?pct ?prio" using double_le [OF le(3) prio] ..
    show "base_fee_per_gas net + fe_max_priority_fee_per_gas net \<le> apply_bump ?pct ?fee"
      using double_le [OF le(5) fee] ..
    show "fe_max_priority_fee_per_gas net \<le> apply_bump ?pct ?prio" using double_le [OF le(4) prio] ..
  qed (rule blob)
qed

definition demo_fees :: pending_tx_fees where
  "demo_fees = \<lparr> pf_max_fee_per_gas = 1000, pf_max_priority_fee_per_gas = 10, pf_max_fee_per_blob_gas = Some 3 \<rparr>"

definition demo_network :: fee_estimate where
  "demo_network = \<lparr> base_fee_per_gas = 1500, fe_max_priority_fee_per_gas = 20 \<rparr>"

lemma demo_env_config: "\<exists>cfg. load_worker_config (\<lambda>_. None) = Ok cfg \<and> fee_bump_multiplier_pct cfg = 100"
  by (simp add: load_worker_config_def env_unsigned_def positive_def unwrap_or_def Let_def del: obind_Ok_iff)

theorem fee_bump_doubles_witness:
  "2 * 1000 \<le> fo_max_fee_per_gas (bumped_fees 100 demo_network demo_fees)
   \<and> fo_max_fee_per_blob_gas (bumped_fees 100 demo_network demo_fees) = Some 6"
proof -
  obtain cfg where cfg: "load_worker_config (\<lambda>_. None) = Ok cfg" "fee_bump_multiplier_pct cfg = 100"
    using demo_env_config by blast
  have "fo_max_fee_per_blob_gas (bumped_fees 100 demo_network demo_fees) = Some 6"
    by (simp add: bumped_fees_def demo_fees_def apply_bump_def u128_sat_mul_def Let_def)
  then show ?thesis
    using fee_bump_doubles [OF cfg(1), of demo_fees demo_network]
    by (simp add: cfg(2) demo_fees_def demo_network_def Let_def)
qed

text \<open>Delays that do not overflow the clock.\<close>

definition clock_ok :: "worker_config \<Rightarrow> int \<Rightarrow> bool" where
  "clock_ok cfg now \<longleftrightarrow> 0 \<le> now \<and> now + int (receipt_poll_secs cfg) < 2 ^ 63
     \<and> now + int (retry_max_secs cfg) < 2 ^ 63"

definition settled :: "int \<Rightarrow> 'h relay_job \<Rightarrow> bool" where
  "settled now job \<longleftrightarrow> is_terminal (status job) \<or> (\<exists>t. next_attempt_at job = Some t \<and> t > now)"

lemma settledI: "next_attempt_at job = Some t \<Longrightarrow> now < t \<Longrightarrow> settled now job"
  by (simp add: settled_def)

lemma later: "0 \<le> now \<Longrightarrow> now + int d < 2 ^ 63 \<Longrightarrow> 1 \<le> d \<Longrightarrow> now < wrap_i64 (now + as_i64 d)"
  by (simp add: wrap_i64_id as_i64_id)

lemma next_poll_later:
  "clock_ok cfg now \<Longrightarrow> 1 \<le> receipt_poll_secs cfg \<Longrightarrow> \<exists>t. next_poll cfg now = Some t \<and> t > now"
  by (auto simp: next_poll_def clock_ok_def intro: later)

lemma retry_settled:
  assumes "clock_ok cfg now" and "1 \<le> retry_initial_secs cfg" and "retry_initial_secs cfg \<le> retry_max_secs cfg"
  shows "settled now (retry_job cfg now msg job)"
proof -
  let ?d = "backoff_secs (attempt_count job) (retry_initial_secs cfg) (retry_max_secs cfg)"
  have "(1 :: nat) * 1 \<le> retry_initial_secs cfg * 2 ^ min (attempt_count job - 1) 20"
    using assms(2) by (intro mult_le_mono) simp_all
  then have "1 \<le> ?d" "?d \<le> retry_max_secs cfg"
    using assms(2,3) by (auto simp: backoff_secs_def u64_sat_mul_def Let_def)
  moreover from this have "now + int ?d < 2 ^ 63" using assms(1) unfolding clock_ok_def by linarith
  ultimately have "now < wrap_i64 (now + as_i64 ?d)" using assms(1) by (intro later) (auto simp: clock_ok_def)
  then show ?thesis by (simp add: settled_def retry_job_def)
qed

lemma polling_settled:
  "clock_ok cfg now \<Longrightarrow> 1 \<le> receipt_poll_secs cfg \<Longrightarrow> settled now (polling_job cfg now job)"
  using next_poll_later [of cfg now] by (auto simp: settled_def polling_job_def)

lemma gone_settled:
  assumes "clock_ok cfg now" "1 \<le> receipt_poll_secs cfg" "fst (gone_machine G cfg now n job) = Ok ()"
  shows "settled now (snd (gone_machine G cfg now n job))"
  using assms(3) polling_settled [OF assms(1,2)] next_poll_later [OF assms(1,2)]
  by (auto simp: gone_machine_def Let_def settled_def confirmed_job_def polling_job_def
      split: outcome.splits option.splits if_splits)

lemma no_receipt_settled:
  assumes "clock_ok cfg now" "1 \<le> receipt_poll_secs cfg" "fst (no_receipt_machine G cfg now h job) = Ok ()"
  shows "settled now (snd (no_receipt_machine G cfg now h job))"
  using assms(3) gone_settled [OF assms(1,2)] next_poll_later [OF assms(1,2)] polling_settled [OF assms(1,2)]
  by (auto simp: no_receipt_machine_def intro: settledI split: outcome.splits option.splits)

lemma machine_settled:
  assumes clk: "clock_ok cfg now" and cfg: "load_worker_config env = Ok cfg"
    and ok: "fst (job_machine G cfg now job) = Ok ()"
  shows "settled now (snd (job_machine G cfg now job))"
proof -
  have c: "1 \<le> retry_initial_secs cfg" "retry_initial_secs cfg \<le> retry_max_secs cfg"
    "1 \<le> receipt_poll_secs cfg"
    using cfg by (auto simp: load_worker_config_def Let_def)
  note lem = retry_settled [OF clk c(1,2)] next_poll_later [OF clk c(3)] no_receipt_settled [OF clk c(3)]
  show ?thesis
  proof (cases "tx_hash job")
    case None
    then show ?thesis using ok lem(1,2)
      by (auto simp: job_machine_def send_machine_def Let_def submitted_job_def intro: settledI
          split: outcome.splits)
  next
    case (Some h)
    have fin: "settled now (failed_job now b m j)" "settled now (confirmed_job now h b j)"
      for b m and j :: "'a relay_job" by (simp_all add: settled_def failed_job_def confirmed_job_def)
    show ?thesis using ok lem(1) lem(3) [of G h "job\<lparr> updated_at := now \<rparr>"] fin
      by (auto simp: job_machine_def Some poll_machine_def Let_def split: outcome.splits option.splits)
  qed
qed

lemma set_row_nth:
  assumes "i < length db" and "r_job_id (db ! i) = job_id j"
  shows "set_row j db ! i = job_to_row j"
  using assms by (simp add: set_row_def)

text \<open>An iteration that picks the row at position \<open>i\<close>.\<close>

lemma worker_step_picked:
  assumes wf: "table_wf db" and i: "i < length db" and pick: "next_due_row db now = Some (db ! i)"
    and job: "row_to_job (db ! i) = Ok job"
  shows "snd (worker_step G cfg now now' db) ! i = job_to_row (snd (job_machine G cfg now' job))"
    and "fst (worker_step G cfg now now' db) = (if fst (job_machine G cfg now' job) = Panic then WorkerDied else Processed)"
proof -
  have due: "next_due_job db now = Ok (Some job)" by (simp add: next_due_job_def pick row_to_job_opt_def job)
  then have nt: "\<not> is_terminal (status job)" by (rule next_due_rowD)
  have p: "process_due_job G cfg now' job db
      = (fst (job_machine G cfg now' job), set_row (snd (job_machine G cfg now' job)) db)"
    using process_refines [OF picked_writable [OF wf _ job] nt] i by simp
  have "r_job_id (db ! i) = job_id (snd (job_machine G cfg now' job))"
    using machine_same [of job G cfg now'] row_to_jobD(1) [OF job] by (simp add: same_job_def)
  from set_row_nth [OF i this]
  show "snd (worker_step G cfg now now' db) ! i = job_to_row (snd (job_machine G cfg now' job))"
    by (auto simp: worker_step_def due p split: outcome.splits)
  show "fst (worker_step G cfg now now' db) = (if fst (job_machine G cfg now' job) = Panic then WorkerDied else Processed)"
    by (auto simp: worker_step_def due p split: outcome.splits)
qed

lemma machine_error: "fst (job_machine G cfg now job) = Err e \<Longrightarrow> get_next_nonce G = Err e"
proof -
  have mined: "find_mined G hs \<noteq> Err x" for hs x
    by (induction hs) (auto split: outcome.splits option.splits)
  have gone: "fst (gone_machine G cfg now n j) \<noteq> Err e" for n and j :: "'a relay_job"
    by (auto simp: gone_machine_def Let_def mined split: outcome.splits option.splits)
  have no: "fst (no_receipt_machine G cfg now h j) \<noteq> Err e" for h and j :: "'a relay_job"
    by (auto simp: no_receipt_machine_def gone split: outcome.splits option.splits)
  show "fst (job_machine G cfg now job) = Err e \<Longrightarrow> get_next_nonce G = Err e"
    by (auto simp: job_machine_def poll_machine_def send_machine_def Let_def no
        split: outcome.splits option.splits if_splits)
qed

text \<open>C17. The worker does not spin. With loaded settings and a gateway that can read the nonce, an
  iteration that finishes leaves the job it picked either finished or scheduled strictly later, so it is not picked
  again at the same instant.\<close>

theorem worker_makes_progress:
  assumes "relay_reach parse db" and "load_worker_config env = Ok cfg" and "clock_ok cfg now'"
    and "i < length db" and "next_due_row db now = Some (db ! i)" and "row_to_job (db ! i) = Ok job"
    and "fst (worker_step G cfg now now' db) = Processed" and "get_next_nonce G = Ok n"
  shows "\<not> is_due now' (snd (worker_step G cfg now now' db) ! i)"
proof -
  have wf: "table_wf db" using relay_inv_reach [OF assms(1)] by (simp add: relay_inv_def)
  let ?m = "job_machine G cfg now' job"
  note step = worker_step_picked [OF wf assms(4,5,6), of G cfg now']
  have "fst ?m = Ok ()"
    using step(2) assms(7,8) machine_error [of G cfg now' job] by (cases "fst ?m") auto
  then have "settled now' (snd ?m)" by (rule machine_settled [OF assms(3,2)])
  then show ?thesis
    unfolding step(1) by (cases "status (snd ?m)") (auto simp: is_due_def settled_def)
qed

text \<open>C18. The exception is a failing nonce query: it bypasses the retry schedule. The attempt is counted and
  the job stays in \<open>sending\<close> with its old schedule, still due at the same instant, even when its attempts are
  used up; no delay applies before the next one.\<close>

theorem nonce_failure_stays_due:
  assumes "relay_reach parse db" and "i < length db" and "next_due_row db now = Some (db ! i)"
    and "row_to_job (db ! i) = Ok job" and "r_tx_hash (db ! i) = None" and "get_next_nonce G = Err e"
  shows "fst (worker_step G cfg now now' db) = Processed
    \<and> is_due now (snd (worker_step G cfg now now' db) ! i)
    \<and> r_attempt_count (snd (worker_step G cfg now now' db) ! i) = as_i32 (u32_sat_add (attempt_count job) 1)
    \<and> r_last_error (snd (worker_step G cfg now now' db) ! i) = r_last_error (db ! i)"
proof -
  have wf: "table_wf db" using relay_inv_reach [OF assms(1)] by (simp add: relay_inv_def)
  note step = worker_step_picked [OF wf assms(2,3,4), of G cfg now']
  have "tx_hash job = None" using row_to_jobD(7) [OF assms(4)] assms(5) by simp
  then have m: "job_machine G cfg now' job = (Err e, sending_job now' job)"
    by (simp add: job_machine_def send_machine_def assms(6))
  have "is_due now (db ! i)" using next_due_row_spec [of db now] assms(3) by simp
  moreover have "last_error job = r_last_error (db ! i)" using assms(4) by (auto simp: row_to_job_def)
  ultimately show ?thesis
    unfolding step m using row_to_jobD(8) [OF assms(4)]
    by (auto simp: is_due_def sending_job_def job_to_row_def)
qed

lemma demo_pick: "next_due_row demo_table 100 = Some (demo_table ! 0)"
  "\<exists>j. row_to_job (demo_table ! 0) = Ok j \<and> attempt_count j = 0"
  by (simp_all add: demo_table_eq worker_demo del: obind_Ok_iff)

definition demo_no_nonce :: eth_gateway where
  "demo_no_nonce = demo_gateway\<lparr> get_next_nonce := Err ''rpc unavailable'' \<rparr>"

theorem nonce_failure_stays_due_witness:
  "is_due 100 (snd (worker_step demo_no_nonce (demo_worker_cfg\<lparr> max_attempts := 0 \<rparr>) 100 100 demo_table) ! 0)"
proof -
  obtain j where j: "row_to_job (demo_table ! 0) = Ok j" using demo_pick(2) by blast
  show ?thesis
    using nonce_failure_stays_due [OF demo_table_reach _ demo_pick(1) j, of demo_no_nonce]
    by (simp add: demo_no_nonce_def demo_table_eq)
qed

theorem worker_makes_progress_witness:
  "\<exists>cfg. load_worker_config (\<lambda>_. None) = Ok cfg
     \<and> \<not> is_due 100 (snd (worker_step demo_gateway cfg 100 100 demo_table) ! 0)"
proof -
  obtain j where j: "row_to_job (demo_table ! 0) = Ok j" using demo_pick(2) by blast
  obtain cfg where cfg: "load_worker_config (\<lambda>_. None) = Ok cfg" "clock_ok cfg 100"
    by (simp add: load_worker_config_def env_unsigned_def positive_def unwrap_or_def Let_def clock_ok_def
        DEFAULT_RETRY_MAX_SECS_def DEFAULT_RETRY_INITIAL_SECS_def DEFAULT_RECEIPT_POLL_SECS_def del: obind_Ok_iff)
  have wf: "table_wf demo_table" by (simp add: table_wf_def demo_table_eq)
  have tx: "tx_hash j = None" using row_to_jobD(7) [OF j] by (simp add: demo_table_eq)
  have "fst (worker_step demo_gateway cfg 100 100 demo_table) = Processed"
    using worker_step_picked(2) [OF wf _ demo_pick(1) j] tx
    by (simp add: demo_table_eq job_machine_def send_machine_def demo_gateway_def)
  then show ?thesis
    using worker_makes_progress [OF demo_table_reach cfg _ demo_pick(1) j, of demo_gateway] cfg(1)
    by (auto simp: demo_table_eq demo_gateway_def)
qed

lemma set_row_update:
  assumes wf: "table_wf db" and i: "i < length db" and id: "r_job_id (db ! i) = job_id j"
  shows "set_row j db = db[i := job_to_row j]"
proof (rule nth_equalityI)
  fix k assume k: "k < length (set_row j db)"
  then have "k < length db" by (simp add: set_row_def)
  moreover have "r_job_id (db ! k) = job_id j \<longleftrightarrow> k = i"
    using wf i id \<open>k < length db\<close> by (metis distinct_conv_nth length_map nth_map table_wf_def)
  ultimately show "set_row j db ! k = db[i := job_to_row j] ! k" by (simp add: set_row_def)
qed (simp add: set_row_def)

text \<open>C14. The worker implements the job machine. On a reachable table, an iteration changes exactly the picked
  row, and to what the one-job machine computes from the stored job, the gateway's answers and the clock:
  the intermediate writes leave no other trace.\<close>

theorem worker_refines_machine:
  assumes "relay_reach parse db" and "i < length db" and "next_due_row db now = Some (db ! i)"
    and "row_to_job (db ! i) = Ok job"
  shows "snd (worker_step G cfg now now' db) = db[i := job_to_row (snd (job_machine G cfg now' job))]"
proof -
  have wf: "table_wf db" using relay_inv_reach [OF assms(1)] by (simp add: relay_inv_def)
  have due: "next_due_job db now = Ok (Some job)"
    by (simp add: next_due_job_def assms(3,4) row_to_job_opt_def)
  then have nt: "\<not> is_terminal (status job)" by (rule next_due_rowD)
  have "r_job_id (db ! i) = job_id (snd (job_machine G cfg now' job))"
    using machine_same [of job G cfg now'] row_to_jobD(1) [OF assms(4)] by (simp add: same_job_def)
  then show ?thesis
    using process_refines [OF picked_writable [OF wf _ assms(4)] nt, of G cfg now'] assms(2)
      set_row_update [OF wf assms(2)]
    by (auto simp: worker_step_def due split: outcome.splits)
qed

theorem worker_refines_machine_witness:
  "\<exists>j. row_to_job (demo_table ! 0) = Ok j
    \<and> demo_sent = [job_to_row (snd (job_machine demo_gateway demo_worker_cfg 100 j))]"
proof -
  obtain j where j: "row_to_job (demo_table ! 0) = Ok j" using demo_pick(2) by blast
  show ?thesis
    using worker_refines_machine [OF demo_table_reach _ demo_pick(1) j, of demo_gateway demo_worker_cfg 100] j
    by (auto simp: demo_sent_def demo_table_eq)
qed

text \<open>C19. One failed receipt query can end a job that is already on its way. A job whose transaction was
  broadcast on its last allowed attempt, and whose receipt query then fails once for a passing reason,
  is marked failed for good, before any timeout and whatever becomes of the transaction.\<close>

theorem poll_error_after_last_attempt_fails:
  assumes "relay_reach parse db" and "i < length db" and "next_due_row db now = Some (db ! i)"
    and "row_to_job (db ! i) = Ok job" and "r_tx_hash (db ! i) = Some h"
    and "poll_receipt G h = Err e" and "\<not> is_permanent_error e"
    and "timed_out cfg now' job = None" and "max_attempts cfg \<le> attempt_count job"
  shows "r_status (snd (worker_step G cfg now now' db) ! i) = ''failed''
    \<and> r_tx_hash (snd (worker_step G cfg now now' db) ! i) = Some h"
proof -
  have wf: "table_wf db" using relay_inv_reach [OF assms(1)] by (simp add: relay_inv_def)
  have "tx_hash job = Some h" using row_to_jobD(7) [OF assms(4)] assms(5) by simp
  then show ?thesis
    unfolding worker_step_picked(1) [OF wf assms(2,3,4), of G cfg now'] using assms(6-9)
    by (simp add: job_machine_def poll_machine_def retry_job_def)
qed

lemma demo_sent_pick: "next_due_row demo_sent 106 = Some (demo_sent ! 0)"
  "\<exists>j. row_to_job (demo_sent ! 0) = Ok j \<and> attempt_count j = 1"
  by (simp_all add: demo_sent_eq worker_demo del: obind_Ok_iff)

theorem poll_error_after_last_attempt_fails_witness:
  "r_status (snd (worker_step (demo_gateway\<lparr> poll_receipt := \<lambda>h. Err ''rpc unavailable'' \<rparr>)
      (demo_worker_cfg\<lparr> max_attempts := 1 \<rparr>) 106 106 demo_sent) ! 0) = ''failed''"
proof -
  obtain j where j: "row_to_job (demo_sent ! 0) = Ok j" "attempt_count j = 1" using demo_sent_pick(2) by blast
  have "\<not> is_permanent_error ''rpc unavailable''"
    by (simp add: is_permanent_error_def contains_text_def upt_rec)
  then show ?thesis
    using poll_error_after_last_attempt_fails [OF demo_sent_reach _ demo_sent_pick(1) j(1),
        of "''0xaa''" "demo_gateway\<lparr> poll_receipt := \<lambda>h. Err ''rpc unavailable'' \<rparr>" "''rpc unavailable''"
           "demo_worker_cfg\<lparr> max_attempts := 1 \<rparr>" 106] j(2)
    by (simp add: demo_sent_eq timed_out_def demo_worker_cfg_def)
qed

end
