(* ===== verification/Relay_Eth.thy ===== *)
theory Relay_Eth
  imports Relay_Worker Byte_Codec
begin

text \<open>
  The relayer's Ethereum client (\<open>relayer/src/eth.rs\<close>): the gateway the worker uses, built on a JSON-RPC
  provider and a blob sidecar builder, which belong to other packages and are arguments.
\<close>

type_synonym tx_hash_bytes = "u8 list"

record 'sc tx_request =
  to_addr :: "u8 list"
  from_addr :: "u8 list"
  tx_value :: nat
  tx_nonce :: nat
  sidecar :: 'sc
  tx_max_fee_per_gas :: "nat option"
  tx_max_priority_fee_per_gas :: "nat option"
  tx_max_fee_per_blob_gas :: "nat option"

record rpc_transaction =
  rt_max_fee_per_gas :: nat
  rt_max_priority_fee_per_gas :: "nat option"
  rt_max_fee_per_blob_gas :: "nat option"

record rpc_receipt =
  rr_status :: bool
  rr_block_number :: "nat option"

record 'sc eth_provider =
  get_balance :: "u8 list \<Rightarrow> (string, nat) outcome"
  get_transaction_count :: "u8 list \<Rightarrow> (string, nat) outcome"
  latest_block_base_fee :: "(string, nat option option) outcome"
  get_max_priority_fee_per_gas :: "(string, nat) outcome"
  get_transaction_by_hash :: "tx_hash_bytes \<Rightarrow> (string, rpc_transaction option) outcome"
  get_transaction_receipt :: "tx_hash_bytes \<Rightarrow> (string, rpc_receipt option) outcome"
  send_transaction :: "'sc tx_request \<Rightarrow> (string, tx_hash_bytes) outcome"
  build_sidecar :: "u8 list \<Rightarrow> (string, 'sc) outcome"
  parse_b256 :: "string \<Rightarrow> (string, tx_hash_bytes) outcome"

record 'sc eth_client =
  provider :: "'sc eth_provider"
  ec_from :: "u8 list"
  ec_to :: "u8 list"
  ec_max_fee_per_blob_gas :: "nat option"

definition MIN_SIGNER_BALANCE_WEI :: nat where
  "MIN_SIGNER_BALANCE_WEI = 10000000000000000"

text \<open>\<open>EthClient::new\<close> once the key and the URL are parsed.\<close>

definition eth_client_new ::
    "'sc eth_provider \<Rightarrow> u8 list \<Rightarrow> u8 list \<Rightarrow> nat option \<Rightarrow> (string, 'sc eth_client) outcome" where
  "eth_client_new prov from_a to_a max_blob_fee =
     obind (get_balance prov from_a) (\<lambda>signer_balance.
       if signer_balance < MIN_SIGNER_BALANCE_WEI
       then Err (''insufficient signer balance for relayer startup: address=0x'' @ hex_encode from_a
                 @ '', balance_wei='' @ show_nat signer_balance @ '', min_required_wei=''
                 @ show_nat MIN_SIGNER_BALANCE_WEI)
       else Ok \<lparr> provider = prov, ec_from = from_a, ec_to = to_a, ec_max_fee_per_blob_gas = max_blob_fee \<rparr>)"

definition tx_hash_text :: "tx_hash_bytes \<Rightarrow> string" where
  "tx_hash_text h = ''0x'' @ hex_encode h"

definition parse_tx_hash :: "'sc eth_client \<Rightarrow> string \<Rightarrow> (string, tx_hash_bytes) outcome" where
  "parse_tx_hash C h =
     map_err (\<lambda>e. ''invalid tx hash '' @ [char_of (39 :: nat)] @ h @ [char_of (39 :: nat)] @ '': '' @ e)
       (parse_b256 (provider C) h)"

definition client_submit_payload :: "'sc eth_client \<Rightarrow> u8 list \<Rightarrow> nat \<Rightarrow> (string, string) outcome" where
  "client_submit_payload C bytes n =
     obind (map_err (\<lambda>e. ''build blob sidecar: '' @ e) (build_sidecar (provider C) bytes)) (\<lambda>sc.
     obind (send_transaction (provider C)
       \<lparr> to_addr = ec_to C, from_addr = ec_from C, tx_value = 0, tx_nonce = n, sidecar = sc,
         tx_max_fee_per_gas = None, tx_max_priority_fee_per_gas = None,
         tx_max_fee_per_blob_gas = ec_max_fee_per_blob_gas C \<rparr>) (\<lambda>h. Ok (tx_hash_text h)))"

definition client_get_next_nonce :: "'sc eth_client \<Rightarrow> (string, nat) outcome" where
  "client_get_next_nonce C = get_transaction_count (provider C) (ec_from C)"

definition client_get_current_fees :: "'sc eth_client \<Rightarrow> (string, fee_estimate) outcome" where
  "client_get_current_fees C =
     obind (latest_block_base_fee (provider C)) (\<lambda>blk.
     obind (ok_or ''latest block not available'' blk) (\<lambda>base_fee.
     obind (ok_or ''latest block missing base_fee_per_gas'' base_fee) (\<lambda>base.
     obind (get_max_priority_fee_per_gas (provider C)) (\<lambda>priority_fee.
     Ok \<lparr> base_fee_per_gas = base, fe_max_priority_fee_per_gas = priority_fee \<rparr>))))"

definition client_get_pending_tx_fees :: "'sc eth_client \<Rightarrow> string \<Rightarrow> (string, pending_tx_fees option) outcome" where
  "client_get_pending_tx_fees C h =
     obind (parse_tx_hash C h) (\<lambda>hash.
     obind (get_transaction_by_hash (provider C) hash) (\<lambda>tx.
     Ok (map_option (\<lambda>t. \<lparr> pf_max_fee_per_gas = rt_max_fee_per_gas t,
           pf_max_priority_fee_per_gas = (case rt_max_priority_fee_per_gas t of None \<Rightarrow> 0 | Some f \<Rightarrow> f),
           pf_max_fee_per_blob_gas = rt_max_fee_per_blob_gas t \<rparr>) tx)))"

definition client_submit_payload_with_fees ::
    "'sc eth_client \<Rightarrow> u8 list \<Rightarrow> nat \<Rightarrow> fee_overrides \<Rightarrow> (string, string) outcome" where
  "client_submit_payload_with_fees C bytes n fees =
     obind (map_err (\<lambda>e. ''build blob sidecar: '' @ e) (build_sidecar (provider C) bytes)) (\<lambda>sc.
     obind (send_transaction (provider C)
       \<lparr> to_addr = ec_to C, from_addr = ec_from C, tx_value = 0, tx_nonce = n, sidecar = sc,
         tx_max_fee_per_gas = Some (fo_max_fee_per_gas fees),
         tx_max_priority_fee_per_gas = Some (fo_max_priority_fee_per_gas fees),
         tx_max_fee_per_blob_gas = fo_max_fee_per_blob_gas fees \<rparr>) (\<lambda>h. Ok (tx_hash_text h)))"

definition client_poll_receipt :: "'sc eth_client \<Rightarrow> string \<Rightarrow> (string, receipt_outcome option) outcome" where
  "client_poll_receipt C h =
     obind (parse_tx_hash C h) (\<lambda>hash.
     obind (get_transaction_receipt (provider C) hash) (\<lambda>receipt.
     Ok (map_option (\<lambda>r. \<lparr> success = rr_status r, ro_block_number = rr_block_number r \<rparr>) receipt)))"

text \<open>\<open>impl EthGateway for EthClient\<close>.\<close>

definition client_gateway :: "'sc eth_client \<Rightarrow> eth_gateway" where
  "client_gateway C =
     \<lparr> submit_payload = client_submit_payload C, poll_receipt = client_poll_receipt C,
       get_next_nonce = client_get_next_nonce C, get_current_fees = client_get_current_fees C,
       get_pending_tx_fees = client_get_pending_tx_fees C,
       submit_payload_with_fees = client_submit_payload_with_fees C \<rparr>"

end
