(* ===== verification/Archive_Store.thy ===== *)
theory Archive_Store
  imports Eth_Clients "HOL-Library.List_Lexorder" "HOL-Library.Char_ord"
begin

text \<open>
  The archiver's blob store (\<open>archiver/src/node.rs\<close>, \<open>Store\<close>) on a model of the part of the file
  system it owns: paths below \<open>BLOBS_PATH\<close>, each a directory, a file or a symbolic link. Operations
  that touch several files are sequences of primitive operations, so that a crash between two of
  them is a prefix of the sequence. The text of a 32-byte value and the JSON of a header come from other
  packages and are arguments.
\<close>

section \<open>Files\<close>

type_synonym path = "string list"

datatype fs_node = Dir | File "u8 list" | Symlink path

type_synonym fs = "(path \<times> fs_node) list"

datatype io_error = NotFoundIo | IoError string

definition fs_node_at :: "fs \<Rightarrow> path \<Rightarrow> fs_node option" where
  "fs_node_at fs p = (if p = [] then Some Dir else map_of fs p)"

definition entries :: "fs \<Rightarrow> path \<Rightarrow> string list" where
  "entries fs p = List.map_filter (\<lambda>(q, n). if q \<noteq> [] \<and> butlast q = p then Some (last q) else None) fs"

definition read_dir :: "fs \<Rightarrow> path \<Rightarrow> (io_error, string list) outcome" where
  "read_dir fs p =
     (case fs_node_at fs p of
        None \<Rightarrow> Err NotFoundIo
      | Some Dir \<Rightarrow> Ok (entries fs p)
      | Some _ \<Rightarrow> Err (IoError ''not a directory''))"

definition remove_dir :: "path \<Rightarrow> fs \<Rightarrow> (io_error, fs) outcome" where
  "remove_dir p fs =
     (case fs_node_at fs p of
        None \<Rightarrow> Err NotFoundIo
      | Some Dir \<Rightarrow> if entries fs p = [] then Ok (filter (\<lambda>(q, n). q \<noteq> p) fs)
                     else Err (IoError ''directory not empty'')
      | Some _ \<Rightarrow> Err (IoError ''not a directory''))"

definition remove_dir_all :: "path \<Rightarrow> fs \<Rightarrow> fs" where
  "remove_dir_all p fs = filter (\<lambda>(q, n). take (length p) q \<noteq> p) fs"

definition remove_file :: "path \<Rightarrow> fs \<Rightarrow> fs" where
  "remove_file p fs = filter (\<lambda>(q, n). q \<noteq> p) fs"

text \<open>A relative link target, read from the directory that holds the link.\<close>

fun join_path :: "path \<Rightarrow> path \<Rightarrow> path" where
  "join_path base [] = base"
| "join_path base (c # cs) = (if c = ''..'' then join_path (butlast base) cs else join_path (base @ [c]) cs)"

text \<open>Opening a file in a directory that may be given as a link.\<close>

definition resolve_in :: "fs \<Rightarrow> path \<Rightarrow> string \<Rightarrow> path" where
  "resolve_in fs dir name =
     (case fs_node_at fs dir of
        Some (Symlink target) \<Rightarrow> join_path (butlast dir) target @ [name]
      | _ \<Rightarrow> dir @ [name])"

definition read_file :: "fs \<Rightarrow> path \<Rightarrow> (io_error, u8 list) outcome" where
  "read_file fs p =
     (case fs_node_at fs p of
        None \<Rightarrow> Err NotFoundIo
      | Some (File data) \<Rightarrow> Ok data
      | Some _ \<Rightarrow> Err (IoError ''is a directory''))"

text \<open>The writing operations.\<close>

datatype fs_op = MkDirAll path | MkSymlink path path | WriteFile path "u8 list" | RenameFile path path

definition prefixes_of :: "path \<Rightarrow> path list" where
  "prefixes_of p = map (\<lambda>k. take k p) [1 ..< Suc (length p)]"

definition mk_dir :: "path \<Rightarrow> fs \<Rightarrow> (io_error, fs) outcome" where
  "mk_dir p fs =
     (case fs_node_at fs p of
        None \<Rightarrow> Ok (fs @ [(p, Dir)])
      | Some Dir \<Rightarrow> Ok fs
      | Some _ \<Rightarrow> Err (IoError ''not a directory''))"

fun exec_op :: "fs_op \<Rightarrow> fs \<Rightarrow> (io_error, fs) outcome" where
  "exec_op (MkDirAll p) fs = ofold mk_dir (prefixes_of p) fs"
| "exec_op (MkSymlink target p) fs =
     (if fs_node_at fs p \<noteq> None then Err (IoError ''file exists'')
      else if fs_node_at fs (butlast p) \<noteq> Some Dir then Err NotFoundIo
      else Ok (fs @ [(p, Symlink target)]))"
| "exec_op (WriteFile p data) fs =
     (if fs_node_at fs (butlast p) \<noteq> Some Dir then Err NotFoundIo
      else if fs_node_at fs p = Some Dir then Err (IoError ''is a directory'')
      else Ok (hm_insert p (File data) fs))"
| "exec_op (RenameFile p q) fs =
     (case fs_node_at fs p of
        Some (File data) \<Rightarrow>
          if fs_node_at fs (butlast q) \<noteq> Some Dir then Err NotFoundIo
          else Ok (hm_insert q (File data) (remove_file p fs))
      | _ \<Rightarrow> Err NotFoundIo)"

section \<open>Names\<close>

text \<open>\<open>Display\<close> and \<open>FromStr\<close> of \<open>B256\<close>.\<close>

record b256_text =
  show_b256 :: "b256 \<Rightarrow> string"
  read_b256 :: "string \<Rightarrow> (string, b256) outcome"

definition blob_file_name :: "b256_text \<Rightarrow> nat \<Rightarrow> b256 \<Rightarrow> string" where
  "blob_file_name T index vh = ''blob-'' @ pad_nat 2 index @ ''_'' @ show_b256 T vh @ ''.bin''"

definition parse_blob_file_name :: "b256_text \<Rightarrow> string \<Rightarrow> (string, (nat \<times> b256) option) outcome" where
  "parse_blob_file_name T file_name =
     (case Option.bind (strip_prefix ''blob-'' file_name) (strip_suffix ''.bin'') of
        None \<Rightarrow> Ok None
      | Some s \<Rightarrow>
          (case split_at (CHR ''_'') s of
             [index_str, versioned_hash_str] \<Rightarrow>
               (case parse_unsigned (2 ^ 64) index_str of
                  None \<Rightarrow> Err ''invalid index''
                | Some index \<Rightarrow>
                    obind (read_b256 T versioned_hash_str) (\<lambda>versioned_hash.
                      Ok (Some (index, versioned_hash))))
           | _ \<Rightarrow> Panic))"

definition DIR_LEVELS :: nat where
  "DIR_LEVELS = 3"

definition slot_dir :: "nat \<Rightarrow> path" where
  "slot_dir slot =
     (let slot_hi = slot div 1000000;
          slot_mid = (slot - slot_hi * 1000000) div 1000;
          slot_lo = slot - slot_hi * 1000000 - slot_mid * 1000
      in [''by_slot'', pad_nat 3 slot_hi, pad_nat 3 slot_mid, pad_nat 3 slot_lo])"

text \<open>The slices panic on a text shorter than eight characters.\<close>

definition root_dir :: "b256_text \<Rightarrow> b256 \<Rightarrow> path" where
  "root_dir T root =
     (let s = show_b256 T root in [''by_root'', take 5 s, take 3 (drop 5 s), drop 8 s])"

section \<open>Reading and deleting blocks\<close>

text \<open>The climb to the highest directory that only holds this block.\<close>

fun climb :: "fs \<Rightarrow> nat \<Rightarrow> path \<Rightarrow> (io_error, path) outcome" where
  "climb fs 0 p = Ok p"
| "climb fs (Suc k) p =
     obind (read_dir fs (butlast p)) (\<lambda>es. if length es = 1 then climb fs k (butlast p) else Ok p)"

definition delete_block_data :: "path \<Rightarrow> fs \<Rightarrow> (io_error, bool \<times> fs) outcome" where
  "delete_block_data slot_path fs =
     (case fs_node_at fs slot_path of
        None \<Rightarrow> Ok (False, fs)
      | Some (Symlink target) \<Rightarrow>
          let root_path = drop 3 target
          in obind (if fs_node_at fs root_path \<noteq> None
                    then obind (climb fs (DIR_LEVELS - 1) root_path) (\<lambda>p. Ok (remove_dir_all p fs))
                    else Ok fs) (\<lambda>fs'. Ok (True, remove_file slot_path fs'))
      | Some _ \<Rightarrow> Err (IoError ''invalid argument''))"

datatype descent = NoBlocks | EmptyDir path | Leaf path

text \<open>The descent to the highest slot path, \<open>left\<close> levels below \<open>p\<close>.\<close>

fun descend :: "fs \<Rightarrow> bool \<Rightarrow> nat \<Rightarrow> path \<Rightarrow> (io_error, descent) outcome" where
  "descend fs is_top 0 p = Ok (Leaf p)"
| "descend fs is_top (Suc left) p =
     (case read_dir fs p of
        Panic \<Rightarrow> Panic
      | Err NotFoundIo \<Rightarrow> Ok NoBlocks
      | Err e \<Rightarrow> Err e
      | Ok es \<Rightarrow>
          if es = [] then (if is_top then Ok NoBlocks else Ok (EmptyDir p))
          else descend fs False left (p @ [Max (set es)]))"

definition HEADER_JSON :: string where
  "HEADER_JSON = ''header.json''"

text \<open>One turn of the loop in \<open>last_header\<close>: the header found, no block, or the store after removing
  an empty directory or a stale block.\<close>

datatype 'hd turn = Found 'hd | NoneFound | Again fs

definition last_header_turn :: "(u8 list \<Rightarrow> (string, 'hd) outcome) \<Rightarrow> fs \<Rightarrow> (io_error, 'hd turn) outcome" where
  "last_header_turn from_json fs =
     obind (descend fs True DIR_LEVELS [''by_slot'']) (\<lambda>d.
       case d of
         NoBlocks \<Rightarrow> Ok NoneFound
       | EmptyDir p \<Rightarrow> obind (remove_dir p fs) (\<lambda>fs'. Ok (Again fs'))
       | Leaf slot_path \<Rightarrow>
           (case read_file fs (resolve_in fs slot_path HEADER_JSON) of
              Panic \<Rightarrow> Panic
            | Err NotFoundIo \<Rightarrow> obind (delete_block_data slot_path fs) (\<lambda>(b, fs'). Ok (Again fs'))
            | Err e \<Rightarrow> Err e
            | Ok data \<Rightarrow> obind (map_err IoError (from_json data)) (\<lambda>h. Ok (Found h))))"

lemma entries_iff: "n \<in> set (entries fs p) \<longleftrightarrow> p @ [n] \<in> fst ` set fs"
proof -
  have "n \<in> set (entries fs p) \<longleftrightarrow> (\<exists>q \<in> fst ` set fs. q \<noteq> [] \<and> butlast q = p \<and> last q = n)"
    by (induction fs) (auto simp: entries_def map_filter_simps split: if_splits)
  also have "\<dots> \<longleftrightarrow> p @ [n] \<in> fst ` set fs" by (metis append_butlast_last_id snoc_eq_iff_butlast)
  finally show ?thesis .
qed

lemma fs_node_at_key: "p \<noteq> [] \<Longrightarrow> fs_node_at fs p \<noteq> None \<longleftrightarrow> p \<in> fst ` set fs"
  by (simp add: fs_node_at_def map_of_eq_None_iff)

lemma descend_key:
  assumes "descend fs is_top left p = Ok d" and "p \<noteq> []"
  shows "d = Leaf q \<Longrightarrow> left \<noteq> 0 \<Longrightarrow> q \<noteq> [] \<and> q \<in> fst ` set fs" and "d = EmptyDir q \<Longrightarrow> q \<noteq> []"
  using assms
proof (induction fs is_top left p rule: descend.induct)
  case (2 fs is_top left p)
  {
    case 1
    then obtain es where es: "read_dir fs p = Ok es" "es \<noteq> []"
      "descend fs False left (p @ [Max (set es)]) = Ok d"
      by (auto split: outcome.splits io_error.splits if_splits)
    then have "Max (set es) \<in> set (entries fs p)"
      using Max_in [of "set es"] by (auto simp: read_dir_def split: option.splits fs_node.splits)
    then have "p @ [Max (set es)] \<in> fst ` set fs" by (simp add: entries_iff)
    then show ?case using "2.IH"(1) [OF es(1,2)] es 1 by (cases left) auto
  next
    case 2
    then show ?case using "2.IH"(2)
      by (auto split: outcome.splits io_error.splits if_splits)
  }
qed auto

lemma shorter_filter: "x \<in> set xs \<Longrightarrow> \<not> P x \<Longrightarrow> length (filter P xs) < length xs"
  by (induction xs) (auto simp: less_Suc_eq_le)

lemma shorter_remove: "p \<in> fst ` set fs \<Longrightarrow> length (filter (\<lambda>(q, n). q \<noteq> p) fs) < length fs"
  by (auto intro: shorter_filter)

text \<open>Every turn that goes on removes something from the store.\<close>

lemma last_header_turn_shrinks:
  assumes "last_header_turn from_json fs = Ok (Again fs')"
  shows "length fs' < length fs"
proof -
  from assms obtain d where d: "descend fs True DIR_LEVELS [''by_slot''] = Ok d"
    and turn: "(case d of NoBlocks \<Rightarrow> Ok NoneFound
       | EmptyDir p \<Rightarrow> obind (remove_dir p fs) (\<lambda>fs'. Ok (Again fs'))
       | Leaf slot_path \<Rightarrow>
           (case read_file fs (resolve_in fs slot_path HEADER_JSON) of
              Panic \<Rightarrow> Panic
            | Err NotFoundIo \<Rightarrow> obind (delete_block_data slot_path fs) (\<lambda>(b, fs'). Ok (Again fs'))
            | Err e \<Rightarrow> Err e
            | Ok data \<Rightarrow> obind (map_err IoError (from_json data)) (\<lambda>h. Ok (Found h)))) = Ok (Again fs')"
    by (auto simp: last_header_turn_def)
  show ?thesis
  proof (cases d)
    case (EmptyDir p)
    have "p \<noteq> []" using descend_key(2) [OF d _ EmptyDir] by simp
    then show ?thesis
      using turn fs_node_at_key [of p fs]
      by (auto simp: EmptyDir remove_dir_def intro!: shorter_filter split: option.splits fs_node.splits if_splits)
  next
    case (Leaf p)
    have p: "p \<noteq> []" "p \<in> fst ` set fs" using descend_key(1) [OF d _ Leaf] by (simp_all add: DIR_LEVELS_def)
    then obtain node where node: "fs_node_at fs p = Some node" using fs_node_at_key by blast
    have le: "length (remove_file p gs) \<le> length gs" for gs by (simp add: remove_file_def)
    have "length (remove_file p (remove_dir_all q fs)) < length fs" for q
    proof (cases "take (length q) p = q")
      case True
      then have "length (remove_dir_all q fs) < length fs"
        using p(2) unfolding remove_dir_all_def by (auto intro: shorter_filter)
      then show ?thesis using le order.strict_trans1 by blast
    next
      case False
      then have "p \<in> fst ` set (remove_dir_all q fs)" using p(2) by (force simp: remove_dir_all_def)
      then show ?thesis
        using shorter_remove [of p "remove_dir_all q fs"] length_filter_le [of _ fs]
        unfolding remove_file_def remove_dir_all_def by (meson order.strict_trans2)
    qed
    moreover have "length (remove_file p fs) < length fs"
      using shorter_remove [OF p(2)] by (simp add: remove_file_def)
    ultimately show ?thesis
      using turn by (auto simp: Leaf node delete_block_data_def Let_def
          split: outcome.splits io_error.splits fs_node.splits if_splits)
  qed (use turn in simp)
qed

function last_header :: "(u8 list \<Rightarrow> (string, 'hd) outcome) \<Rightarrow> fs \<Rightarrow> (io_error, 'hd option) outcome \<times> fs" where
  "last_header from_json fs =
     (case last_header_turn from_json fs of
        Panic \<Rightarrow> (Panic, fs)
      | Err e \<Rightarrow> (Err e, fs)
      | Ok (Found h) \<Rightarrow> (Ok (Some h), fs)
      | Ok NoneFound \<Rightarrow> (Ok None, fs)
      | Ok (Again fs') \<Rightarrow> last_header from_json fs')"
  by pat_completeness auto
termination
  by (relation "measure (\<lambda>(f, fs). length fs)") (auto intro: last_header_turn_shrinks)

declare last_header.simps [simp del]

end
