(* ===== verification/Archive_Node.thy ===== *)
theory Archive_Node
  imports Archive_Store Sync_Node
begin

text \<open>
  The archiver (\<open>archiver/src/node.rs\<close>, \<open>main.rs\<close>, \<open>api.rs\<close>): storing the blobs of a block behind a
  temporary header, following the chain with its reorgs, and serving stored blobs. Nodes answer through
  the same record as for the synchronizer, with the address to filter by as its target address.
\<close>

section \<open>The store's blobs\<close>

text \<open>What other packages provide: the text of 32-byte values, the JSON of headers, and the size check of
  a blob.\<close>

record archive_lib =
  al_text :: b256_text
  header_to_json :: "block_header \<Rightarrow> u8 list"
  header_from_json :: "u8 list \<Rightarrow> (string, block_header) outcome"
  heap_blob_from_bytes :: "u8 list \<Rightarrow> (string, u8 list) outcome"

type_synonym stored_blob = "nat \<times> b256 \<times> u8 list"

fun io_message :: "io_error \<Rightarrow> string" where
  "io_message NotFoundIo = ''No such file or directory''"
| "io_message (IoError m) = m"

definition io_cause :: "io_error \<Rightarrow> error" where
  "io_cause e = [CMsg (io_message e)]"

definition msg_cause :: "string \<Rightarrow> error" where
  "msg_cause m = [CMsg m]"

definition load_entry :: "archive_lib \<Rightarrow> fs \<Rightarrow> path \<Rightarrow> string \<Rightarrow> (error, stored_blob option) outcome" where
  "load_entry A fs dir file_name =
     obind (map_err msg_cause (parse_blob_file_name (al_text A) file_name)) (\<lambda>r.
       case r of
         None \<Rightarrow> Ok None
       | Some (index, versioned_hash) \<Rightarrow>
           obind (map_err io_cause (read_file fs (dir @ [file_name]))) (\<lambda>data.
           obind (map_err msg_cause (heap_blob_from_bytes A data)) (\<lambda>blob.
           Ok (Some (index, versioned_hash, blob)))))"

definition load_blobs_disk :: "archive_lib \<Rightarrow> fs \<Rightarrow> b256 \<Rightarrow> (error, stored_blob list) outcome" where
  "load_blobs_disk A fs root =
     (let dir = root_dir (al_text A) root
      in case read_dir fs dir of
           Panic \<Rightarrow> Panic
         | Err NotFoundIo \<Rightarrow> Ok []
         | Err e \<Rightarrow> Err (io_cause e)
         | Ok names \<Rightarrow>
             obind (omap (load_entry A fs dir) names) (\<lambda>bs. Ok (sort_key fst (List.map_filter id bs))))"

definition store_blob_ops :: "archive_lib \<Rightarrow> b256 \<Rightarrow> stored_blob list \<Rightarrow> fs_op list" where
  "store_blob_ops A root blobs =
     (let dir = root_dir (al_text A) root
      in MkDirAll dir # concat (map (\<lambda>(index, vh, blob).
           let name = blob_file_name (al_text A) index vh
           in [WriteFile (dir @ [name @ ''.tmp'']) blob,
               RenameFile (dir @ [name @ ''.tmp'']) (dir @ [name])]) blobs))"

text \<open>Running the operations one by one; the store keeps what was done before a failure.\<close>

fun exec_ops :: "fs_op list \<Rightarrow> fs \<Rightarrow> (error, unit) outcome \<times> fs" where
  "exec_ops [] fs = (Ok (), fs)"
| "exec_ops (op # ops) fs =
     (case exec_op op fs of
        Ok fs' \<Rightarrow> exec_ops ops fs'
      | Err e \<Rightarrow> (Err (io_cause e), fs)
      | Panic \<Rightarrow> (Panic, fs))"

section \<open>Archiving a block\<close>

text \<open>The requested blobs that the store has, and the ones it lacks, both in request order.\<close>

definition stored_match :: "stored_blob list \<Rightarrow> b256 \<Rightarrow> stored_blob option" where
  "stored_match blobs vh = List.find (\<lambda>(i, vh0, b). vh0 = vh) blobs"

fun index_missing ::
    "(b256 \<times> bytes48) list \<Rightarrow> (b256 \<times> u8 list) list \<Rightarrow> (error, stored_blob list) outcome" where
  "index_missing commitments [] = Ok []"
| "index_missing commitments ((vh, blob) # rest) =
     (case List.find (\<lambda>i. fst (commitments ! i) = vh) [0 ..< length commitments] of
        None \<Rightarrow> Panic
      | Some index \<Rightarrow> obind (index_missing commitments rest) (\<lambda>bs. Ok ((index, vh, blob) # bs)))"

definition archive_get_blobs ::
    "archive_lib \<Rightarrow> node_env \<Rightarrow> block_header \<Rightarrow> (b256 \<times> bytes48) list \<Rightarrow> b256 list \<Rightarrow> fs
     \<Rightarrow> (error, stored_blob list) outcome \<times> fs" where
  "archive_get_blobs A E header commitments versioned_hashes fs =
     (case load_blobs_disk A fs (bh_root header) of
        Err e \<Rightarrow> (Err e, fs)
      | Panic \<Rightarrow> (Panic, fs)
      | Ok blobs \<Rightarrow>
          let result = List.map_filter (stored_match blobs) versioned_hashes;
              missing_vhs = filter (\<lambda>vh. stored_match blobs vh = None) versioned_hashes
          in if missing_vhs = [] then (Ok result, fs)
             else (case fetch_once_available availability_default
                          (''blobs of block '' @ show_b256 (al_text A) (bh_root header))
                          (\<lambda>n. map_err (\<lambda>e. [CClient e])
                                 (result_some (env_blobs E (bh_root header) missing_vhs n))) of
                     Err e \<Rightarrow> (Err e, fs)
                   | Panic \<Rightarrow> (Panic, fs)
                   | Ok fetched \<Rightarrow>
                       if length fetched \<noteq> length missing_vhs then (Panic, fs)
                       else (case index_missing commitments (zip missing_vhs fetched) of
                               Err e \<Rightarrow> (Err e, fs)
                             | Panic \<Rightarrow> (Panic, fs)
                             | Ok missing_blobs \<Rightarrow>
                                 sbind (exec_ops (store_blob_ops A (bh_root header) missing_blobs) fs)
                                   (\<lambda>_ fs'. (Ok (result @ missing_blobs), fs')))))"

definition filtered_hashes :: "node_env \<Rightarrow> rpc_tx list \<Rightarrow> b256 list" where
  "filtered_hashes E txs =
     concat (List.map_filter rt_blob_versioned_hashes
       (filter (\<lambda>tx. rt_blob_versioned_hashes tx \<noteq> None \<and> rt_to tx = Some (env_to_address E)) txs))"

definition process_payload_blobs ::
    "archive_lib \<Rightarrow> node_env \<Rightarrow> block_header \<Rightarrow> block \<Rightarrow> fs \<Rightarrow> (error, unit) outcome \<times> fs" where
  "process_payload_blobs A E header blk fs =
     (let execution_block_hash = payload_block_hash (execution_payload blk);
          commitments = map (\<lambda>c. (kzg_to_versioned_hash E c, c)) (blob_kzg_commitments blk)
      in if commitments = [] then (Ok (), fs)
         else (case fetch_once_available availability_default
                      (''execution block '' @ show_b256 (al_text A) execution_block_hash)
                      (\<lambda>n. map_err (\<lambda>e. [CTransport e]) (env_exec E execution_block_hash True n)) of
                 Err e \<Rightarrow> (Err e, fs)
               | Panic \<Rightarrow> (Panic, fs)
               | Ok xb \<Rightarrow>
                   (case xb_transactions xb of
                      None \<Rightarrow> (Err [CMsg (''Consensus block '' @ show_b256 (al_text A) (bh_root header)
                                 @ '' has blobs but the execution block doesn't have txs'')], fs)
                    | Some txs \<Rightarrow>
                        let vhs = filtered_hashes E txs
                        in if vhs = [] then (Ok (), fs)
                           else sbind (archive_get_blobs A E header commitments vhs fs) (\<lambda>blobs fs'.
                                  if length blobs = length vhs then (Ok (), fs') else (Panic, fs')))))"

definition archive_get_block :: "archive_lib \<Rightarrow> node_env \<Rightarrow> b256 \<Rightarrow> (error, block) outcome" where
  "archive_get_block A E root =
     fetch_once_available availability_default (''beacon block '' @ show_b256 (al_text A) root)
       (\<lambda>n. map_err (\<lambda>e. [CClient e]) (env_block E root n))"

definition process_beacon_block_blobs ::
    "archive_lib \<Rightarrow> node_env \<Rightarrow> block_header \<Rightarrow> block_and_root option \<Rightarrow> fs
     \<Rightarrow> (error, block_and_root) outcome \<times> fs" where
  "process_beacon_block_blobs A E header prev_block fs =
     sbind (archive_get_block A E (bh_root header), fs) (\<lambda>blk fs.
       let done = \<lparr> br_root = bh_root header, br_block = blk \<rparr>
       in case execution_payload blk of
            Embedded _ \<Rightarrow>
              sbind (process_payload_blobs A E header blk fs) (\<lambda>_ fs. (Ok done, fs))
          | Bid _ _ \<Rightarrow>
              sbind (case prev_block of
                       Some prev \<Rightarrow> if br_root prev = bh_parent_root header then Ok (br_block prev)
                                    else archive_get_block A E (bh_parent_root header)
                     | None \<Rightarrow> archive_get_block A E (bh_parent_root header), fs) (\<lambda>parent_block fs.
                if \<not> builds_on_payload_of blk parent_block then (Ok done, fs)
                else let parent_header = \<lparr> bh_root = bh_parent_root header,
                           bh_parent_root = b_parent_root parent_block, bh_slot = b_slot parent_block \<rparr>
                     in sbind (process_payload_blobs A E parent_header parent_block fs)
                          (\<lambda>_ fs. (Ok done, fs))))"

text \<open>The file operations before and after the blobs of a block: the link by slot, the directory by root, the
  temporary header, and at the end its final name.\<close>

definition begin_ops :: "archive_lib \<Rightarrow> block_header \<Rightarrow> fs_op list" where
  "begin_ops A header =
     (let slot_path = slot_dir (bh_slot header);
          dir = root_dir (al_text A) (bh_root header)
      in [MkDirAll (butlast slot_path), MkSymlink ([''..'', ''..'', ''..''] @ dir) slot_path,
          MkDirAll dir, WriteFile (dir @ [HEADER_JSON @ ''.tmp'']) (header_to_json A header)])"

definition end_ops :: "archive_lib \<Rightarrow> block_header \<Rightarrow> fs_op list" where
  "end_ops A header =
     (let dir = root_dir (al_text A) (bh_root header)
      in [RenameFile (dir @ [HEADER_JSON @ ''.tmp'']) (dir @ [HEADER_JSON])])"

definition process_beacon_block_header ::
    "archive_lib \<Rightarrow> node_env \<Rightarrow> block_header \<Rightarrow> block_and_root option \<Rightarrow> fs
     \<Rightarrow> (error, block_and_root) outcome \<times> fs" where
  "process_beacon_block_header A E header prev_block fs =
     sbind (exec_ops (begin_ops A header) fs) (\<lambda>_ fs.
     sbind (process_beacon_block_blobs A E header prev_block fs) (\<lambda>blk fs.
     sbind (exec_ops (end_ops A header) fs) (\<lambda>_ fs. (Ok blk, fs))))"

section \<open>Following the chain\<close>

record archive_vars =
  av_head :: block_header
  av_prev_header :: "block_header option"
  av_slot :: nat
  av_prev_block :: "block_and_root option"

datatype archive_phase = AStarting | AFollowing archive_vars | ARestarting | AFailed error | ADead

record archive_state =
  as_phase :: archive_phase
  as_fs :: fs
  as_last_header :: "block_header option"

definition get_head_header :: "node_env \<Rightarrow> (error, block_header) outcome" where
  "get_head_header E =
     fetch_once_available availability_default ''beacon head header''
       (\<lambda>n. map_err (\<lambda>e. [CClient e]) (env_header E Head n))"

definition slot_header :: "node_env \<Rightarrow> nat \<Rightarrow> (error, block_header option) outcome" where
  "slot_header E slot = map_err (\<lambda>e. [CClient e]) (env_header E (Slot slot) 0)"

text \<open>The header of the next slot; the outer option is \<open>None\<close> while the head has not reached it.\<close>

definition next_header :: "node_env \<Rightarrow> archive_vars \<Rightarrow> (error, block_header \<times> block_header option option) outcome" where
  "next_header E v =
     (if av_slot v \<le> bh_slot (av_head v)
      then obind (slot_header E (av_slot v)) (\<lambda>h. Ok (av_head v, Some h))
      else obind (get_head_header E) (\<lambda>head.
             if bh_slot head > av_slot v then obind (slot_header E (av_slot v)) (\<lambda>h. Ok (head, Some h))
             else if bh_slot head = av_slot v then Ok (head, Some (Some head))
             else Ok (head, None)))"

definition store_last_header :: "archive_lib \<Rightarrow> fs \<Rightarrow> (error, block_header option) outcome \<times> fs" where
  "store_last_header A fs = (case last_header (header_from_json A) fs of (r, fs') \<Rightarrow> (map_err io_cause r, fs'))"

text \<open>Walking back from a block whose parent is not the last stored one, deleting the highest stored slot
  below. A store that still has a block is found before slot 0.\<close>

fun reorg_back :: "archive_lib \<Rightarrow> nat \<Rightarrow> fs \<Rightarrow> (error, block_header option) outcome \<times> fs" where
  "reorg_back A 0 fs = (Panic, fs)"
| "reorg_back A (Suc slot) fs =
     (case delete_block_data (slot_dir slot) fs of
        Panic \<Rightarrow> (Panic, fs)
      | Err e \<Rightarrow> (Err (io_cause e), fs)
      | Ok (deleted, fs') \<Rightarrow>
          sbind (store_last_header A fs') (\<lambda>prev fs''.
            if deleted \<or> prev = None then (Ok prev, fs'') else reorg_back A slot fs''))"

definition next_slot_after :: "nat \<Rightarrow> block_header option \<Rightarrow> nat" where
  "next_slot_after init prev = (case prev of None \<Rightarrow> init | Some h \<Rightarrow> bh_slot h + 1)"

definition archive_fail :: "archive_state \<Rightarrow> fs \<Rightarrow> (error, 'x) outcome \<Rightarrow> archive_state" where
  "archive_fail s fs r =
     s\<lparr> as_fs := fs, as_phase := (case r of Err e \<Rightarrow> if is_node_error e then ARestarting else AFailed e | _ \<Rightarrow> ADead) \<rparr>"

definition archive_on ::
    "archive_state \<Rightarrow> (error, 'x) outcome \<times> fs \<Rightarrow> ('x \<Rightarrow> fs \<Rightarrow> archive_state) \<Rightarrow> archive_state" where
  "archive_on s r k = (case r of (Ok x, fs) \<Rightarrow> k x fs | (e, fs) \<Rightarrow> archive_fail s fs e)"

definition follow_step ::
    "archive_lib \<Rightarrow> nat \<Rightarrow> node_env \<Rightarrow> archive_vars \<Rightarrow> archive_state \<Rightarrow> archive_state" where
  "follow_step A init E v s =
     archive_on s (next_header E v, as_fs s) (\<lambda>(head, r) fs.
       let v = v\<lparr> av_head := head \<rparr>
       in case r of
            None \<Rightarrow> s\<lparr> as_phase := AFollowing v \<rparr>
          | Some None \<Rightarrow> s\<lparr> as_phase := AFollowing (v\<lparr> av_slot := av_slot v + 1 \<rparr>) \<rparr>
          | Some (Some header) \<Rightarrow>
              if (case av_prev_header v of None \<Rightarrow> False | Some prev \<Rightarrow> bh_parent_root header \<noteq> bh_root prev)
              then archive_on s (reorg_back A (av_slot v) fs) (\<lambda>prev fs.
                     s\<lparr> as_fs := fs, as_last_header := prev,
                        as_phase := AFollowing (v\<lparr> av_prev_header := prev, av_slot := next_slot_after init prev \<rparr>) \<rparr>)
              else archive_on s (process_beacon_block_header A E header (av_prev_block v) fs) (\<lambda>blk fs.
                     s\<lparr> as_fs := fs, as_last_header := Some header,
                        as_phase := AFollowing (v\<lparr> av_prev_block := Some blk, av_prev_header := Some header,
                                                   av_slot := av_slot v + 1 \<rparr>) \<rparr>))"

definition archive_step ::
    "archive_lib \<Rightarrow> nat \<Rightarrow> (client_error, nat) outcome \<Rightarrow> node_env \<Rightarrow> archive_state \<Rightarrow> archive_state" where
  "archive_step A init spec E s =
     (case as_phase s of
        AStarting \<Rightarrow>
          archive_on s (map_err (\<lambda>e. [CClient e]) spec, as_fs s) (\<lambda>_ fs.
          archive_on s (get_head_header E, fs) (\<lambda>head fs.
          archive_on s (store_last_header A fs) (\<lambda>prev fs.
            s\<lparr> as_fs := fs, as_phase := AFollowing \<lparr> av_head = head, av_prev_header = prev,
                 av_slot = next_slot_after init prev, av_prev_block = None \<rparr> \<rparr>)))
      | AFollowing v \<Rightarrow> follow_step A init E v s
      | ARestarting \<Rightarrow> s\<lparr> as_phase := AStarting \<rparr>
      | AFailed e \<Rightarrow> s
      | ADead \<Rightarrow> s)"

section \<open>Serving blobs (api.rs)\<close>

definition archive_error_response :: "nat \<Rightarrow> string \<Rightarrow> nat \<times> error_response" where
  "archive_error_response st message = (st, error_response_new st message)"

fun show_cause :: "cause \<Rightarrow> string" where
  "show_cause (CMsg m) = m"
| "show_cause _ = ''client error''"

text \<open>Reading the disk only fails with a message.\<close>

definition archive_internal_error :: "error \<Rightarrow> nat \<times> error_response" where
  "archive_internal_error err = archive_error_response 500 (case err of [] \<Rightarrow> [] | c # _ \<Rightarrow> show_cause c)"

definition get_header :: "block_header option \<Rightarrow> (nat \<times> string, block_header) outcome" where
  "get_header h = ok_or (425, ''no header yet'') h"

definition find_requested ::
    "archive_lib \<Rightarrow> b256 \<Rightarrow> stored_blob list \<Rightarrow> b256 \<Rightarrow> (nat \<times> error_response, nat \<times> u8 list) outcome" where
  "find_requested A root block_blobs vh =
     (case stored_match block_blobs vh of
        Some (index, vh0, blob) \<Rightarrow> Ok (index, blob)
      | None \<Rightarrow> Err (archive_error_response 404
          (''blob with versioned_hash '' @ show_b256 (al_text A) vh
           @ '' not found in stored blobs from block '' @ show_b256 (al_text A) root)))"

definition serve_blobs ::
    "archive_lib \<Rightarrow> fs \<Rightarrow> b256 \<Rightarrow> b256 list \<Rightarrow> (nat \<times> error_response, u8 list list) outcome" where
  "serve_blobs A fs root versioned_hashes =
     obind (map_err archive_internal_error (load_blobs_disk A fs root)) (\<lambda>block_blobs.
     obind (omap (find_requested A root block_blobs) (remdups_adj (sort versioned_hashes))) (\<lambda>blobs.
     Ok (map snd (sort_key fst blobs))))"

end
