(* ===== verification/Archive_Properties.thy ===== *)
theory Archive_Properties
  imports Archive_Node Sync_Loop_Properties "HOL-Library.Multiset"
begin

text \<open>
  What the archiver's names, its store and its answers guarantee, and how its answers meet the
  synchronizer's expectations.
\<close>

section \<open>Names\<close>

text \<open>What the names rely on: a 32-byte value is written in full as prefixed hex and reads back.\<close>

definition b256_text_ok :: "b256_text \<Rightarrow> bool" where
  "b256_text_ok T \<longleftrightarrow> (\<forall>h. length h = 32 \<longrightarrow>
     show_b256 T h = ''0x'' @ hex_encode h \<and> read_b256 T (show_b256 T h) = Ok h)"

lemma hex_encode_no_underscore: "CHR ''_'' \<notin> set (hex_encode bs)"
proof -
  have "hex_digit d \<noteq> CHR ''_''" if "d < 16" for d
  proof
    assume "hex_digit d = CHR ''_''"
    then have "hex_value (CHR ''_'') = Some d" using that by (metis hex_value_digit)
    then show False by (simp add: hex_value_def)
  qed
  moreover have "unat b div 16 < 16" for b :: u8
  proof -
    have "unat b < 256" using unsigned_less [of b, where 'a = nat] by simp
    then show ?thesis by linarith
  qed
  ultimately show ?thesis by (auto simp: hex_encode_def) (metis mod_less_divisor zero_less_numeral)+
qed

lemma pad_nat_no_underscore: "CHR ''_'' \<notin> set (pad_nat w n)"
  using list_all_digit_pad [of w n] by (auto simp: list_all_iff is_digit_def)

lemma parse_own_blob_file_name:
  assumes "b256_text_ok T" and "index < 2 ^ 64" and "length vh = 32"
  shows "parse_blob_file_name T (blob_file_name T index vh) = Ok (Some (index, vh))"
proof -
  have t: "show_b256 T vh = ''0x'' @ hex_encode vh" "read_b256 T (show_b256 T vh) = Ok vh"
    using assms(1,3) unfolding b256_text_ok_def by blast+
  let ?s = "pad_nat 2 index @ CHR ''_'' # show_b256 T vh"
  have nu: "CHR ''_'' \<notin> set (show_b256 T vh)" using hex_encode_no_underscore by (simp add: t(1))
  have strip: "Option.bind (strip_prefix ''blob-'' (blob_file_name T index vh)) (strip_suffix ''.bin'') = Some ?s"
    using strip_prefix_append [of "''blob-''" "?s @ ''.bin''"] strip_suffix_append [of "''.bin''" ?s]
    by (simp add: blob_file_name_def)
  have "split_at (CHR ''_'') ?s = [pad_nat 2 index, show_b256 T vh]"
    by (simp add: split_at_two pad_nat_no_underscore split_at_none nu)
  moreover have "parse_unsigned (2 ^ 64) (pad_nat 2 index) = Some index" by (rule parse_pad_nat [OF assms(2)])
  ultimately show ?thesis
    unfolding parse_blob_file_name_def strip
    by (simp only: option.case list.case t(2) obind.simps)
qed

text \<open>Blob files read back by name. The name under which a blob is stored parses to its index and
  hash, for any index and any 32-byte hash, and the temporary name of a blob that was not completely written is
  ignored.\<close>

theorem blob_file_name_roundtrip:
  assumes "b256_text_ok T" and "index < 2 ^ 64" and "length vh = 32"
  shows "parse_blob_file_name T (blob_file_name T index vh) = Ok (Some (index, vh))
    \<and> parse_blob_file_name T (blob_file_name T index vh @ ''.tmp'') = Ok None"
proof (intro conjI parse_own_blob_file_name [OF assms])
  let ?s = "pad_nat 2 index @ CHR ''_'' # show_b256 T vh"
  have "strip_suffix ''.bin'' (x @ ''.tmp'') = None" for x by (simp add: strip_suffix_def)
  moreover have "strip_prefix ''blob-'' (blob_file_name T index vh @ ''.tmp'') = Some ((?s @ ''.bin'') @ ''.tmp'')"
    using strip_prefix_append [of "''blob-''" "(?s @ ''.bin'') @ ''.tmp''"] by (simp add: blob_file_name_def)
  ultimately show "parse_blob_file_name T (blob_file_name T index vh @ ''.tmp'') = Ok None"
    unfolding parse_blob_file_name_def by (simp only: bind.bind_lunit option.case)
qed

definition demo_text :: b256_text where
  "demo_text = \<lparr> show_b256 = \<lambda>h. ''0x'' @ hex_encode h,
     read_b256 = \<lambda>s. ok_or ''invalid hex'' (hex_decode (strip_0x s)) \<rparr>"

lemma demo_text_ok: "b256_text_ok demo_text"
  by (simp add: b256_text_ok_def demo_text_def strip_0x_def)

theorem blob_file_name_roundtrip_witness:
  "parse_blob_file_name demo_text (blob_file_name demo_text 7 (replicate 32 1)) = Ok (Some (7, replicate 32 1))"
  using blob_file_name_roundtrip [OF demo_text_ok, of 7 "replicate 32 1"] by simp

section \<open>Serving\<close>

lemma stored_match_Some: "stored_match bs vh = Some (i, w, b) \<Longrightarrow> w = vh \<and> (i, w, b) \<in> set bs"
  using find_Some_in [of "\<lambda>(i, vh0, b). vh0 = vh" bs] by (auto simp: stored_match_def)

lemma find_all_requested:
  assumes "\<forall>vh \<in> set vhs. stored_match bs vh \<noteq> None"
  shows "omap (find_requested A root bs) vhs
    = Ok (map (\<lambda>vh. case the (stored_match bs vh) of (i, w, b) \<Rightarrow> (i, b)) vhs)"
  by (rule omap_all_Ok) (use assms in \<open>auto simp: find_requested_def split: option.splits\<close>)

lemma find_some_missing:
  "\<exists>vh \<in> set vhs. stored_match bs vh = None \<Longrightarrow> \<exists>body. omap (find_requested A root bs) vhs = Err (404, body)"
proof (induction vhs)
  case (Cons v vs)
  show ?case
  proof (cases "stored_match bs v")
    case None
    then show ?thesis by (simp add: find_requested_def archive_error_response_def)
  next
    case (Some x)
    then obtain body where "omap (find_requested A root bs) vs = Err (404, body)" using Cons by auto
    moreover obtain y where "find_requested A root bs v = Ok y"
      by (cases x) (simp add: find_requested_def Some)
    ultimately show ?thesis by simp
  qed
qed simp

lemma image_graph: "(\<And>x b. x \<in> S \<Longrightarrow> f x = b \<longleftrightarrow> P x b) \<Longrightarrow> f ` S = {b. \<exists>x \<in> S. P x b}"
  by (auto simp: image_iff) (metis)+

lemma distinct_remdups_adj_sort: "distinct (remdups_adj (sort xs))" for xs :: "'x :: linorder list"
proof -
  have "sorted ys \<Longrightarrow> distinct (remdups_adj ys)" for ys :: "'x list"
    by (induction ys rule: remdups_adj.induct) (auto simp: order.strict_iff_not)
  then show ?thesis by simp
qed

lemma length_remdups_adj_sort: "length (remdups_adj (sort xs)) = card (set xs)" for xs :: "'x :: linorder list"
  using distinct_card [OF distinct_remdups_adj_sort [of xs]] by simp

lemma serve_length:
  assumes "load_blobs_disk A fs root = Ok bs" and "serve_blobs A fs root vhs = Ok blobs"
  shows "length blobs = card (set vhs)"
proof -
  obtain ys where "omap (find_requested A root bs) (remdups_adj (sort vhs)) = Ok ys" "blobs = map snd (sort_key fst ys)"
    using assms by (auto simp: serve_blobs_def)
  then show ?thesis using omap_Ok_length length_remdups_adj_sort by fastforce
qed

text \<open>The archiver serves the asked blobs, each once. The answer is a 404 when one of them is not stored;
  otherwise it has exactly one blob per distinct requested hash, however often a hash was asked for, and
  they are the stored blobs of the block with these hashes.\<close>

theorem serve_blobs_exact:
  assumes "load_blobs_disk A fs root = Ok bs"
  shows "if \<exists>vh \<in> set vhs. stored_match bs vh = None
    then \<exists>body. serve_blobs A fs root vhs = Err (404, body)
    else \<exists>blobs. serve_blobs A fs root vhs = Ok blobs \<and> length blobs = card (set vhs)
           \<and> set blobs = {b. \<exists>vh \<in> set vhs. \<exists>i. stored_match bs vh = Some (i, vh, b)}"
proof (cases "\<exists>vh \<in> set vhs. stored_match bs vh = None")
  case True
  then have "\<exists>vh \<in> set (remdups_adj (sort vhs)). stored_match bs vh = None" by simp
  from find_some_missing [OF this, of A root] obtain body
    where "omap (find_requested A root bs) (remdups_adj (sort vhs)) = Err (404, body)" by blast
  then have "serve_blobs A fs root vhs = Err (404, body)" by (simp add: serve_blobs_def assms)
  then show ?thesis using True by simp
next
  case False
  let ?g = "\<lambda>vh. case the (stored_match bs vh) of (i, w, b) \<Rightarrow> (i, b)"
  have "\<forall>vh \<in> set (remdups_adj (sort vhs)). stored_match bs vh \<noteq> None" using False by simp
  then have found: "omap (find_requested A root bs) (remdups_adj (sort vhs)) = Ok (map ?g (remdups_adj (sort vhs)))"
    by (rule find_all_requested)
  have "serve_blobs A fs root vhs = Ok (map snd (sort_key fst (map ?g (remdups_adj (sort vhs)))))"
    unfolding serve_blobs_def assms by (simp only: found obind.simps map_err.simps)
  moreover have "snd (?g vh) = b \<longleftrightarrow> (\<exists>i. stored_match bs vh = Some (i, vh, b))" if "vh \<in> set vhs" for vh b
  proof -
    have "stored_match bs vh \<noteq> None" using False that by (metis)
    then obtain i w b' where "stored_match bs vh = Some (i, w, b')" by (cases "stored_match bs vh") auto
    then show ?thesis using stored_match_Some [of bs vh i w b'] by simp
  qed
  then have "snd ` ?g ` set vhs = {b. \<exists>vh \<in> set vhs. \<exists>i. stored_match bs vh = Some (i, vh, b)}"
    unfolding image_image using image_graph [of "set vhs" "\<lambda>vh. snd (?g vh)" "\<lambda>vh b. \<exists>i. stored_match bs vh = Some (i, vh, b)"]
    by simp
  ultimately have "\<exists>blobs. serve_blobs A fs root vhs = Ok blobs \<and> length blobs = card (set vhs)
           \<and> set blobs = {b. \<exists>vh \<in> set vhs. \<exists>i. stored_match bs vh = Some (i, vh, b)}"
    by (simp add: length_remdups_adj_sort image_image)
  then show ?thesis using False by (simp only: if_False)
qed

section \<open>Blobs on their way to the synchronizer\<close>

lemma assign_blobs_by_hash:
  "\<exists>m'. assign_blobs vhs cs (map B (filter (\<lambda>v. v \<in> set vhs) (map fst cs))) m = Ok m'
     \<and> (\<forall>v. map_of m' v = (if v \<in> set vhs \<and> v \<in> fst ` set cs then Some (B v) else map_of m v))"
proof (induction cs arbitrary: m)
  case (Cons c cs)
  obtain v k where c: "c = (v, k)" by (cases c)
  show ?case
  proof (cases "v \<in> set vhs")
    case True
    obtain m' where "assign_blobs vhs cs (map B (filter (\<lambda>v. v \<in> set vhs) (map fst cs))) (hm_insert v (B v) m) = Ok m'"
      "\<forall>u. map_of m' u = (if u \<in> set vhs \<and> u \<in> fst ` set cs then Some (B u) else map_of (hm_insert v (B v) m) u)"
      using Cons.IH [of "hm_insert v (B v) m"] by blast
    then show ?thesis using True by (intro exI [of _ m']) (auto simp: c)
  next
    case False
    obtain m' where "assign_blobs vhs cs (map B (filter (\<lambda>v. v \<in> set vhs) (map fst cs))) m = Ok m'"
      "\<forall>u. map_of m' u = (if u \<in> set vhs \<and> u \<in> fst ` set cs then Some (B u) else map_of m u)"
      using Cons.IH [of m] by blast
    then show ?thesis using False by (intro exI [of _ m']) (auto simp: c)
  qed
qed simp

text \<open>The pairing takes one blob for each commitment whose hash was asked for, and fails when there are too few.\<close>

lemma assign_blobs_runs_out:
  "length blobs < length (filter (\<lambda>v. v \<in> set vhs) (map fst cs)) \<Longrightarrow> assign_blobs vhs cs blobs m = Panic"
proof (induction cs arbitrary: blobs m)
  case (Cons c cs)
  obtain v k where c: "c = (v, k)" by (cases c)
  show ?case
    using Cons by (cases "v \<in> set vhs"; cases blobs) (simp_all add: c)
qed simp

text \<open>The stored blobs carry the index that the block's commitments give their hash.\<close>

definition indices_match :: "stored_blob list \<Rightarrow> (b256 \<times> bytes48) list \<Rightarrow> b256 list \<Rightarrow> bool" where
  "indices_match bs commitments vhs \<longleftrightarrow> (\<forall>vh \<in> set vhs. \<exists>i b. stored_match bs vh = Some (i, vh, b)
     \<and> i < length commitments \<and> fst (commitments ! i) = vh)"

definition blob_of :: "stored_blob list \<Rightarrow> b256 \<Rightarrow> u8 list" where
  "blob_of bs vh = snd (snd (the (stored_match bs vh)))"

definition wanted :: "b256 list \<Rightarrow> (b256 \<times> bytes48) list \<Rightarrow> nat list" where
  "wanted vhs cs = filter (\<lambda>i. fst (cs ! i) \<in> set vhs) [0 ..< length cs]"

lemma wanted_hashes: "map (\<lambda>i. fst (cs ! i)) (wanted vhs cs) = filter (\<lambda>v. v \<in> set vhs) (map fst cs)"
proof -
  have "map fst cs = map (\<lambda>i. fst (cs ! i)) [0 ..< length cs]" by (rule nth_equalityI) simp_all
  from arg_cong [OF this, of "filter (\<lambda>v. v \<in> set vhs)"] show ?thesis
    unfolding wanted_def filter_map comp_def by (rule sym)
qed

lemma served_in_block_order:
  assumes "indices_match bs cs vhs" and "distinct (filter (\<lambda>v. v \<in> set vhs) (map fst cs))"
    and "set us = set vhs" and "distinct us"
  shows "sort_key fst (map (\<lambda>vh. case the (stored_match bs vh) of (i, w, b) \<Rightarrow> (i, b)) us)
    = map (\<lambda>i. (i, blob_of bs (fst (cs ! i)))) (wanted vhs cs)"
proof (rule sort_key_inj_key_eq)
  let ?g = "\<lambda>vh. case the (stored_match bs vh) of (i, w, b) \<Rightarrow> (i, b)"
  let ?L = "map (\<lambda>i. (i, blob_of bs (fst (cs ! i)))) (wanted vhs cs)"
  have g: "\<exists>i < length cs. fst (cs ! i) = vh \<and> ?g vh = (i, blob_of bs vh)" if "vh \<in> set us" for vh
    using assms(1,3) that unfolding indices_match_def blob_of_def by fastforce
  have nth_inj: "i = j" if "fst (cs ! i) = fst (cs ! j)" "fst (cs ! i) \<in> set us" "i < length cs" "j < length cs" for i j
    using assms(2,3) that unfolding wanted_hashes [symmetric] by (auto simp: distinct_map inj_on_def wanted_def)
  have "?g v = ?g w \<Longrightarrow> v = w" if "v \<in> set us" "w \<in> set us" for v w
    using g [OF that(1)] g [OF that(2)] by auto
  then have "distinct (map ?g us)" using assms(4) by (auto simp: distinct_map inj_on_def)
  moreover have "distinct ?L" by (simp add: distinct_map wanted_def inj_on_def)
  moreover have "set (map ?g us) = set ?L"
  proof (intro set_eqI iffI)
    fix x assume "x \<in> set (map ?g us)"
    then obtain vh where vh: "vh \<in> set us" "x = ?g vh" by auto
    obtain i where "i < length cs" "fst (cs ! i) = vh" "?g vh = (i, blob_of bs vh)" using g [OF vh(1)] by blast
    then show "x \<in> set ?L" using vh assms(3) by (auto simp: wanted_def)
  next
    fix x assume "x \<in> set ?L"
    then obtain i where i: "i < length cs" "fst (cs ! i) \<in> set us" "x = (i, blob_of bs (fst (cs ! i)))"
      using assms(3) by (auto simp: wanted_def)
    obtain j where "j < length cs" "fst (cs ! j) = fst (cs ! i)" "?g (fst (cs ! i)) = (j, blob_of bs (fst (cs ! i)))"
      using g [OF i(2)] by blast
    then have "x = ?g (fst (cs ! i))" using nth_inj [of j i] i by simp
    then show "x \<in> set (map ?g us)" using i(2) by simp
  qed
  ultimately show "mset (map ?g us) = mset ?L" by (simp only: set_eq_iff_mset_eq_distinct)
  show "inj_on fst (set (map ?g us))"
  proof (rule inj_onI)
    fix x y assume "x \<in> set (map ?g us)" "y \<in> set (map ?g us)" "fst x = fst y"
    then obtain v w where vw: "v \<in> set us" "x = ?g v" "w \<in> set us" "y = ?g w" by auto
    obtain i where i: "fst (cs ! i) = v" "x = (i, blob_of bs v)" using g [OF vw(1)] vw(2) by auto
    obtain j where j: "fst (cs ! j) = w" "y = (j, blob_of bs w)" using g [OF vw(3)] vw(4) by auto
    show "x = y" using \<open>fst x = fst y\<close> i j by simp
  qed
  show "sorted (map fst ?L)" by (simp add: comp_def wanted_def sorted_wrt_filter)
qed

text \<open>The synchronizer's archiver client answers with what the archiver serves: the blobs on success, the
  status as a client error otherwise.\<close>

definition served_by :: "archive_lib \<Rightarrow> fs \<Rightarrow> node_env \<Rightarrow> b256 \<Rightarrow> b256 list \<Rightarrow> bool" where
  "served_by A fs E root vhs \<longleftrightarrow> (\<forall>n blobs. serve_blobs A fs root vhs = Ok blobs \<longrightarrow> env_blobs E root vhs n = Ok blobs)"

lemma get_blobs_served:
  assumes "serve_blobs A fs root vhs = Ok blobs" and "served_by A fs E root vhs"
  shows "get_blobs E slot root cs vhs
    = (if length blobs \<noteq> length vhs
       then Err [CMsg (''Fetched '' @ show_nat (length vhs) @ '' blobs, but got '' @ show_nat (length blobs))]
       else assign_blobs vhs cs blobs [])"
proof -
  have "map_err (\<lambda>e. [CClient e]) (result_some (env_blobs E root vhs n)) = Ok (Some blobs)" for n
    using assms by (simp add: served_by_def result_some_def)
  then show ?thesis
    by (simp add: get_blobs_def fetch_once_available_def upt_rec [of 0 "Suc n" for n] del: upt_Suc obind_Ok_iff)
qed

text \<open>The archiver answers with one blob for each hash, in block order when no hash asked for is repeated in the block.\<close>

lemma served_blobs:
  assumes "load_blobs_disk A fs root = Ok bs" and "indices_match bs cs vhs"
  shows "\<exists>blobs. serve_blobs A fs root vhs = Ok blobs \<and> length blobs = card (set vhs)
    \<and> (distinct (filter (\<lambda>v. v \<in> set vhs) (map fst cs)) \<longrightarrow> blobs = map (blob_of bs) (filter (\<lambda>v. v \<in> set vhs) (map fst cs)))"
proof -
  let ?g = "\<lambda>vh. case the (stored_match bs vh) of (i, w, b) \<Rightarrow> (i, b)"
  have found: "\<forall>vh \<in> set (remdups_adj (sort vhs)). stored_match bs vh \<noteq> None"
    using assms(2) by (auto simp: indices_match_def)
  have s: "serve_blobs A fs root vhs = Ok (map snd (sort_key fst (map ?g (remdups_adj (sort vhs)))))"
    unfolding serve_blobs_def assms(1) find_all_requested [OF found] obind.simps map_err.simps by (rule refl)
  have o: "map snd (sort_key fst (map ?g (remdups_adj (sort vhs)))) = map (blob_of bs) (filter (\<lambda>v. v \<in> set vhs) (map fst cs))"
    if d: "distinct (filter (\<lambda>v. v \<in> set vhs) (map fst cs))"
    unfolding wanted_hashes [symmetric]
    by (subst served_in_block_order [OF assms(2) d]) (simp_all add: distinct_remdups_adj_sort)
  show ?thesis using serve_length [OF assms(1) s] s o by blast
qed

text \<open>C32. Archived blobs reach the synchronizer under their hashes, unless the block repeats one. When the archiver has
  stored the requested blobs of a block with the index of their commitment and no hash is asked for twice, the
  synchronizer pairs the served blobs with the block's commitments so that every requested hash gets the blob
  stored under it and nothing else is returned, as long as none of these hashes occurs twice among the
  commitments. When one does, as when another transaction of the block carries the same blob, the pairing runs
  out of blobs and panics.\<close>

theorem archived_blobs_reach_synchronizer:
  assumes "load_blobs_disk A fs root = Ok bs" and "served_by A fs E root vhs"
    and "indices_match bs cs vhs" and "distinct vhs"
  shows "if distinct (filter (\<lambda>v. v \<in> set vhs) (map fst cs))
    then \<exists>m. get_blobs E slot root cs vhs = Ok m \<and> map_of m = (\<lambda>vh. if vh \<in> set vhs then Some (blob_of bs vh) else None)
    else get_blobs E slot root cs vhs = Panic"
proof -
  let ?hits = "filter (\<lambda>v. v \<in> set vhs) (map fst cs)"
  obtain blobs where b: "serve_blobs A fs root vhs = Ok blobs" "length blobs = card (set vhs)"
    "distinct ?hits \<longrightarrow> blobs = map (blob_of bs) ?hits" using served_blobs [OF assms(1,3)] by blast
  have sub: "set vhs \<subseteq> fst ` set cs" using assms(3) by (fastforce simp: indices_match_def)
  have get: "get_blobs E slot root cs vhs = assign_blobs vhs cs blobs []"
    unfolding get_blobs_served [OF b(1) assms(2)] using b(2) distinct_card [OF assms(4)] by simp
  show ?thesis
  proof (cases "distinct ?hits")
    case True
    obtain m where "assign_blobs vhs cs (map (blob_of bs) ?hits) [] = Ok m"
      "\<forall>v. map_of m v = (if v \<in> set vhs \<and> v \<in> fst ` set cs then Some (blob_of bs v) else map_of [] v)"
      using assign_blobs_by_hash [of vhs cs "blob_of bs" "[]"] by blast
    then show ?thesis using True b(3) get sub by (auto simp: fun_eq_iff)
  next
    case False
    have "set ?hits = set vhs" using sub by auto
    then have "length blobs < length ?hits"
      using False b(2) card_length [of ?hits] card_distinct [of ?hits] by (metis le_neq_implies_less)
    then show ?thesis using False get assign_blobs_runs_out by auto
  qed
qed

text \<open>C33. A transaction that carries the same blob twice stops the synchronizer. The archiver removes
  repeated hashes before it answers, so the synchronizer receives fewer blobs than it asked for and
  reports an error that no retry or restart clears.\<close>

theorem repeated_blob_hash_stops_synchronizer:
  assumes "serve_blobs A fs root vhs = Ok blobs" and "served_by A fs E root vhs" and "\<not> distinct vhs"
    and "load_blobs_disk A fs root = Ok bs"
  shows "\<exists>e. get_blobs E slot root cs vhs = Err e \<and> \<not> is_node_error e"
proof -
  have "length blobs = card (set vhs)"
    using serve_length [OF assms(4,1)] .
  also have "\<dots> \<noteq> length vhs" using assms(3) card_distinct by blast
  finally show ?thesis
    by (simp add: get_blobs_served [OF assms(1,2)] is_node_error_def is_node_cause_def)
qed

text \<open>A store with two blobs of one block.\<close>

definition demo_lib :: archive_lib where
  "demo_lib = \<lparr> al_text = demo_text, header_to_json = \<lambda>h. [of_nat (bh_slot h)],
     header_from_json = \<lambda>s. Ok \<lparr> bh_root = replicate 32 1, bh_parent_root = replicate 32 0, bh_slot = sum_list (map unat s) \<rparr>,
     heap_blob_from_bytes = Ok \<rparr>"

definition demo_root :: b256 where
  "demo_root = replicate 32 1"

definition demo_blobs :: "stored_blob list" where
  "demo_blobs = [(0, replicate 32 3, [9]), (1, replicate 32 2, [8])]"

definition demo_name :: "nat \<Rightarrow> u8 \<Rightarrow> string" where
  "demo_name i h = blob_file_name demo_text i (replicate 32 h)"

definition demo_fs :: fs where
  "demo_fs = (let dir = root_dir demo_text demo_root
     in [(dir, Dir), (dir @ [demo_name 0 3], File [9]), (dir @ [demo_name 1 2], File [8])])"

definition demo_archive_env :: node_env where
  "demo_archive_env = demo_env\<lparr> env_blobs := \<lambda>r vs n.
     case serve_blobs demo_lib demo_fs r vs of Ok bs \<Rightarrow> Ok bs | _ \<Rightarrow> Err (NotFound ''blobs'') \<rparr>"

lemma demo_name_parses: "i < 2 ^ 64 \<Longrightarrow> parse_blob_file_name demo_text (demo_name i h) = Ok (Some (i, replicate 32 h))"
  unfolding demo_name_def by (rule parse_own_blob_file_name [OF demo_text_ok]) simp_all

lemma demo_load: "load_blobs_disk demo_lib demo_fs demo_root = Ok demo_blobs"
proof -
  let ?dir = "root_dir demo_text demo_root"
  have ne: "demo_name 0 3 \<noteq> demo_name 1 2" using demo_name_parses [of 0 3] demo_name_parses [of 1 2] by auto
  have dir: "?dir \<noteq> []" "butlast ?dir \<noteq> ?dir" by (simp_all add: root_dir_def Let_def)
  have "read_dir demo_fs ?dir = Ok [demo_name 0 3, demo_name 1 2]"
    using dir by (simp add: read_dir_def fs_node_at_def entries_def map_filter_simps demo_fs_def Let_def)
  moreover have "read_file demo_fs (?dir @ [demo_name 0 3]) = Ok [9]"
    "read_file demo_fs (?dir @ [demo_name 1 2]) = Ok [8]"
    using ne dir by (simp_all add: read_file_def fs_node_at_def demo_fs_def Let_def)
  ultimately show ?thesis
    using demo_name_parses [of 0 3] demo_name_parses [of 1 2]
    by (simp add: load_blobs_disk_def demo_lib_def load_entry_def demo_blobs_def map_filter_simps del: obind_Ok_iff)
qed

lemma demo_match: "stored_match demo_blobs (replicate 32 3) = Some (0, replicate 32 3, [9])"
  "stored_match demo_blobs (replicate 32 2) = Some (1, replicate 32 2, [8])"
  by (simp_all add: stored_match_def demo_blobs_def)

lemma demo_served: "served_by demo_lib demo_fs demo_archive_env root vhs"
  by (simp add: served_by_def demo_archive_env_def)

theorem serve_blobs_exact_witness:
  "\<exists>blobs. serve_blobs demo_lib demo_fs demo_root [replicate 32 3, replicate 32 2, replicate 32 3] = Ok blobs
     \<and> set blobs = {[9], [8]}"
proof -
  obtain blobs where "serve_blobs demo_lib demo_fs demo_root [replicate 32 3, replicate 32 2, replicate 32 3] = Ok blobs"
    "set blobs = {b. \<exists>vh \<in> set [replicate 32 3, replicate 32 2, replicate 32 3]. \<exists>i. stored_match demo_blobs vh = Some (i, vh, b)}"
    using serve_blobs_exact [OF demo_load, of "[replicate 32 3, replicate 32 2, replicate 32 3]"]
    by (auto simp: demo_match)
  then show ?thesis by (auto simp: demo_match)
qed

text \<open>A block with the two blobs, and one where another transaction carries the first of them again.\<close>

theorem archived_blobs_reach_synchronizer_witness:
  "(\<exists>m. get_blobs demo_archive_env 7 demo_root [(replicate 32 3, [1]), (replicate 32 2, [2])]
        [replicate 32 2, replicate 32 3] = Ok m
     \<and> map_of m (replicate 32 2) = Some [8] \<and> map_of m (replicate 32 3) = Some [9])
   \<and> get_blobs demo_archive_env 7 demo_root [(replicate 32 3, [1]), (replicate 32 3, [1])] [replicate 32 3] = Panic"
proof -
  have im: "indices_match demo_blobs [(replicate 32 3, [1]), (replicate 32 2, [2])] [replicate 32 2, replicate 32 3]"
    "indices_match demo_blobs [(replicate 32 3, [1]), (replicate 32 3, [1])] [replicate 32 3]"
    by (simp_all add: indices_match_def demo_match)
  have "(replicate 32 (2 :: u8)) \<noteq> replicate 32 3" by (simp add: numeral_eq_Suc)
  then obtain m where "get_blobs demo_archive_env 7 demo_root [(replicate 32 3, [1]), (replicate 32 2, [2])]
        [replicate 32 2, replicate 32 3] = Ok m"
    "map_of m = (\<lambda>vh. if vh \<in> set [replicate 32 2, replicate 32 3] then Some (blob_of demo_blobs vh) else None)"
    using archived_blobs_reach_synchronizer [OF demo_load demo_served im(1), of 7] by auto
  moreover have "get_blobs demo_archive_env 7 demo_root [(replicate 32 3, [1]), (replicate 32 3, [1])] [replicate 32 3] = Panic"
    using archived_blobs_reach_synchronizer [OF demo_load demo_served im(2), of 7] by simp
  ultimately show ?thesis by (simp add: blob_of_def demo_match)
qed

theorem repeated_blob_hash_stops_synchronizer_witness:
  "\<exists>e. get_blobs demo_archive_env 7 demo_root [(replicate 32 3, [1])] [replicate 32 3, replicate 32 3] = Err e
     \<and> \<not> is_node_error e"
proof -
  have "\<forall>vh \<in> set (remdups_adj (sort [replicate 32 3, replicate 32 3])). stored_match demo_blobs vh \<noteq> None"
    by (simp add: demo_match)
  from find_all_requested [OF this]
  obtain blobs where "serve_blobs demo_lib demo_fs demo_root [replicate 32 3, replicate 32 3] = Ok blobs"
    unfolding serve_blobs_def demo_load by (simp del: obind_Ok_iff)
  from repeated_blob_hash_stops_synchronizer [OF this demo_served _ demo_load, of 7] show ?thesis by simp
qed

end
