(* ===== verification/Archive_Recovery.thy ===== *)
theory Archive_Recovery
  imports Archive_Properties "HOL-Library.Sublist"
begin

text \<open>
  Crash recovery of the archiver's store: whatever prefix of the file operations of a block was done,
  \<open>last_header\<close> cleans up without failing, keeps every completed block and returns the completed block with
  the highest slot.
\<close>

section \<open>The order of slot paths\<close>

definition SLOT_LIMIT :: nat where
  "SLOT_LIMIT = 10 ^ 9"

lemma digit_char_less: "a < 10 \<Longrightarrow> b < 10 \<Longrightarrow> digit_char a < digit_char b \<longleftrightarrow> a < b"
  by (simp add: less_char_def of_char_digit_char)

lemma digit_char_eq: "a < 10 \<Longrightarrow> b < 10 \<Longrightarrow> digit_char a = digit_char b \<longleftrightarrow> a = b"
  by (metis digit_value_digit_char)

lemma pad_nat_3:
  assumes "n < 1000"
  shows "pad_nat 3 n = [digit_char (n div 100), digit_char (n div 10 mod 10), digit_char (n mod 10)]"
proof -
  have z: "CHR ''0'' = digit_char 0" by (simp add: digit_char_def char_of_def flip: numeral_3_eq_3) code_simp
  consider "n < 10" | "10 \<le> n" "n < 100" | "100 \<le> n" by linarith
  then show ?thesis
  proof cases
    case 1
    then show ?thesis by (simp add: pad_nat_def show_nat.simps [of n] z numeral_3_eq_3)
  next
    case 2
    then show ?thesis
      by (simp add: pad_nat_def show_nat.simps [of n] show_nat.simps [of "n div 10"] show_nat.simps [of 0] z numeral_3_eq_3)
  next
    case 3
    have "n div 10 div 10 = n div 100" by (simp add: div_mult2_eq [symmetric])
    then show ?thesis using 3 assms
      by (simp add: pad_nat_def show_nat.simps [of n] show_nat.simps [of "n div 10"] show_nat.simps [of "n div 100"] z)
  qed
qed

lemma less_by_div_mod: "0 < B \<Longrightarrow> s < t \<longleftrightarrow> s div B < t div B \<or> s div B = t div B \<and> s mod B < t mod B"
  for s t B :: nat
  by (metis div_le_mono div_mult_mod_eq leD le_neq_implies_less less_or_eq_imp_le nat_add_left_cancel_less not_le)

lemma eq_by_div_mod: "s = t \<longleftrightarrow> s div B = t div B \<and> s mod B = t mod B" for s t B :: nat
  by (metis div_mult_mod_eq)

lemma pad_nat_3_less:
  assumes "m < 1000" and "n < 1000"
  shows "pad_nat 3 m < pad_nat 3 n \<longleftrightarrow> m < n"
proof -
  have d: "m div 100 < 10" "n div 100 < 10" "k div 10 div 10 = k div 100" for k :: nat
    using assms by (auto simp: div_mult2_eq [symmetric])
  have "pad_nat 3 m < pad_nat 3 n \<longleftrightarrow> m div 100 < n div 100 \<or> m div 100 = n div 100 \<and>
      (m div 10 mod 10 < n div 10 mod 10 \<or> m div 10 mod 10 = n div 10 mod 10 \<and> m mod 10 < n mod 10)"
    using d(1,2) by (simp add: pad_nat_3 [OF assms(1)] pad_nat_3 [OF assms(2)] digit_char_less digit_char_eq)
  then show ?thesis
    using less_by_div_mod [of 10 m n, OF zero_less_numeral]
      less_by_div_mod [of 10 "m div 10" "n div 10", OF zero_less_numeral]
      eq_by_div_mod [of "m div 10" "n div 10" 10] unfolding d(3) by blast
qed

lemma pad_nat_3_eq: "m < 1000 \<Longrightarrow> n < 1000 \<Longrightarrow> pad_nat 3 m = pad_nat 3 n \<longleftrightarrow> m = n"
  by (metis pad_nat_3_less less_irrefl nat_neq_iff)

lemma slot_dir_parts:
  "slot_dir s = [''by_slot'', pad_nat 3 (s div 1000000), pad_nat 3 (s mod 1000000 div 1000), pad_nat 3 (s mod 1000000 mod 1000)]"
  by (simp only: slot_dir_def Let_def minus_div_mult_eq_mod)

lemma slot_dir_less:
  assumes "s < SLOT_LIMIT" and "t < SLOT_LIMIT"
  shows "slot_dir s < slot_dir t \<longleftrightarrow> s < t"
proof -
  have hi: "s div 1000000 < 1000" "t div 1000000 < 1000" using assms by (auto simp: SLOT_LIMIT_def)
  have mid: "k mod 1000000 div 1000 < 1000" "k mod 1000000 mod 1000 < 1000" for k :: nat
    by (auto simp: less_mult_imp_div_less)
  have "slot_dir s < slot_dir t \<longleftrightarrow> s div 1000000 < t div 1000000 \<or> s div 1000000 = t div 1000000 \<and>
      (s mod 1000000 div 1000 < t mod 1000000 div 1000 \<or> s mod 1000000 div 1000 = t mod 1000000 div 1000
       \<and> s mod 1000000 mod 1000 < t mod 1000000 mod 1000)"
    using hi mid [of s] mid [of t] by (simp only: slot_dir_parts Cons_less_Cons pad_nat_3_less pad_nat_3_eq) simp
  then show ?thesis
    using less_by_div_mod [of 1000000 s t] less_by_div_mod [of 1000 "s mod 1000000" "t mod 1000000"] by simp
qed

lemma slot_dir_eq: "s < SLOT_LIMIT \<Longrightarrow> t < SLOT_LIMIT \<Longrightarrow> slot_dir s = slot_dir t \<longleftrightarrow> s = t"
  by (metis slot_dir_less less_irrefl nat_neq_iff)

section \<open>The shape of the store\<close>

















section \<open>Reading and removing in a well-shaped store\<close>



lemma distinct_entries:
  assumes "distinct (map fst fs)"
  shows "distinct (entries fs p)"
  using assms
proof (induction fs)
  case (Cons x fs)
  have "last (fst x) \<notin> set (entries fs p)" if "fst x \<noteq> []" "butlast (fst x) = p"
    using Cons.prems that entries_iff [of "last (fst x)" fs p] by (metis append_butlast_last_id distinct.simps(2) list.simps(9) set_map)
  then show ?case using Cons by (auto simp: entries_def map_filter_simps split_beta)
qed (simp add: entries_def map_filter_simps)







section \<open>The descent\<close>






section \<open>Recovery\<close>
















section \<open>Interrupted archiving\<close>































end
