(* ===== verification/Driver_Names.thy ===== *)
theory Driver_Names
  imports Prelude
begin

text \<open>
  File names of the driver's object store (\<open>driver/src/object_store.rs\<close>, \<open>paths.rs\<close>, and \<open>QualifiedName\<close> of
  \<open>wire-types\<close>): the generated names, the names a player may choose, and names made unique. Text is ASCII.
\<close>

section \<open>Characters\<close>

definition char_code :: "char \<Rightarrow> nat" where
  "char_code c = of_char c"

definition is_control :: "char \<Rightarrow> bool" where
  "is_control c \<longleftrightarrow> char_code c < 32 \<or> char_code c = 127"

definition is_space :: "char \<Rightarrow> bool" where
  "is_space c \<longleftrightarrow> 9 \<le> char_code c \<and> char_code c \<le> 13 \<or> char_code c = 32"

definition is_upper :: "char \<Rightarrow> bool" where
  "is_upper c \<longleftrightarrow> 65 \<le> char_code c \<and> char_code c \<le> 90"

definition to_ascii_lowercase :: "char \<Rightarrow> char" where
  "to_ascii_lowercase c = (if is_upper c then char_of (char_code c + 32) else c)"

text \<open>Lowercase sets one bit; computation uses this form.\<close>

lemma to_ascii_lowercase_code [code]:
  "to_ascii_lowercase c = (case c of Char b0 b1 b2 b3 b4 b5 b6 b7 \<Rightarrow>
     if is_upper c then Char b0 b1 b2 b3 b4 True b6 b7 else c)"
proof (cases c)
  case (Char b0 b1 b2 b3 b4 b5 b6 b7)
  have "char_of (char_code c + 32) = Char b0 b1 b2 b3 b4 True b6 b7" if up: "is_upper c"
  proof -
    have "\<not> b5"
      using up Char by (cases b5; cases b6; cases b7; cases b4; cases b3; cases b2; cases b1; cases b0) (simp_all add: is_upper_def char_code_def)
    then have "char_code c + 32 = of_char (Char b0 b1 b2 b3 b4 True b6 b7)" using Char by (simp add: char_code_def)
    then show ?thesis by (simp only: char_of_char)
  qed
  then show ?thesis using Char by (simp add: to_ascii_lowercase_def)
qed

definition is_lower_alphanumeric :: "char \<Rightarrow> bool" where
  "is_lower_alphanumeric c \<longleftrightarrow> is_digit c \<or> 97 \<le> char_code c \<and> char_code c \<le> 122"

definition eq_ignore_ascii_case :: "string \<Rightarrow> string \<Rightarrow> bool" where
  "eq_ignore_ascii_case s t \<longleftrightarrow> map to_ascii_lowercase s = map to_ascii_lowercase t"

definition trim_end :: "string \<Rightarrow> string" where
  "trim_end s = rev (dropWhile is_space (rev s))"

definition trim :: "string \<Rightarrow> string" where
  "trim s = trim_end (dropWhile is_space s)"

section \<open>Qualified names\<close>

record qualified_name =
  plugin_name :: string
  qn_name :: string

definition qn_id :: "qualified_name \<Rightarrow> string" where
  "qn_id q = plugin_name q @ ''::'' @ qn_name q"

text \<open>\<open>str::split_once("::")\<close>.\<close>

fun split_once_colons :: "string \<Rightarrow> (string \<times> string) option" where
  "split_once_colons [] = None"
| "split_once_colons [c] = None"
| "split_once_colons (c # d # s) =
     (if c = CHR '':'' \<and> d = CHR '':'' then Some ([], s)
      else map_option (\<lambda>(a, b). (c # a, b)) (split_once_colons (d # s)))"

definition qn_parse :: "string \<Rightarrow> (string, qualified_name) outcome" where
  "qn_parse s =
     (case split_once_colons s of
        None \<Rightarrow> Err (''invalid qualified name '' @ s @ '': missing '::' separator'')
      | Some (plugin, name) \<Rightarrow>
          if plugin = [] then Err (''invalid qualified name '' @ s @ '': empty plugin'')
          else if name = [] then Err (''invalid qualified name '' @ s @ '': empty name'')
          else Ok \<lparr> plugin_name = plugin, qn_name = name \<rparr>)"

definition safe_lower :: "string \<Rightarrow> string" where
  "safe_lower s = map (\<lambda>ch. let lower = to_ascii_lowercase ch
     in if is_lower_alphanumeric lower \<or> lower = CHR ''-'' \<or> lower = CHR ''_'' then lower else CHR ''_'') s"

definition qn_file_prefix :: "qualified_name \<Rightarrow> string" where
  "qn_file_prefix q = safe_lower (plugin_name q) @ ''__'' @ safe_lower (qn_name q)"

section \<open>Names of object files\<close>

definition DOBJ_EXTENSION :: string where
  "DOBJ_EXTENSION = ''dobj''"

definition dot_dobj :: string where
  "dot_dobj = CHR ''.'' # DOBJ_EXTENSION"

text \<open>\<open>Path::extension\<close> is \<open>dobj\<close>: the last dot is not the first character.\<close>

definition is_dobj_file :: "string \<Rightarrow> bool" where
  "is_dobj_file name \<longleftrightarrow> (case strip_suffix dot_dobj name of None \<Rightarrow> False | Some stem \<Rightarrow> stem \<noteq> [])"

text \<open>\<open>Path::file_name\<close> of a path: its last component, unless that is \<open>..\<close>.\<close>

definition extract_basename :: "string \<Rightarrow> string option" where
  "extract_basename path =
     (case rev (filter (\<lambda>c. c \<noteq> [] \<and> c \<noteq> ''.'') (split_at (CHR ''/'') path)) of
        [] \<Rightarrow> None
      | c # _ \<Rightarrow> if c = ''..'' then None else Some c)"

definition MAX_CUSTOM_FILE_NAME_BYTES :: nat where
  "MAX_CUSTOM_FILE_NAME_BYTES = 200"

definition FILE_NAME_FORBIDDEN_CHARS :: "char list" where
  "FILE_NAME_FORBIDDEN_CHARS = [CHR ''/'', CHR 0x5C, CHR ''<'', CHR ''>'', CHR '':'', CHR 0x22, CHR ''|'', CHR ''?'', CHR ''*'']"

definition WINDOWS_DEVICE_NAMES :: "string list" where
  "WINDOWS_DEVICE_NAMES = [''CON'', ''PRN'', ''AUX'', ''NUL'', ''COM1'', ''COM2'', ''COM3'', ''COM4'', ''COM5'', ''COM6'',
     ''COM7'', ''COM8'', ''COM9'', ''LPT1'', ''LPT2'', ''LPT3'', ''LPT4'', ''LPT5'', ''LPT6'', ''LPT7'', ''LPT8'', ''LPT9'']"

definition PENDING_SUFFIX :: string where
  "PENDING_SUFFIX = ''-pending''"

definition is_hash_prefix :: "string \<Rightarrow> bool" where
  "is_hash_prefix part \<longleftrightarrow> length part = 16
     \<and> list_all (\<lambda>c. is_digit c \<or> 97 \<le> char_code c \<and> char_code c \<le> 102) part"

text \<open>\<open>rsplitn(3, '_')\<close>: the last two parts, and whatever is before them.\<close>

definition has_generated_shape :: "string \<Rightarrow> bool" where
  "has_generated_shape file_name =
     (case strip_suffix dot_dobj file_name of
        None \<Rightarrow> False
      | Some stem \<Rightarrow>
          (case rev (split_at (CHR ''_'') stem) of
             commitment # stable_identifier # prefix \<Rightarrow>
               prefix \<noteq> [] \<and> prefix \<noteq> [[]] \<and> is_hash_prefix commitment \<and> is_hash_prefix stable_identifier
           | _ \<Rightarrow> False))"

definition custom_file_name :: "string \<Rightarrow> string \<Rightarrow> (string, string) outcome" where
  "custom_file_name requested generated =
     (if trim requested = [] then Err ''file name is empty''
      else case List.find (\<lambda>ch. is_control ch \<or> ch \<in> set FILE_NAME_FORBIDDEN_CHARS) requested of
        Some forbidden \<Rightarrow> Err (''file name contains the character '' @ [forbidden])
      | None \<Rightarrow>
          if hd requested = CHR ''.'' then Err ''file name starts with .''
          else if list_ex (\<lambda>reserved. eq_ignore_ascii_case reserved (trim_end (hd (split_at (CHR ''.'') requested))))
                 WINDOWS_DEVICE_NAMES
          then Err ''file name is reserved on Windows''
          else let file_name = (if strip_suffix dot_dobj requested \<noteq> None then requested else requested @ dot_dobj)
               in if length file_name > MAX_CUSTOM_FILE_NAME_BYTES
                  then Err ''file name is longer than 200 bytes''
                  else if file_name \<noteq> generated \<and> has_generated_shape file_name
                  then Err ''file name has the form of a generated object name but is not this object's''
                  else Ok file_name)"

definition stem_of :: "string \<Rightarrow> string" where
  "stem_of file_name = (case strip_suffix dot_dobj file_name of Some stem \<Rightarrow> stem | None \<Rightarrow> file_name)"

definition numbered_name :: "string \<Rightarrow> nat \<Rightarrow> string" where
  "numbered_name stem number = stem @ '' '' @ show_nat number @ dot_dobj"

text \<open>The search for a free name over the taken ones, which are finitely many; one more candidate than taken names is
  always enough.\<close>

definition unique_file_name :: "string \<Rightarrow> string list \<Rightarrow> string" where
  "unique_file_name file_name taken =
     (if file_name \<notin> set taken then file_name
      else case List.find (\<lambda>candidate. candidate \<notin> set taken)
                  (map (numbered_name (stem_of file_name)) [2 ..< length taken + 3]) of
             Some candidate \<Rightarrow> candidate
           | None \<Rightarrow> file_name)"

definition imported_file_name :: "string \<Rightarrow> string \<Rightarrow> string list \<Rightarrow> (string, string) outcome" where
  "imported_file_name requested generated taken =
     obind (custom_file_name requested generated) (\<lambda>file_name.
       if file_name = generated then Ok file_name else Ok (unique_file_name file_name taken))"

definition pending_file_name :: "string \<Rightarrow> string list \<Rightarrow> string" where
  "pending_file_name final_name taken = unique_file_name (stem_of final_name @ PENDING_SUFFIX @ dot_dobj) taken"

section \<open>Chosen names are safe\<close>

text \<open>What the store relies on of a file name: one component of printable characters that every supported platform accepts,
  with the extension of an object file.\<close>

definition safe_file_name :: "string \<Rightarrow> bool" where
  "safe_file_name n \<longleftrightarrow> is_dobj_file n \<and> extract_basename n = Some n \<and> hd n \<noteq> CHR ''.''
     \<and> list_all (\<lambda>c. \<not> is_control c \<and> c \<notin> set FILE_NAME_FORBIDDEN_CHARS) n \<and> length n \<le> MAX_CUSTOM_FILE_NAME_BYTES"

lemma strip_suffix_Some: "strip_suffix suf s = Some t \<longleftrightarrow> s = t @ suf"
  by (auto simp: strip_suffix_def) (metis append_take_drop_id)

lemma basename_plain:
  assumes "CHR ''/'' \<notin> set n" and "n \<noteq> []" and "hd n \<noteq> CHR ''.''"
  shows "extract_basename n = Some n"
  using assms by (auto simp: extract_basename_def split_at_none)

lemma custom_file_name_cases:
  assumes "custom_file_name requested generated = Ok n"
  shows "n = (if strip_suffix dot_dobj requested \<noteq> None then requested else requested @ dot_dobj)"
    and "list_all (\<lambda>c. \<not> is_control c \<and> c \<notin> set FILE_NAME_FORBIDDEN_CHARS) requested"
    and "trim requested \<noteq> []" and "hd requested \<noteq> CHR ''.''" and "length n \<le> MAX_CUSTOM_FILE_NAME_BYTES"
    and "n = generated \<or> \<not> has_generated_shape n"
  using assms unfolding custom_file_name_def
  by (auto simp: Let_def find_None_iff_notin list_all_iff split: if_splits option.splits)

lemma custom_file_name_ok:
  assumes "custom_file_name requested generated = Ok n"
  shows "safe_file_name n \<and> (n = generated \<or> \<not> has_generated_shape n)"
proof -
  note c = custom_file_name_cases [OF assms]
  have ne: "requested \<noteq> []" using c(3) by (auto simp: trim_def trim_end_def)
  have chars: "list_all (\<lambda>c. \<not> is_control c \<and> c \<notin> set FILE_NAME_FORBIDDEN_CHARS) dot_dobj"
    by (simp add: dot_dobj_def DOBJ_EXTENSION_def FILE_NAME_FORBIDDEN_CHARS_def is_control_def char_code_def)
  have n: "n = requested \<or> n = requested @ dot_dobj" using c(1) by (simp split: if_splits)
  have all: "list_all (\<lambda>c. \<not> is_control c \<and> c \<notin> set FILE_NAME_FORBIDDEN_CHARS) n" and hd: "n \<noteq> []" "hd n \<noteq> CHR ''.''"
    using n c(2,4) chars ne by auto
  have "is_dobj_file n"
  proof -
    have "\<exists>stem. n = stem @ dot_dobj" using c(1) by (auto simp: strip_suffix_Some split: if_splits)
    then obtain stem where stem: "n = stem @ dot_dobj" ..
    then have "stem \<noteq> []" using hd by (auto simp: dot_dobj_def)
    then show ?thesis using stem by (simp add: is_dobj_file_def strip_suffix_append)
  qed
  moreover have "CHR ''/'' \<notin> set n" using all by (auto simp: list_all_iff FILE_NAME_FORBIDDEN_CHARS_def)
  ultimately show ?thesis using all hd c(5,6) basename_plain by (simp add: safe_file_name_def)
qed

section \<open>Unique names\<close>

lemma numbered_name_inj: "numbered_name stem m = numbered_name stem n \<longleftrightarrow> m = n"
proof
  assume "numbered_name stem m = numbered_name stem n"
  then have "show_nat m = show_nat n" by (simp add: numbered_name_def)
  then show "m = n" using show_nat_value by metis
qed simp

lemma unique_file_name_free: "unique_file_name file_name taken \<notin> set taken"
proof (cases "file_name \<in> set taken")
  case True
  let ?cs = "map (numbered_name (stem_of file_name)) [2 ..< length taken + 3]"
  have "List.find (\<lambda>c. c \<notin> set taken) ?cs \<noteq> None"
  proof
    assume "List.find (\<lambda>c. c \<notin> set taken) ?cs = None"
    then have "set ?cs \<subseteq> set taken" by (auto simp: find_None_iff_notin)
    moreover have "distinct ?cs" by (simp add: distinct_map inj_on_def numbered_name_inj)
    ultimately have "length ?cs \<le> card (set taken)" by (metis List.finite_set card_mono distinct_card)
    then show False using card_length [of taken] by simp
  qed
  then show ?thesis
    using True find_Some_in [of "\<lambda>c. c \<notin> set taken" ?cs] by (auto simp: unique_file_name_def split: option.splits)
qed (simp add: unique_file_name_def)

lemma qn_roundtrip:
  assumes "CHR '':'' \<notin> set (plugin_name q)" and "plugin_name q \<noteq> []" and "qn_name q \<noteq> []"
  shows "qn_parse (qn_id q) = Ok q"
proof -
  have "CHR '':'' \<notin> set p \<Longrightarrow> split_once_colons (p @ ''::'' @ n) = Some (p, n)" for p n
    by (induction p rule: split_once_colons.induct) auto
  from this [OF assms(1)] show ?thesis using assms(2,3) by (simp add: qn_parse_def qn_id_def)
qed

end
