(* ===== verification/Driver_Store.thy ===== *)
theory Driver_Store
  imports Driver_Names Byte_Codec "HOL-Library.List_Lexorder" "HOL-Library.Char_ord" "HOL-Library.Product_Lexorder"
begin

text \<open>
  The driver's store (\<open>driver/src/object_record.rs\<close>, \<open>object_store.rs\<close>, \<open>transactions.rs\<close>, \<open>holds.rs\<close>, and
  \<open>TransactionRecord\<close> of \<open>wire-types\<close>): the three directories of object files, the transaction directories, and
  the table of inputs held by proofs. A file of an object directory reads back as the record it was
  written from, or is unreadable when its writing was cut short; records of transactions are renamed into place and
  always read back. pod2's dictionaries and hashes are a parameter.
\<close>

section \<open>Objects\<close>

text \<open>pod2's \<open>Dictionary\<close> (\<open>get\<close> gives the raw hash of a value), \<open>hash_values\<close>, text values and hex.\<close>

record ('h, 'o) obj_lib =
  ol_commitment :: "'o \<Rightarrow> 'h"
  ol_get :: "'o \<Rightarrow> string \<Rightarrow> (string, 'h option) outcome"
  ol_hash_values :: "'h list \<Rightarrow> 'h"
  ol_text_value :: "string \<Rightarrow> 'h"
  ol_hex :: "'h \<Rightarrow> string"

definition object_key_hash :: "('h, 'o) obj_lib \<Rightarrow> 'o \<Rightarrow> (string, 'h) outcome" where
  "object_key_hash L obj =
     obind (ol_get L obj ''key'') (\<lambda>k.
     obind (ok_or ''object missing required key field'' k) (\<lambda>key.
     Ok (ol_hash_values L [ol_commitment L obj, key])))"

definition OBJECT_NULLIFIER_VERSION :: string where
  "OBJECT_NULLIFIER_VERSION = ''txlib-nullifier-v1''"

definition object_nullifier_from_key_hash :: "('h, 'o) obj_lib \<Rightarrow> 'h \<Rightarrow> 'h" where
  "object_nullifier_from_key_hash L obj_key_hash =
     ol_hash_values L [obj_key_hash, ol_text_value L OBJECT_NULLIFIER_VERSION]"

definition object_nullifier_hash :: "('h, 'o) obj_lib \<Rightarrow> 'o \<Rightarrow> (string, 'h) outcome" where
  "object_nullifier_hash L obj =
     obind (object_key_hash L obj) (\<lambda>k. Ok (object_nullifier_from_key_hash L k))"

definition obj_type_hash :: "('h, 'o) obj_lib \<Rightarrow> 'o \<Rightarrow> 'h option" where
  "obj_type_hash L obj = (case ol_get L obj ''type'' of Ok v \<Rightarrow> v | _ \<Rightarrow> None)"

definition key_fingerprint :: "('h, 'o) obj_lib \<Rightarrow> 'o \<Rightarrow> 'h option" where
  "key_fingerprint L obj =
     (case ol_get L obj ''key'' of Ok (Some key) \<Rightarrow> Some (ol_hash_values L [key]) | _ \<Rightarrow> None)"

datatype file_status = FUnknown | FLive | FNullified

datatype object_status = OUnknown | OPending | OLive | ONullified

fun object_status_of :: "file_status \<Rightarrow> object_status" where
  "object_status_of FUnknown = OUnknown"
| "object_status_of FLive = OLive"
| "object_status_of FNullified = ONullified"

record ('h, 'cp) object_metadata =
  om_class :: qualified_name
  om_content_hash :: 'h
  om_status :: file_status
  om_tx_final :: 'h
  om_tx_hash :: "string option"
  om_creation_proof :: "'cp option"

record ('h, 'o, 'cp) object_record =
  or_metadata :: "('h, 'cp) object_metadata"
  or_obj :: 'o

definition or_status :: "('h, 'o, 'cp) object_record \<Rightarrow> file_status" where
  "or_status r = om_status (or_metadata r)"

definition set_status :: "file_status \<Rightarrow> ('h, 'o, 'cp) object_record \<Rightarrow> ('h, 'o, 'cp) object_record" where
  "set_status st r = r\<lparr> or_metadata := (or_metadata r)\<lparr> om_status := st \<rparr> \<rparr>"

definition is_nullified :: "('h, 'o, 'cp) object_record \<Rightarrow> bool" where
  "is_nullified r \<longleftrightarrow> or_status r = FNullified"

definition hash_hex_prefix :: "('h, 'o) obj_lib \<Rightarrow> 'h \<Rightarrow> nat \<Rightarrow> string" where
  "hash_hex_prefix L h num_bytes = take (num_bytes * 2) (ol_hex L h)"

definition STABLE_IDENTIFIER_FIELD :: string where
  "STABLE_IDENTIFIER_FIELD = ''stable_identifier''"

definition object_file_name :: "('h, 'o) obj_lib \<Rightarrow> qualified_name \<Rightarrow> 'o \<Rightarrow> (string, string) outcome" where
  "object_file_name L class obj =
     obind (ol_get L obj STABLE_IDENTIFIER_FIELD) (\<lambda>v.
     obind (ok_or ''object has no 'stable_identifier' field'' v) (\<lambda>stable_identifier.
     Ok (qn_file_prefix class @ ''_'' @ hash_hex_prefix L stable_identifier 8 @ ''_''
         @ hash_hex_prefix L (ol_commitment L obj) 8 @ dot_dobj)))"

section \<open>Transaction records\<close>

datatype transaction_state = TRecorded | TSubmitted | TLanded | TExpired

fun tx_terminal :: "transaction_state \<Rightarrow> bool" where
  "tx_terminal TLanded = True"
| "tx_terminal TExpired = True"
| "tx_terminal _ = False"

record pending_name =
  pn_file_name :: string
  pn_final_name :: string

record 'h transaction_record =
  t_final :: 'h
  t_action :: qualified_name
  t_owner :: string
  t_input_files :: "string list"
  t_output_files :: "string list"
  t_grounding_root :: 'h
  t_grounding_block :: int
  t_nullifiers :: "'h list"
  t_created :: "'h list"
  t_state :: transaction_state
  t_relayer_job_id :: "string option"
  t_tx_hash :: "string option"
  t_relayer_failure :: "string option"
  t_reason :: "string option"
  t_recorded_at_ms :: nat
  t_submit_attempted_at_ms :: "nat option"
  t_submitted_at_ms :: "nat option"
  t_settled_at_ms :: "nat option"
  t_pending_names :: "pending_name list"

definition recorded ::
    "'h \<Rightarrow> qualified_name \<Rightarrow> string \<Rightarrow> string list \<Rightarrow> string list \<Rightarrow> 'h \<Rightarrow> int \<Rightarrow> 'h list \<Rightarrow> 'h list \<Rightarrow> nat
     \<Rightarrow> 'h transaction_record" where
  "recorded txf action owner input_files output_files grounding_root grounding_block nullifiers created recorded_at_ms =
     \<lparr> t_final = txf, t_action = action, t_owner = owner, t_input_files = input_files, t_output_files = output_files,
       t_grounding_root = grounding_root, t_grounding_block = grounding_block, t_nullifiers = nullifiers, t_created = created,
       t_state = TRecorded, t_relayer_job_id = None, t_tx_hash = None, t_relayer_failure = None, t_reason = None,
       t_recorded_at_ms = recorded_at_ms, t_submit_attempted_at_ms = None, t_submitted_at_ms = None, t_settled_at_ms = None,
       t_pending_names = [] \<rparr>"

definition is_open :: "'h transaction_record \<Rightarrow> bool" where
  "is_open r \<longleftrightarrow> \<not> tx_terminal (t_state r)"

definition needs_tx_status :: "'h transaction_record \<Rightarrow> bool" where
  "needs_tx_status r \<longleftrightarrow> is_open r \<and> (t_submit_attempted_at_ms r \<noteq> None \<or> t_state r = TSubmitted)"

section \<open>The store\<close>

datatype ('h, 'o, 'cp) obj_file = Readable "('h, 'o, 'cp) object_record" | Unreadable

type_synonym ('h, 'o, 'cp) obj_dir = "(string \<times> ('h, 'o, 'cp) obj_file) list"

record 'h tx_dir =
  td_payload :: "u8 list option"
  td_record :: "'h transaction_record option"

record ('h, 'o, 'cp) driver_store =
  live_dir :: "('h, 'o, 'cp) obj_dir"
  nullified_dir :: "('h, 'o, 'cp) obj_dir"
  discarded_dir :: "('h, 'o, 'cp) obj_dir"
  tx_dirs :: "('h \<times> 'h tx_dir) list"
  imported_keys :: "'h list"

type_synonym ('h, 'o, 'cp) entry = "string \<times> ('h, 'o, 'cp) object_record"

datatype driver_error =
    UnknownAction string | UnknownClass string | ObjectFileNotFound string | TransactionNotFound string
  | InvalidInput string | Conflict string | OtherError string

definition dir_remove :: "'k \<Rightarrow> ('k \<times> 'v) list \<Rightarrow> ('k \<times> 'v) list" where
  "dir_remove k d = filter (\<lambda>p. fst p \<noteq> k) d"

definition dir_names :: "('k \<times> 'v) list \<Rightarrow> 'k list" where
  "dir_names d = map fst d"

definition store_names :: "('h, 'o, 'cp) driver_store \<Rightarrow> string list" where
  "store_names s = dir_names (live_dir s) @ dir_names (nullified_dir s) @ dir_names (discarded_dir s)"

definition store_has_file :: "('h, 'o, 'cp) driver_store \<Rightarrow> string \<Rightarrow> bool" where
  "store_has_file s name \<longleftrightarrow> name \<in> set (store_names s)"

definition has_custom_file_name :: "('h, 'o) obj_lib \<Rightarrow> string \<Rightarrow> ('h, 'o, 'cp) object_record \<Rightarrow> bool" where
  "has_custom_file_name L file_name r =
     (case object_file_name L (om_class (or_metadata r)) (or_obj r) of
        Ok generated \<Rightarrow> generated \<noteq> file_name
      | _ \<Rightarrow> False)"

definition write_object_file ::
    "('h, 'o, 'cp) object_record \<Rightarrow> string \<Rightarrow> ('h, 'o, 'cp) driver_store \<Rightarrow> ('h, 'o, 'cp) driver_store" where
  "write_object_file r file_name s =
     (if is_nullified r
      then s\<lparr> nullified_dir := hm_insert file_name (Readable r) (nullified_dir s), live_dir := dir_remove file_name (live_dir s) \<rparr>
      else s\<lparr> live_dir := hm_insert file_name (Readable r) (live_dir s), nullified_dir := dir_remove file_name (nullified_dir s) \<rparr>)"

definition nullify_object_file ::
    "('h, 'o) obj_lib \<Rightarrow> ('h, 'o, 'cp) object_record \<Rightarrow> string \<Rightarrow> ('h, 'o, 'cp) driver_store
     \<Rightarrow> string \<times> ('h, 'o, 'cp) driver_store" where
  "nullify_object_file L r file_name s =
     (let spent_name = (case object_file_name L (om_class (or_metadata r)) (or_obj r) of Ok n \<Rightarrow> n | _ \<Rightarrow> file_name);
          s' = write_object_file r spent_name s
      in (spent_name, if spent_name \<noteq> file_name then s'\<lparr> live_dir := dir_remove file_name (live_dir s') \<rparr> else s'))"

definition rename_live_object_file ::
    "string \<Rightarrow> string \<Rightarrow> ('h, 'o, 'cp) driver_store \<Rightarrow> (driver_error, ('h, 'o, 'cp) driver_store) outcome" where
  "rename_live_object_file from to s =
     (if \<not> eq_ignore_ascii_case to from \<and> to \<in> set (dir_names (live_dir s))
      then Err (OtherError (''object file '' @ to @ '' already exists''))
      else case map_of (live_dir s) from of
             None \<Rightarrow> Err (OtherError (''failed to rename object file '' @ from @ '' to '' @ to))
           | Some f \<Rightarrow> Ok (s\<lparr> live_dir := hm_insert to f (dir_remove from (live_dir s)) \<rparr>))"

definition load_object_entry ::
    "bool \<Rightarrow> string \<times> ('h, 'o, 'cp) obj_file \<Rightarrow> ('h, 'o, 'cp) entry list \<Rightarrow> (driver_error, ('h, 'o, 'cp) entry list) outcome" where
  "load_object_entry in_nullified_dir e objects =
     (case e of (file_name, f) \<Rightarrow>
        if \<not> is_dobj_file file_name then Ok objects
        else case f of
               Unreadable \<Rightarrow> Ok objects
             | Readable r \<Rightarrow>
                 if is_nullified r \<noteq> in_nullified_dir then Err (OtherError (''invalid object placement for '' @ file_name))
                 else if file_name \<in> fst ` set objects
                 then Err (OtherError (''duplicate object file name detected across object directories: '' @ file_name))
                 else Ok (objects @ [(file_name, r)]))"

definition load_object_files :: "('h, 'o, 'cp) driver_store \<Rightarrow> (driver_error, ('h, 'o, 'cp) entry list) outcome" where
  "load_object_files s =
     obind (ofold (load_object_entry False) (live_dir s) []) (\<lambda>objects.
     obind (ofold (load_object_entry True) (nullified_dir s) objects) (\<lambda>objects.
     Ok (sort_key fst objects)))"

definition read_live :: "('h, 'o, 'cp) driver_store \<Rightarrow> string \<Rightarrow> (driver_error, ('h, 'o, 'cp) object_record) outcome" where
  "read_live s file_name =
     (case map_of (live_dir s) file_name of
        None \<Rightarrow> Err (OtherError (''failed to read input file '' @ file_name))
      | Some Unreadable \<Rightarrow> Err (OtherError (''failed to parse '' @ file_name @ '' as object file''))
      | Some (Readable r) \<Rightarrow> Ok r)"

section \<open>Transaction directories\<close>

definition empty_tx_dir :: "'h tx_dir" where
  "empty_tx_dir = \<lparr> td_payload = None, td_record = None \<rparr>"

definition tx_dir_at :: "('h, 'o, 'cp) driver_store \<Rightarrow> 'h \<Rightarrow> 'h tx_dir" where
  "tx_dir_at s txf = (case map_of (tx_dirs s) txf of Some d \<Rightarrow> d | None \<Rightarrow> empty_tx_dir)"

text \<open>A record file that cannot be read or parsed is \<open>td_record = None\<close>: the listing skips it, as the code does with a log
  message. A listing that fails as a whole, and a file that is unreadable for one listing only, are arguments of the
  operations whose result depends on them (\<open>list_transactions\<close> of the settler's passes).\<close>

definition load_records :: "('h, 'o) obj_lib \<Rightarrow> ('h, 'o, 'cp) driver_store \<Rightarrow> 'h transaction_record list" where
  "load_records L s =
     sort_key (\<lambda>r. (t_recorded_at_ms r, ol_hex L (t_final r))) (List.map_filter (\<lambda>(h, d). td_record d) (tx_dirs s))"

definition read_record :: "('h, 'o, 'cp) driver_store \<Rightarrow> 'h \<Rightarrow> 'h transaction_record option" where
  "read_record s txf = td_record (tx_dir_at s txf)"

definition write_payload :: "'h \<Rightarrow> u8 list \<Rightarrow> ('h, 'o, 'cp) driver_store \<Rightarrow> ('h, 'o, 'cp) driver_store" where
  "write_payload txf bytes s =
     s\<lparr> tx_dirs := hm_insert txf ((tx_dir_at s txf)\<lparr> td_payload := Some bytes \<rparr>) (tx_dirs s) \<rparr>"

definition read_payload :: "('h, 'o, 'cp) driver_store \<Rightarrow> 'h \<Rightarrow> (driver_error, u8 list) outcome" where
  "read_payload s txf = ok_or (OtherError ''failed to read payload.bin'') (td_payload (tx_dir_at s txf))"

definition write_record :: "'h transaction_record \<Rightarrow> ('h, 'o, 'cp) driver_store \<Rightarrow> ('h, 'o, 'cp) driver_store" where
  "write_record r s =
     s\<lparr> tx_dirs := hm_insert (t_final r) ((tx_dir_at s (t_final r))\<lparr> td_record := Some r \<rparr>) (tx_dirs s) \<rparr>"

definition remove_transaction :: "'h \<Rightarrow> ('h, 'o, 'cp) driver_store \<Rightarrow> ('h, 'o, 'cp) driver_store" where
  "remove_transaction txf s = s\<lparr> tx_dirs := dir_remove txf (tx_dirs s) \<rparr>"

definition locked_inputs :: "'h transaction_record list \<Rightarrow> string set" where
  "locked_inputs records = set (concat (map t_input_files (filter is_open records)))"

section \<open>Holds\<close>

text \<open>The owners of held inputs. A value of \<open>Holds\<close> is the list of its files; dropping it removes them.\<close>

type_synonym hold_table = "(string \<times> string) list"

definition holds_take ::
    "string list \<Rightarrow> string \<Rightarrow> string set \<Rightarrow> hold_table \<Rightarrow> (driver_error, hold_table) outcome" where
  "holds_take files label locked owners =
     (case List.find (\<lambda>file. map_of owners file \<noteq> None \<or> file \<in> locked) files of
        Some file \<Rightarrow>
          (case map_of owners file of
             Some owner \<Rightarrow> Err (Conflict (''input '' @ file @ '' is held by '' @ owner))
           | None \<Rightarrow> Err (Conflict (''input '' @ file @ '' is spent by a transaction awaiting the chain'')))
      | None \<Rightarrow> Ok (fold (\<lambda>file. hm_insert file label) files owners))"

definition holds_drop :: "string list \<Rightarrow> hold_table \<Rightarrow> hold_table" where
  "holds_drop files owners = filter (\<lambda>p. fst p \<notin> set files) owners"

end
