(* ===== verification/Driver_Pipeline.thy ===== *)
theory Driver_Pipeline
  imports Driver_Store State_Machine
begin

text \<open>
  Proving, recording, deleting and submitting transactions (\<open>driver/src/execute.rs\<close> and the first half of
  \<open>pipeline.rs\<close>). Every operation under the store lock is one function of the store; what the network,
  the prover and the disk answer are arguments. A write to disk that fails may leave an unreadable file behind.
\<close>

section \<open>Requests (execute.rs)\<close>

record 'h class_ref =
  cref_class :: qualified_name
  cref_hash :: "'h option"

record 'h action_summary =
  act_name :: qualified_name
  act_inputs :: "'h class_ref list"
  act_outputs :: "'h class_ref list"
  act_mutated :: "(nat \<times> nat) list"

record execute_action_input =
  ei_action :: qualified_name
  ei_objects :: "string list"

definition basename_or_err :: "string \<Rightarrow> (driver_error, string) outcome" where
  "basename_or_err raw = ok_or (InvalidInput (''missing file name in path: '' @ raw)) (extract_basename raw)"

fun check_duplicates :: "string set \<Rightarrow> string list \<Rightarrow> (driver_error, unit) outcome" where
  "check_duplicates seen [] = Ok ()"
| "check_duplicates seen (raw # rest) =
     obind (basename_or_err raw) (\<lambda>file_name.
       if file_name \<in> seen then Err (OtherError (''duplicate input object is not allowed: '' @ file_name))
       else check_duplicates (insert file_name seen) rest)"

definition validate_execute_request :: "execute_action_input \<Rightarrow> 'h action_summary \<Rightarrow> (driver_error, unit) outcome" where
  "validate_execute_request input action =
     (if length (ei_objects input) \<noteq> length (act_inputs action)
      then Err (OtherError (qn_id (ei_action input) @ '' expects '' @ show_nat (length (act_inputs action))
                            @ '' inputs, got '' @ show_nat (length (ei_objects input))))
      else check_duplicates {} (ei_objects input))"

definition resolve_input ::
    "('h, 'o) obj_lib \<Rightarrow> ('h, 'o, 'cp) entry list \<Rightarrow> string \<times> 'h class_ref \<Rightarrow> (driver_error, ('h, 'o, 'cp) entry) outcome" where
  "resolve_input L entries p =
     (case p of (raw, required) \<Rightarrow>
        obind (ok_or (OtherError ''invalid class hash'') (cref_hash required)) (\<lambda>expected_class_hash.
        obind (basename_or_err raw) (\<lambda>file_name.
        obind (ok_or (ObjectFileNotFound file_name) (List.find (\<lambda>e. fst e = file_name) entries)) (\<lambda>entry.
        if or_status (snd entry) \<noteq> FLive then Err (OtherError ''input object is not live'')
        else if om_class (or_metadata (snd entry)) \<noteq> cref_class required then Err (OtherError ''input class mismatch'')
        else obind (ok_or (OtherError ''input object has no readable 'type' field'') (obj_type_hash L (or_obj (snd entry))))
               (\<lambda>actual_class_hash.
                  if actual_class_hash \<noteq> expected_class_hash then Err (OtherError ''input class hash mismatch'')
                  else Ok entry)))))"

definition resolve_inputs ::
    "('h, 'o) obj_lib \<Rightarrow> ('h, 'o, 'cp) entry list \<Rightarrow> execute_action_input \<Rightarrow> 'h action_summary
     \<Rightarrow> (driver_error, ('h, 'o, 'cp) entry list) outcome" where
  "resolve_inputs L entries input action =
     omap (resolve_input L entries) (zip (ei_objects input) (act_inputs action))"

section \<open>Proving\<close>

record ('h, 'o) proved_transaction =
  pt_final :: 'h
  pt_action :: qualified_name
  pt_owner :: string
  pt_grounding_root :: 'h
  pt_grounding_block :: int
  pt_outputs :: "(qualified_name \<times> 'o) list"
  pt_nullifiers :: "'h list"
  pt_created :: "'h list"
  pt_payload :: "u8 list"
  pt_mutated :: "(nat \<times> nat) list"
  pt_input_files :: "string list"

text \<open>Up to the point where the inputs are held, under the store lock.\<close>

definition prove_begin ::
    "('h, 'o) obj_lib \<Rightarrow> (qualified_name \<Rightarrow> 'h action_summary option) \<Rightarrow> execute_action_input \<Rightarrow> string
     \<Rightarrow> ('h, 'o, 'cp) driver_store \<Rightarrow> hold_table
     \<Rightarrow> (driver_error, 'h action_summary \<times> ('h, 'o, 'cp) entry list \<times> hold_table) outcome" where
  "prove_begin L catalog input owner s owners =
     obind (ok_or (UnknownAction (qn_id (ei_action input))) (catalog (ei_action input))) (\<lambda>action.
     obind (validate_execute_request input action) (\<lambda>_.
     obind (load_object_files s) (\<lambda>entries.
     obind (resolve_inputs L entries input action) (\<lambda>resolved.
     obind (holds_take (map fst resolved) owner (locked_inputs (load_records L s)) owners) (\<lambda>owners'.
     Ok (action, resolved, owners'))))))"

record ('h, 'o) spendable_objects =
  so_objs :: "'o list"
  so_final :: 'h
  so_nullifiers :: "'h list"
  so_created :: "'h list"

text \<open>The rest, with the grounding header (its hash and block), the execution and the payload as answers.\<close>

definition prove_finish ::
    "'h action_summary \<Rightarrow> execute_action_input \<Rightarrow> string \<Rightarrow> string list
     \<Rightarrow> (driver_error, 'h \<times> int) outcome \<Rightarrow> (driver_error, ('h, 'o) spendable_objects) outcome
     \<Rightarrow> (driver_error, u8 list) outcome \<Rightarrow> (driver_error, ('h, 'o) proved_transaction) outcome" where
  "prove_finish action input owner files grounding execution payload =
     obind grounding (\<lambda>(root, block).
     obind execution (\<lambda>outs.
       if length (so_objs outs) \<noteq> length (act_outputs action)
       then Err (OtherError (''action '' @ qn_id (act_name action) @ '' output mismatch''))
       else obind payload (\<lambda>bytes.
         Ok \<lparr> pt_final = so_final outs, pt_action = ei_action input, pt_owner = owner, pt_grounding_root = root,
              pt_grounding_block = block, pt_outputs = zip (map cref_class (act_outputs action)) (so_objs outs),
              pt_nullifiers = so_nullifiers outs, pt_created = so_created outs, pt_payload = bytes,
              pt_mutated = act_mutated action, pt_input_files = files \<rparr>)))"

section \<open>Recording\<close>

definition output_files :: "('h, 'o) obj_lib \<Rightarrow> ('h, 'o) proved_transaction \<Rightarrow> (driver_error, string list) outcome" where
  "output_files L p = map_err OtherError (omap (\<lambda>(class, obj). object_file_name L class obj) (pt_outputs p))"

definition check_recorded_input ::
    "string set \<Rightarrow> ('h, 'o, 'cp) entry list \<Rightarrow> string \<Rightarrow> (driver_error, unit) outcome" where
  "check_recorded_input locked entries input =
     (if input \<in> locked then Err (Conflict (''input '' @ input @ '' is spent by a transaction awaiting the chain''))
      else case List.find (\<lambda>e. fst e = input) entries of
             None \<Rightarrow> Err (ObjectFileNotFound input)
           | Some e \<Rightarrow> if or_status (snd e) = FLive then Ok ()
                       else Err (Conflict (''input '' @ input @ '' is no longer live'')))"

definition check_free_output :: "('h, 'o, 'cp) driver_store \<Rightarrow> string \<Rightarrow> (driver_error, unit) outcome" where
  "check_free_output s output =
     (if output \<in> set (dir_names (live_dir s)) \<or> output \<in> set (dir_names (nullified_dir s))
      then Err (Conflict (''output file already exists: '' @ output)) else Ok ())"

text \<open>A mutated input with a custom name passes it on to its new version, which waits under a pending name.\<close>

definition pass_name ::
    "('h, 'o) obj_lib \<Rightarrow> ('h, 'o, 'cp) driver_store \<Rightarrow> ('h, 'o, 'cp) entry list \<Rightarrow> string list \<Rightarrow> nat \<times> nat
     \<Rightarrow> string list \<times> pending_name list \<Rightarrow> string list \<times> pending_name list" where
  "pass_name L s entries inputs slots acc =
     (case slots of (input_index, output_index) \<Rightarrow> case acc of (outputs, pending) \<Rightarrow>
        if length inputs \<le> input_index then acc
        else let input = inputs ! input_index;
                 custom = list_ex (\<lambda>e. fst e = input \<and> has_custom_file_name L input (snd e)) entries
             in if \<not> custom \<or> length outputs \<le> output_index then acc
                else let name = pending_file_name input (store_names s @ outputs)
                     in (outputs[output_index := name], pending @ [\<lparr> pn_file_name = name, pn_final_name = input \<rparr>]))"

definition pass_names ::
    "('h, 'o) obj_lib \<Rightarrow> ('h, 'o, 'cp) driver_store \<Rightarrow> ('h, 'o, 'cp) entry list \<Rightarrow> ('h, 'o) proved_transaction
     \<Rightarrow> string list \<Rightarrow> string list \<times> pending_name list" where
  "pass_names L s entries p outputs =
     fold (pass_name L s entries (pt_input_files p)) (pt_mutated p) (outputs, [])"

definition output_record :: "('h, 'o) obj_lib \<Rightarrow> 'h \<Rightarrow> qualified_name \<times> 'o \<Rightarrow> ('h, 'o, 'cp) object_record" where
  "output_record L txf p =
     \<lparr> or_metadata = \<lparr> om_class = fst p, om_content_hash = ol_commitment L (snd p), om_status = FUnknown,
                       om_tx_final = txf, om_tx_hash = None, om_creation_proof = None \<rparr>,
       or_obj = snd p \<rparr>"

datatype disk_write = WriteOutput string | WritePayload | WriteRecord

text \<open>Writing the outputs in turn; a failing write leaves an unreadable file. Returns the names attempted.\<close>

fun write_outputs ::
    "(disk_write \<Rightarrow> bool) \<Rightarrow> (('h, 'o, 'cp) object_record \<times> string) list \<Rightarrow> ('h, 'o, 'cp) driver_store
     \<Rightarrow> bool \<times> string list \<times> ('h, 'o, 'cp) driver_store" where
  "write_outputs fails [] s = (True, [], s)"
| "write_outputs fails ((r, name) # rest) s =
     (if fails (WriteOutput name) then (False, [name], s\<lparr> live_dir := hm_insert name Unreadable (live_dir s) \<rparr>)
      else case write_outputs fails rest (write_object_file r name s) of
             (ok, names, s') \<Rightarrow> (ok, name # names, s'))"

definition roll_back :: "string list \<Rightarrow> 'h \<Rightarrow> ('h, 'o, 'cp) driver_store \<Rightarrow> ('h, 'o, 'cp) driver_store" where
  "roll_back attempted txf s =
     remove_transaction txf (s\<lparr> live_dir := filter (\<lambda>p. fst p \<notin> set attempted) (live_dir s) \<rparr>)"

definition write_transaction ::
    "(disk_write \<Rightarrow> bool) \<Rightarrow> ('h, 'o) obj_lib \<Rightarrow> ('h, 'o) proved_transaction \<Rightarrow> 'h transaction_record
     \<Rightarrow> ('h, 'o, 'cp) driver_store \<Rightarrow> (driver_error, 'h transaction_record) outcome \<times> ('h, 'o, 'cp) driver_store" where
  "write_transaction fails L p record s =
     (case write_outputs fails (zip (map (output_record L (pt_final p)) (pt_outputs p)) (t_output_files record)) s of
        (ok, attempted, s1) \<Rightarrow>
          if \<not> ok then (Err (OtherError ''failed to write object file''), roll_back attempted (pt_final p) s1)
          else if fails WritePayload
          then (Err (OtherError ''failed to write payload''), roll_back attempted (pt_final p) s1)
          else let s2 = write_payload (pt_final p) (pt_payload p) s1
               in if fails WriteRecord
                  then (Err (OtherError ''failed to commit record''), roll_back attempted (pt_final p) s2)
                  else (Ok record, write_record record s2))"

definition record_checks ::
    "('h, 'o) obj_lib \<Rightarrow> ('h, 'o) proved_transaction \<Rightarrow> ('h, 'o, 'cp) driver_store
     \<Rightarrow> (driver_error, string list \<times> ('h, 'o, 'cp) entry list) outcome" where
  "record_checks L p s =
     obind (output_files L p) (\<lambda>outputs.
     obind (load_object_files s) (\<lambda>entries.
     obind (omap (check_recorded_input (locked_inputs (load_records L s)) entries) (pt_input_files p)) (\<lambda>_.
     if read_record s (pt_final p) \<noteq> None
     then Err (Conflict (''transaction '' @ ol_hex L (pt_final p) @ '' is already recorded''))
     else obind (omap (check_free_output s) outputs) (\<lambda>_. Ok (outputs, entries)))))"

definition record_proved ::
    "(disk_write \<Rightarrow> bool) \<Rightarrow> ('h, 'o) obj_lib \<Rightarrow> nat \<Rightarrow> ('h, 'o) proved_transaction \<Rightarrow> ('h, 'o, 'cp) driver_store
     \<Rightarrow> (driver_error, 'h transaction_record) outcome \<times> ('h, 'o, 'cp) driver_store" where
  "record_proved fails L now p s =
     (case record_checks L p s of
        Err e \<Rightarrow> (Err e, s)
      | Panic \<Rightarrow> (Panic, s)
      | Ok (outputs, entries) \<Rightarrow>
          (case pass_names L s entries p outputs of
             (outputs', pending) \<Rightarrow>
               write_transaction fails L p
                 ((recorded (pt_final p) (pt_action p) (pt_owner p) (pt_input_files p) outputs' (pt_grounding_root p)
                    (pt_grounding_block p) (pt_nullifiers p) (pt_created p) now)\<lparr> t_pending_names := pending \<rparr>) s))"

section \<open>Deleting and submitting\<close>

definition owned_unknown :: "'h \<Rightarrow> ('h, 'o, 'cp) driver_store \<Rightarrow> string \<Rightarrow> bool" where
  "owned_unknown txf s file_name =
     (case read_live s file_name of
        Ok stored \<Rightarrow> or_status stored = FUnknown \<and> om_tx_final (or_metadata stored) = txf
      | _ \<Rightarrow> False)"

fun remove_unknown ::
    "'h \<Rightarrow> string list \<Rightarrow> ('h, 'o, 'cp) driver_store \<Rightarrow> string list \<times> ('h, 'o, 'cp) driver_store" where
  "remove_unknown txf [] s = ([], s)"
| "remove_unknown txf (file_name # rest) s =
     (if owned_unknown txf s file_name
      then case remove_unknown txf rest (s\<lparr> live_dir := dir_remove file_name (live_dir s) \<rparr>) of
             (removed, s') \<Rightarrow> (file_name # removed, s')
      else remove_unknown txf rest s)"

definition remove_unknown_outputs ::
    "'h transaction_record \<Rightarrow> ('h, 'o, 'cp) driver_store \<Rightarrow> string list \<times> ('h, 'o, 'cp) driver_store" where
  "remove_unknown_outputs r s = remove_unknown (t_final r) (t_output_files r) s"

definition delete_transaction ::
    "('h, 'o) obj_lib \<Rightarrow> 'h \<Rightarrow> ('h, 'o, 'cp) driver_store
     \<Rightarrow> (driver_error, 'h transaction_record \<times> string list) outcome \<times> ('h, 'o, 'cp) driver_store" where
  "delete_transaction L txf s =
     (case read_record s txf of
        None \<Rightarrow> (Err (TransactionNotFound (ol_hex L txf)), s)
      | Some r \<Rightarrow>
          if t_state r \<noteq> TRecorded
          then (Err (Conflict ''only recorded transactions can be deleted''), s)
          else if t_submit_attempted_at_ms r \<noteq> None
          then (Err (Conflict ''the transaction was offered to the relayer and may still land''), s)
          else case remove_unknown_outputs r s of
                 (removed, s') \<Rightarrow> (Ok (r, removed), remove_transaction txf s'))"

text \<open>A change to a fresh record under the store lock.\<close>

definition update_record ::
    "('h, 'o) obj_lib \<Rightarrow> 'h \<Rightarrow> ('h transaction_record \<Rightarrow> 'h transaction_record option) \<Rightarrow> ('h, 'o, 'cp) driver_store
     \<Rightarrow> (driver_error, 'h transaction_record \<times> bool) outcome \<times> ('h, 'o, 'cp) driver_store" where
  "update_record L txf change s =
     (case read_record s txf of
        None \<Rightarrow> (Err (TransactionNotFound (ol_hex L txf)), s)
      | Some r \<Rightarrow> (case change r of None \<Rightarrow> (Ok (r, False), s) | Some r' \<Rightarrow> (Ok (r', True), write_record r' s)))"

datatype 'h submit_check = AlreadySubmitted "'h transaction_record" | Offer "u8 list"

definition submit_check ::
    "('h, 'o) obj_lib \<Rightarrow> 'h \<Rightarrow> (driver_error, int) outcome \<Rightarrow> ('h, 'o, 'cp) driver_store
     \<Rightarrow> (driver_error, 'h submit_check) outcome" where
  "submit_check L txf head s =
     obind (ok_or (TransactionNotFound (ol_hex L txf)) (read_record s txf)) (\<lambda>r.
       case t_state r of
         TSubmitted \<Rightarrow> Ok (AlreadySubmitted r)
       | TRecorded \<Rightarrow>
           obind head (\<lambda>head_block.
             if grounding_aged_out head_block (t_grounding_block r)
             then Err (Conflict ''the grounding is too far behind the synchronizer head'')
             else obind (read_payload s txf) (\<lambda>bytes. Ok (Offer bytes)))
       | _ \<Rightarrow> Err (Conflict ''the transaction is settled''))"

definition mark_attempted :: "nat \<Rightarrow> 'h transaction_record \<Rightarrow> 'h transaction_record option" where
  "mark_attempted now r =
     (if t_state r \<noteq> TRecorded then None
      else Some (r\<lparr> t_submit_attempted_at_ms :=
                      (case t_submit_attempted_at_ms r of None \<Rightarrow> Some now | Some t \<Rightarrow> Some t) \<rparr>))"

definition submit_attempt ::
    "('h, 'o) obj_lib \<Rightarrow> nat \<Rightarrow> 'h \<Rightarrow> ('h, 'o, 'cp) driver_store
     \<Rightarrow> (driver_error, 'h transaction_record \<times> bool) outcome \<times> ('h, 'o, 'cp) driver_store" where
  "submit_attempt L now txf s = update_record L txf (mark_attempted now) s"

definition mark_submitted :: "nat \<Rightarrow> string \<Rightarrow> bool \<Rightarrow> 'h transaction_record \<Rightarrow> 'h transaction_record option" where
  "mark_submitted now job_id failed r =
     (if t_state r \<noteq> TRecorded then None
      else Some (r\<lparr> t_state := TSubmitted, t_relayer_job_id := Some job_id, t_submitted_at_ms := Some now,
                    t_relayer_failure := (if failed then Some ''relayer job failed'' else t_relayer_failure r) \<rparr>))"

definition submit_accept ::
    "('h, 'o) obj_lib \<Rightarrow> nat \<Rightarrow> string \<Rightarrow> bool \<Rightarrow> 'h \<Rightarrow> ('h, 'o, 'cp) driver_store
     \<Rightarrow> (driver_error, 'h transaction_record \<times> bool) outcome \<times> ('h, 'o, 'cp) driver_store" where
  "submit_accept L now job_id failed txf s = update_record L txf (mark_submitted now job_id failed) s"

end
