(* ===== verification/Driver_Settle.thy ===== *)
theory Driver_Settle
  imports Driver_Pipeline Relay_Db
begin

text \<open>
  Settlement and pruning of transactions (the second half of \<open>driver/src/pipeline.rs\<close>) and the operations on object files
  of \<open>driver.rs\<close>. Settlement reads the chain without the store lock; what it read are arguments of the
  function that applies it under the lock. When an error ends an operation on several files, the store keeps what was done
  before it; writes to the disk succeed here, and files that do not parse are where errors come from.
\<close>

section \<open>Folding with kept effects\<close>

fun sfold :: "('a \<Rightarrow> 's \<Rightarrow> ('e, unit) outcome \<times> 's) \<Rightarrow> 'a list \<Rightarrow> 's \<Rightarrow> ('e, unit) outcome \<times> 's" where
  "sfold f [] s = (Ok (), s)"
| "sfold f (x # xs) s = sbind (f x s) (\<lambda>_. sfold f xs)"

section \<open>Deciding records\<close>

record synchronizer_tx_status =
  ss_tx_hash :: string
  ss_block_number :: int
  ss_error :: "string option"

record job_status_response =
  js_status :: job_status
  js_tx_hash :: "string option"
  js_last_error :: "string option"

record 'h synchronizer_membership =
  sm_created :: "'h set"
  sm_nullifiers :: "'h set"
  sm_block_number :: int

definition annotate_job :: "job_status_response option \<Rightarrow> 'h transaction_record \<Rightarrow> 'h transaction_record" where
  "annotate_job job r =
     (case job of
        None \<Rightarrow> r
      | Some j \<Rightarrow>
          let r1 = (if js_tx_hash j \<noteq> None then r\<lparr> t_tx_hash := js_tx_hash j \<rparr> else r)
          in if js_status j = Failed
             then r1\<lparr> t_relayer_failure := Some (case js_last_error j of Some e \<Rightarrow> e | None \<Rightarrow> ''relayer job failed'') \<rparr>
             else r1)"

definition expire :: "nat \<Rightarrow> string \<Rightarrow> 'h transaction_record \<Rightarrow> 'h transaction_record" where
  "expire now reason r = r\<lparr> t_state := TExpired, t_reason := Some reason, t_settled_at_ms := Some now \<rparr>"

definition decide_record ::
    "nat \<Rightarrow> int option \<Rightarrow> synchronizer_tx_status option \<Rightarrow> 'h transaction_record \<Rightarrow> 'h transaction_record" where
  "decide_record now head_block found r =
     (case found of
        Some st \<Rightarrow>
          (case ss_error st of
             None \<Rightarrow> r\<lparr> t_state := TLanded, t_tx_hash := Some (ss_tx_hash st), t_settled_at_ms := Some now \<rparr>
           | Some err \<Rightarrow>
               expire now (''rejected by the synchronizer: '' @ err) (r\<lparr> t_tx_hash := Some (ss_tx_hash st) \<rparr>))
      | None \<Rightarrow>
          (case head_block of
             Some head \<Rightarrow>
               if grounding_aged_out head (t_grounding_block r)
               then expire now ''the grounding block is too far behind the synchronizer head'' r else r
           | None \<Rightarrow> r))"

text \<open>One turn of the loop over open records: unchanged when the record was not among the queried ones, or when its submission
  was attempted after the statuses were read.\<close>

definition settle_record ::
    "nat \<Rightarrow> 'h set \<Rightarrow> ('h \<rightharpoonup> job_status_response) \<Rightarrow> ('h \<rightharpoonup> synchronizer_tx_status option) \<Rightarrow> int option
     \<Rightarrow> 'h transaction_record \<Rightarrow> 'h transaction_record" where
  "settle_record now queried jobs statuses head_block r =
     (if \<not> is_open r \<or> t_final r \<notin> queried \<or> needs_tx_status r \<and> statuses (t_final r) = None then r
      else decide_record now head_block (Option.bind (statuses (t_final r)) id) (annotate_job (jobs (t_final r)) r))"

section \<open>Objects of settled records\<close>

record ('h, 'o, 'cp) settle_acc =
  sa_store :: "('h, 'o, 'cp) driver_store"
  sa_changed :: "string list"
  sa_removed :: "string list"
  sa_spent :: "(string \<times> string) list"

definition stored_file :: "('h, 'o, 'cp) driver_store \<Rightarrow> string \<Rightarrow> ('h, 'o, 'cp) obj_file option" where
  "stored_file s file_name =
     (case map_of (live_dir s) file_name of Some f \<Rightarrow> Some f | None \<Rightarrow> map_of (nullified_dir s) file_name)"

definition persist_input ::
    "('h, 'o) obj_lib \<Rightarrow> 'h transaction_record \<Rightarrow> string \<Rightarrow> ('h, 'o, 'cp) settle_acc
     \<Rightarrow> (driver_error, unit) outcome \<times> ('h, 'o, 'cp) settle_acc" where
  "persist_input L r file_name acc =
     (case stored_file (sa_store acc) file_name of
        None \<Rightarrow> (Ok (), acc)
      | Some Unreadable \<Rightarrow> (Err (OtherError (''failed to parse '' @ file_name)), acc)
      | Some (Readable stored) \<Rightarrow>
          let spent_here = (case object_nullifier_hash L (or_obj stored) of Ok n \<Rightarrow> n \<in> set (t_nullifiers r) | _ \<Rightarrow> False)
          in if \<not> spent_here \<or> or_status stored = FNullified then (Ok (), acc)
             else case nullify_object_file L (set_status FNullified stored) file_name (sa_store acc) of
                    (spent_name, s') \<Rightarrow>
                      (Ok (), if spent_name \<noteq> file_name
                        then acc\<lparr> sa_store := s', sa_changed := spent_name # sa_changed acc,
                                  sa_removed := sa_removed acc @ [file_name], sa_spent := sa_spent acc @ [(file_name, spent_name)] \<rparr>
                        else acc\<lparr> sa_store := s', sa_changed := spent_name # sa_changed acc \<rparr>))"

definition persist_output ::
    "'h transaction_record \<Rightarrow> string \<Rightarrow> ('h, 'o, 'cp) settle_acc \<Rightarrow> (driver_error, unit) outcome \<times> ('h, 'o, 'cp) settle_acc" where
  "persist_output r file_name acc =
     (case stored_file (sa_store acc) file_name of
        None \<Rightarrow> (Ok (), acc)
      | Some Unreadable \<Rightarrow> (Err (OtherError (''failed to parse '' @ file_name)), acc)
      | Some (Readable stored) \<Rightarrow>
          if om_tx_final (or_metadata stored) \<noteq> t_final r then (Ok (), acc)
          else let st1 = (if or_status stored = FUnknown then set_status FLive stored else stored);
                   st2 = (if t_tx_hash r \<noteq> None \<and> om_tx_hash (or_metadata st1) \<noteq> t_tx_hash r
                          then st1\<lparr> or_metadata := (or_metadata st1)\<lparr> om_tx_hash := t_tx_hash r \<rparr> \<rparr> else st1)
               in if or_status stored = FUnknown \<or> t_tx_hash r \<noteq> None \<and> om_tx_hash (or_metadata stored) \<noteq> t_tx_hash r
                  then (Ok (), acc\<lparr> sa_store := write_object_file st2 file_name (sa_store acc),
                                    sa_changed := file_name # sa_changed acc \<rparr>)
                  else (Ok (), acc))"

text \<open>One pending name: finished without a name when its file is not this record's any more, kept while the file is an input
  of another action, and otherwise renamed.\<close>

definition finish_pending_name ::
    "hold_table \<Rightarrow> string set \<Rightarrow> 'h \<Rightarrow> pending_name \<Rightarrow> (string \<times> string option) list \<times> ('h, 'o, 'cp) settle_acc
     \<Rightarrow> (driver_error, unit) outcome \<times> (string \<times> string option) list \<times> ('h, 'o, 'cp) settle_acc" where
  "finish_pending_name held locked txf pending st =
     (case st of (finished, acc) \<Rightarrow>
        case map_of (live_dir (sa_store acc)) (pn_file_name pending) of
          Some Unreadable \<Rightarrow> (Err (OtherError (''failed to parse '' @ pn_file_name pending)), finished, acc)
        | None \<Rightarrow> (Ok (), finished @ [(pn_file_name pending, None)], acc)
        | Some (Readable stored) \<Rightarrow>
            if om_tx_final (or_metadata stored) \<noteq> txf then (Ok (), finished @ [(pn_file_name pending, None)], acc)
            else if map_of held (pn_file_name pending) \<noteq> None \<or> pn_file_name pending \<in> locked then (Ok (), finished, acc)
            else let final_name = unique_file_name (pn_final_name pending) (store_names (sa_store acc))
                 in case rename_live_object_file (pn_file_name pending) final_name (sa_store acc) of
                      Err e \<Rightarrow> (Err e, finished, acc)
                    | Panic \<Rightarrow> (Panic, finished, acc)
                    | Ok s' \<Rightarrow> (Ok (), finished @ [(pn_file_name pending, Some final_name)],
                                acc\<lparr> sa_store := s', sa_removed := sa_removed acc @ [pn_file_name pending],
                                     sa_changed := final_name # sa_changed acc \<rparr>))"

fun rename_outputs :: "(string \<times> string option) list \<Rightarrow> 'h transaction_record \<Rightarrow> 'h transaction_record" where
  "rename_outputs [] r = r"
| "rename_outputs ((pending_name, final_name) # rest) r =
     rename_outputs rest (r\<lparr> t_pending_names := filter (\<lambda>p. pn_file_name p \<noteq> pending_name) (t_pending_names r),
       t_output_files := (case final_name of
          None \<Rightarrow> t_output_files r
        | Some n \<Rightarrow> map (\<lambda>f. if f = pending_name then n else f) (t_output_files r)) \<rparr>)"

definition finish_pending_names ::
    "hold_table \<Rightarrow> string set \<Rightarrow> 'h transaction_record \<Rightarrow> ('h, 'o, 'cp) settle_acc
     \<Rightarrow> (driver_error, 'h transaction_record) outcome \<times> ('h, 'o, 'cp) settle_acc" where
  "finish_pending_names held locked r acc =
     (if t_state r \<noteq> TLanded \<or> t_pending_names r = [] then (Ok r, acc)
      else case sfold (finish_pending_name held locked (t_final r)) (t_pending_names r) ([], acc) of
             (Ok _, finished, acc') \<Rightarrow> (Ok (rename_outputs finished r), acc')
           | (Err e, _, acc') \<Rightarrow> (Err e, acc')
           | (Panic, _, acc') \<Rightarrow> (Panic, acc'))"

definition rename_inputs :: "(string \<times> string) list \<Rightarrow> 'h transaction_record \<Rightarrow> 'h transaction_record" where
  "rename_inputs spent r =
     fold (\<lambda>(file_name, spent_name) r.
       r\<lparr> t_input_files := map (\<lambda>f. if f = file_name then spent_name else f) (t_input_files r) \<rparr>) spent r"

text \<open>Returns the record as it is in memory afterwards, also when an error ended the work; the caller persists it when it
  changed and there was none.\<close>

definition persist_settled_objects ::
    "('h, 'o) obj_lib \<Rightarrow> hold_table \<Rightarrow> string set \<Rightarrow> 'h transaction_record \<Rightarrow> ('h, 'o, 'cp) settle_acc
     \<Rightarrow> (driver_error, unit) outcome \<times> 'h transaction_record \<times> ('h, 'o, 'cp) settle_acc" where
  "persist_settled_objects L held locked r acc0 =
     (let acc = acc0\<lparr> sa_spent := [] \<rparr>
      in if t_state r = TExpired
         then if list_ex (\<lambda>f. map_of (live_dir (sa_store acc)) f = Some Unreadable) (t_output_files r)
              then (Err (OtherError ''failed to parse output''), r, acc)
              else (case remove_unknown_outputs r (sa_store acc) of
                      (removed, s') \<Rightarrow> (Ok (), r, acc\<lparr> sa_store := s', sa_removed := sa_removed acc @ removed \<rparr>))
         else case sbind (sfold (persist_input L r) (t_input_files r) acc) (\<lambda>_. sfold (persist_output r) (t_output_files r)) of
                (Err e, acc') \<Rightarrow> (Err e, r, acc')
              | (Panic, acc') \<Rightarrow> (Panic, r, acc')
              | (Ok _, acc') \<Rightarrow>
                  let r' = rename_inputs (sa_spent acc') r
                  in case finish_pending_names held locked r' acc' of
                       (Ok r'', acc'') \<Rightarrow> (Ok (), r'', acc'')
                     | (Err e, acc'') \<Rightarrow> (Err e, r', acc'')
                     | (Panic, acc'') \<Rightarrow> (Panic, r', acc''))"

section \<open>Summaries\<close>

text \<open>What a summary says of an object's state; the fields that are only shown (file size, class hash and emoji, description, the object's
  fields) are left out.\<close>

record 'h object_summary =
  os_content_hash :: 'h
  os_file_name :: string
  os_class :: qualified_name
  os_status :: object_status
  os_tx_hash :: "string option"
  os_held_by :: "string option"
  os_shared_key :: bool

definition record_by_final :: "'h transaction_record list \<Rightarrow> 'h \<Rightarrow> 'h transaction_record option" where
  "record_by_final records txf = map_of (rev (map (\<lambda>r. (t_final r, r)) records)) txf"

definition locked_by :: "'h transaction_record list \<Rightarrow> string \<Rightarrow> string option" where
  "locked_by records file_name =
     map_of (rev (concat (map (\<lambda>r. map (\<lambda>f. (f, t_owner r)) (t_input_files r)) (filter is_open records)))) file_name"

definition object_summary ::
    "('h, 'o) obj_lib \<Rightarrow> 'h transaction_record list \<Rightarrow> hold_table \<Rightarrow> 'h list \<Rightarrow> ('h, 'o, 'cp) entry \<Rightarrow> 'h object_summary" where
  "object_summary L records held keys e =
     (case e of (file_name, stored) \<Rightarrow>
        let r = record_by_final records (om_tx_final (or_metadata stored))
        in \<lparr> os_content_hash = om_content_hash (or_metadata stored), os_file_name = file_name,
             os_class = om_class (or_metadata stored),
             os_status = (if or_status stored = FUnknown \<and> map_option t_state r = Some TSubmitted then OPending
                          else object_status_of (or_status stored)),
             os_tx_hash = (case Option.bind r t_tx_hash of Some h \<Rightarrow> Some h | None \<Rightarrow> om_tx_hash (or_metadata stored)),
             os_held_by = (case map_of held file_name of Some owner \<Rightarrow> Some owner | None \<Rightarrow> locked_by records file_name),
             os_shared_key = (case key_fingerprint L (or_obj stored) of Some f \<Rightarrow> f \<in> set keys | None \<Rightarrow> False) \<rparr>)"

record object_query =
  oq_class :: "qualified_name option"
  oq_status :: "object_status option"
  oq_exclude_nullified :: bool

definition matches_query :: "'h object_summary \<Rightarrow> object_query \<Rightarrow> bool" where
  "matches_query summary query \<longleftrightarrow>
     (case oq_class query of None \<Rightarrow> True | Some c \<Rightarrow> os_class summary = c)
     \<and> (case oq_status query of None \<Rightarrow> True | Some wanted \<Rightarrow> wanted = os_status summary)
     \<and> \<not> (oq_exclude_nullified query \<and> os_status summary = ONullified)"

section \<open>Settlement\<close>

definition chain_file_status ::
    "('h, 'o) obj_lib \<Rightarrow> ('h, 'o, 'cp) object_record \<Rightarrow> 'h synchronizer_membership \<Rightarrow> file_status" where
  "chain_file_status L r membership =
     (let spent = (case object_nullifier_hash L (or_obj r) of Ok n \<Rightarrow> n \<in> sm_nullifiers membership | _ \<Rightarrow> False)
      in case or_status r of
           FNullified \<Rightarrow> FNullified
         | FUnknown \<Rightarrow> if spent then FNullified
                       else if ol_commitment L (or_obj r) \<in> sm_created membership then FLive else FUnknown
         | FLive \<Rightarrow> if spent then FNullified else FLive)"

record ('h, 'cp) settle_view =
  sv_queried :: "'h set"
  sv_jobs :: "'h \<rightharpoonup> job_status_response"
  sv_statuses :: "'h \<rightharpoonup> synchronizer_tx_status option"
  sv_membership :: "'h synchronizer_membership option"
  sv_head_block :: "int option"
  sv_proofs :: "'h \<rightharpoonup> 'cp"

text \<open>What settlement asks for, from the records before the queries.\<close>

definition queried_transactions :: "'h transaction_record list \<Rightarrow> 'h set" where
  "queried_transactions records = t_final ` set (filter is_open records)"

definition settle_head ::
    "'h synchronizer_membership option \<Rightarrow> 'h set \<Rightarrow> (driver_error, int) outcome \<Rightarrow> (driver_error, int option) outcome" where
  "settle_head membership queried head =
     (case membership of
        Some m \<Rightarrow> Ok (Some (sm_block_number m))
      | None \<Rightarrow> if queried = {} then Ok None else obind head (\<lambda>b. Ok (Some b)))"

fun fetch_statuses ::
    "('h \<Rightarrow> (driver_error, synchronizer_tx_status option) outcome) \<Rightarrow> 'h transaction_record list
     \<Rightarrow> (driver_error, 'h \<rightharpoonup> synchronizer_tx_status option) outcome" where
  "fetch_statuses fetch [] = Ok Map.empty"
| "fetch_statuses fetch (r # rs) =
     (if needs_tx_status r
      then obind (fetch (t_final r)) (\<lambda>st. obind (fetch_statuses fetch rs) (\<lambda>m. Ok (if m (t_final r) = None then m(t_final r \<mapsto> st) else m)))
      else fetch_statuses fetch rs)"

definition update_entry ::
    "('h, 'o) obj_lib \<Rightarrow> ('h, 'cp) settle_view \<Rightarrow> 'h transaction_record list \<Rightarrow> ('h, 'o, 'cp) entry
     \<Rightarrow> ('h, 'o, 'cp) settle_acc \<Rightarrow> ('h, 'o, 'cp) entry \<times> ('h, 'o, 'cp) settle_acc" where
  "update_entry L V records e acc =
     (case e of (file_name, stored) \<Rightarrow>
        let st = (case sv_membership V of Some m \<Rightarrow> chain_file_status L stored m | None \<Rightarrow> or_status stored);
            h = (case Option.bind (record_by_final records (om_tx_final (or_metadata stored))) t_tx_hash of
                   Some h \<Rightarrow> Some h | None \<Rightarrow> om_tx_hash (or_metadata stored));
            cp = (case om_creation_proof (or_metadata stored) of
                    Some p \<Rightarrow> Some p
                  | None \<Rightarrow> if st = FLive then sv_proofs V (ol_commitment L (or_obj stored)) else None);
            new = stored\<lparr> or_metadata := (or_metadata stored)\<lparr> om_status := st, om_tx_hash := h, om_creation_proof := cp \<rparr> \<rparr>
        in if or_status stored = st \<and> om_tx_hash (or_metadata stored) = h \<and> om_creation_proof (or_metadata stored) = cp
           then (e, acc)
           else if st = FNullified \<and> or_status stored \<noteq> FNullified
           then case nullify_object_file L new file_name (sa_store acc) of
                  (spent_name, s') \<Rightarrow>
                    ((spent_name, new), acc\<lparr> sa_store := s', sa_changed := spent_name # sa_changed acc,
                       sa_removed := sa_removed acc @ (if spent_name \<noteq> file_name then [file_name] else []) \<rparr>)
           else ((file_name, new), acc\<lparr> sa_store := write_object_file new file_name (sa_store acc),
                                         sa_changed := file_name # sa_changed acc \<rparr>))"

fun update_entries ::
    "('h, 'o) obj_lib \<Rightarrow> ('h, 'cp) settle_view \<Rightarrow> 'h transaction_record list \<Rightarrow> ('h, 'o, 'cp) entry list
     \<Rightarrow> ('h, 'o, 'cp) settle_acc \<Rightarrow> ('h, 'o, 'cp) entry list \<times> ('h, 'o, 'cp) settle_acc" where
  "update_entries L V records [] acc = ([], acc)"
| "update_entries L V records (e # es) acc =
     (case update_entry L V records e acc of
        (e', acc') \<Rightarrow> case update_entries L V records es acc' of (es', acc'') \<Rightarrow> (e' # es', acc''))"

text \<open>The objects of the records that changed; an error is logged and leaves the record to pruning.\<close>

fun persist_changed ::
    "('h, 'o) obj_lib \<Rightarrow> hold_table \<Rightarrow> string set \<Rightarrow> 'h transaction_record list \<Rightarrow> ('h, 'o, 'cp) settle_acc
     \<Rightarrow> 'h transaction_record list \<times> ('h, 'o, 'cp) settle_acc" where
  "persist_changed L held locked [] acc = ([], acc)"
| "persist_changed L held locked (r # rs) acc =
     (if \<not> tx_terminal (t_state r)
      then case persist_changed L held locked rs acc of (rs', acc') \<Rightarrow> (r # rs', acc')
      else case persist_settled_objects L held locked r acc of
             (res, r', acc') \<Rightarrow>
               let acc1 = (if res = Ok () \<and> r' \<noteq> r then acc'\<lparr> sa_store := write_record r' (sa_store acc') \<rparr> else acc');
                   acc2 = acc1\<lparr> sa_changed := t_output_files r' @ t_input_files r' @ sa_changed acc1 \<rparr>
               in case persist_changed L held locked rs acc2 of (rs', acc3) \<Rightarrow> (r' # rs', acc3))"

record 'h settle_outcome =
  so_records :: "'h transaction_record list"
  so_objects :: "'h object_summary list"
  so_removed :: "string list"
  so_open :: nat
  so_unattempted :: nat

definition settle_apply ::
    "('h, 'o) obj_lib \<Rightarrow> bool \<Rightarrow> ('h, 'cp) settle_view \<Rightarrow> nat \<Rightarrow> hold_table \<Rightarrow> ('h, 'o, 'cp) driver_store
     \<Rightarrow> (driver_error, 'h settle_outcome \<times> 'h object_summary list) outcome \<times> ('h, 'o, 'cp) driver_store" where
  "settle_apply L all_objects V now held s =
     (let before = load_records L s;
          records = map (settle_record now (sv_queried V) (sv_jobs V) (sv_statuses V) (sv_head_block V)) before;
          changed = map snd (filter (\<lambda>(b, r). b \<noteq> r) (zip before records));
          s1 = fold write_record changed s;
          locked = locked_inputs records;
          open_count = length (filter is_open records);
          unattempted = length (filter (\<lambda>r. is_open r \<and> \<not> needs_tx_status r) records)
      in case persist_changed L held locked changed \<lparr> sa_store = s1, sa_changed = [], sa_removed = [], sa_spent = [] \<rparr> of
           (changed', acc) \<Rightarrow>
             (case load_object_files (sa_store acc) of
                Err e \<Rightarrow> (Err e, sa_store acc)
              | Panic \<Rightarrow> (Panic, sa_store acc)
              | Ok entries \<Rightarrow>
                  (case update_entries L V records entries acc of
                     (entries', acc') \<Rightarrow>
                       let is_changed = (\<lambda>name. name \<in> set (sa_changed acc'));
                           all = map (object_summary L records held (imported_keys (sa_store acc'))) entries';
                           touched = filter (\<lambda>x. is_changed (os_file_name x)) all
                       in (Ok (\<lparr> so_records = changed', so_objects = touched, so_removed = sa_removed acc',
                                 so_open = open_count, so_unattempted = unattempted \<rparr>,
                               if all_objects then all else []), sa_store acc'))))"

text \<open>Nothing is queried or done when there is no open record and no listing was asked for.\<close>

definition settle_idle :: "('h, 'o) obj_lib \<Rightarrow> bool \<Rightarrow> ('h, 'o, 'cp) driver_store \<Rightarrow> bool" where
  "settle_idle L all_objects s \<longleftrightarrow> queried_transactions (load_records L s) = {} \<and> \<not> all_objects"

section \<open>Pruning\<close>

definition TRANSACTION_RETENTION_MS :: nat where
  "TRANSACTION_RETENTION_MS = 600000"

definition u64_sat_add :: "nat \<Rightarrow> nat \<Rightarrow> nat" where
  "u64_sat_add a b = min (a + b) (2 ^ 64 - 1)"

definition cleanup_at :: "'h transaction_record \<Rightarrow> nat" where
  "cleanup_at r = u64_sat_add (case t_settled_at_ms r of Some t \<Rightarrow> t | None \<Rightarrow> t_recorded_at_ms r) TRANSACTION_RETENTION_MS"

definition min_opt :: "nat \<Rightarrow> nat option \<Rightarrow> nat option" where
  "min_opt t next = Some (case next of None \<Rightarrow> t | Some n \<Rightarrow> min n t)"

record ('h, 'o, 'cp) prune_acc =
  pa_acc :: "('h, 'o, 'cp) settle_acc"
  pa_reconciled :: "('h \<times> 'h transaction_record) list"
  pa_pruned :: "'h list"
  pa_next :: "nat option"

definition prune_record ::
    "('h, 'o) obj_lib \<Rightarrow> hold_table \<Rightarrow> string set \<Rightarrow> nat \<Rightarrow> 'h transaction_record \<Rightarrow> ('h, 'o, 'cp) prune_acc
     \<Rightarrow> ('h, 'o, 'cp) prune_acc" where
  "prune_record L held locked now r0 acc =
     (if now \<ge> cleanup_at r0 \<or> map_of (pa_reconciled acc) (t_final r0) \<noteq> Some r0
      then case persist_settled_objects L held locked r0 (pa_acc acc) of
             (Ok _, r, sacc) \<Rightarrow>
               let sacc' = (if r \<noteq> r0 then sacc\<lparr> sa_store := write_record r (sa_store sacc) \<rparr> else sacc)
               in if now \<ge> cleanup_at r0
                  then acc\<lparr> pa_acc := sacc'\<lparr> sa_store := remove_transaction (t_final r) (sa_store sacc') \<rparr>,
                            pa_reconciled := dir_remove (t_final r) (pa_reconciled acc), pa_pruned := pa_pruned acc @ [t_final r] \<rparr>
                  else acc\<lparr> pa_acc := sacc', pa_reconciled := hm_insert (t_final r) r (pa_reconciled acc),
                            pa_next := min_opt (cleanup_at r0) (pa_next acc) \<rparr>
           | (_, r, sacc) \<Rightarrow>
               acc\<lparr> pa_acc := sacc, pa_reconciled := dir_remove (t_final r) (pa_reconciled acc),
                    pa_next := min_opt (u64_sat_add now 60000) (pa_next acc) \<rparr>
      else acc\<lparr> pa_next := min_opt (cleanup_at r0) (pa_next acc) \<rparr>)"

text \<open>Pruning over the records its listing gave.\<close>

definition prune_listed ::
    "('h, 'o) obj_lib \<Rightarrow> hold_table \<Rightarrow> nat \<Rightarrow> ('h \<times> 'h transaction_record) list \<Rightarrow> 'h transaction_record list
     \<Rightarrow> ('h, 'o, 'cp) driver_store \<Rightarrow> ('h, 'o, 'cp) prune_acc" where
  "prune_listed L held now reconciled records s =
     (let terminals = filter (\<lambda>r. tx_terminal (t_state r)) records
      in fold (prune_record L held (locked_inputs records) now) terminals
           \<lparr> pa_acc = \<lparr> sa_store = s, sa_changed = [], sa_removed = [], sa_spent = [] \<rparr>,
             pa_reconciled = filter (\<lambda>p. fst p \<in> t_final ` set terminals) reconciled, pa_pruned = [], pa_next = None \<rparr>)"

definition prune_transactions ::
    "('h, 'o) obj_lib \<Rightarrow> hold_table \<Rightarrow> nat \<Rightarrow> ('h \<times> 'h transaction_record) list \<Rightarrow> ('h, 'o, 'cp) driver_store
     \<Rightarrow> ('h, 'o, 'cp) prune_acc" where
  "prune_transactions L held now reconciled s = prune_listed L held now reconciled (load_records L s) s"

section \<open>Object files (driver.rs)\<close>

definition rename_object ::
    "('h, 'o) obj_lib \<Rightarrow> hold_table \<Rightarrow> string \<Rightarrow> string \<Rightarrow> ('h, 'o, 'cp) driver_store
     \<Rightarrow> (driver_error, string) outcome \<times> ('h, 'o, 'cp) driver_store" where
  "rename_object L held path new_name s =
     (case obind (basename_or_err path) (\<lambda>file_name.
           if file_name \<notin> set (dir_names (live_dir s)) then Err (ObjectFileNotFound file_name)
           else obind (read_live s file_name) (\<lambda>stored.
                obind (map_err OtherError (object_file_name L (om_class (or_metadata stored)) (or_obj stored))) (\<lambda>generated.
                obind (map_err InvalidInput (custom_file_name new_name generated)) (\<lambda>target.
                if target = file_name then Ok (target, s)
                else let records = load_records L s
                     in if map_of held file_name \<noteq> None then Err (Conflict (file_name @ '' is held''))
                        else if file_name \<in> locked_inputs records
                        then Err (Conflict (file_name @ '' is spent by a transaction awaiting the chain''))
                        else if list_ex (\<lambda>r. is_open r \<and> file_name \<in> set (t_output_files r)) records
                        then Err (Conflict (file_name @ '' is created by a transaction awaiting the chain''))
                        else if or_status stored \<noteq> FLive then Err (Conflict (file_name @ '' is not live''))
                        else if store_has_file s target then Err (Conflict (target @ '' already exists''))
                        else obind (rename_live_object_file file_name target s) (\<lambda>s'. Ok (target, s')))))) of
        Ok (target, s') \<Rightarrow> (Ok target, s')
      | Err e \<Rightarrow> (Err e, s)
      | Panic \<Rightarrow> (Panic, s))"

definition discard_object_unsafe ::
    "string \<Rightarrow> ('h, 'o, 'cp) driver_store \<Rightarrow> (driver_error, string) outcome \<times> ('h, 'o, 'cp) driver_store" where
  "discard_object_unsafe path s =
     (case obind (basename_or_err path) (\<lambda>file_name.
           if file_name \<notin> set (dir_names (live_dir s)) then Err (ObjectFileNotFound file_name)
           else obind (read_live s file_name) (\<lambda>stored. Ok (file_name, stored))) of
        Ok (file_name, stored) \<Rightarrow>
          (Ok file_name, s\<lparr> discarded_dir := hm_insert file_name (Readable stored) (discarded_dir s),
                            live_dir := dir_remove file_name (live_dir s) \<rparr>)
      | Err e \<Rightarrow> (Err e, s)
      | Panic \<Rightarrow> (Panic, s))"

definition import_file_name ::
    "('h, 'o, 'cp) object_record \<Rightarrow> string \<Rightarrow> string option \<Rightarrow> ('h, 'o, 'cp) driver_store \<Rightarrow> (driver_error, string) outcome" where
  "import_file_name r generated requested s =
     obind (load_object_files s) (\<lambda>entries.
       case List.find (\<lambda>e. om_content_hash (or_metadata (snd e)) = om_content_hash (or_metadata r)) entries of
         Some held \<Rightarrow> Err (Conflict (''object already present: '' @ fst held))
       | None \<Rightarrow>
           obind (case requested of
                    None \<Rightarrow> Ok generated
                  | Some name \<Rightarrow> map_err InvalidInput (imported_file_name name generated (store_names s))) (\<lambda>file_name.
             if file_name \<in> fst ` set entries then Err (Conflict (''object already present: '' @ file_name))
             else Ok file_name))"

record ('h, 'cp) import_answers =
  ia_class_hash :: "'h option option"
  ia_proof_root :: "'cp \<Rightarrow> 'h \<Rightarrow> (string, 'h \<times> int) outcome"
  ia_state_at :: "int \<Rightarrow> (driver_error, 'h option) outcome"
  ia_membership :: "(driver_error, 'h synchronizer_membership) outcome"
  ia_creation_proofs :: "(driver_error, 'h \<rightharpoonup> 'cp) outcome"

definition check_creation_proof ::
    "('h, 'cp) import_answers \<Rightarrow> 'cp \<Rightarrow> 'h \<Rightarrow> (driver_error, unit) outcome" where
  "check_creation_proof A proof commitment =
     obind (map_err InvalidInput (ia_proof_root A proof commitment)) (\<lambda>(state_root, block_number).
     obind (ia_state_at A block_number) (\<lambda>derived.
       if derived \<noteq> Some state_root then Err (InvalidInput ''creation proof's state root is not the synchronizer's'')
       else Ok ()))"

text \<open>The checks of an import, in order, up to the record that is filed; then the filing under the store lock, where the store may
  have changed.\<close>

definition import_checks ::
    "('h, 'o) obj_lib \<Rightarrow> ('h, 'cp) import_answers \<Rightarrow> ('h, 'o, 'cp) object_record option \<Rightarrow> string option
     \<Rightarrow> ('h, 'o, 'cp) driver_store \<Rightarrow> (driver_error, ('h, 'o, 'cp) object_record \<times> string) outcome" where
  "import_checks L A parsed requested s =
     obind (ok_or (InvalidInput ''could not parse .dobj contents'') parsed) (\<lambda>r.
     obind (ok_or (UnknownClass (qn_id (om_class (or_metadata r)))) (ia_class_hash A)) (\<lambda>class_hash.
     obind (ok_or (OtherError ''catalog class has an unreadable hash'') class_hash) (\<lambda>expected_class_hash.
     obind (ok_or (InvalidInput ''imported object has no readable 'type' field'') (obj_type_hash L (or_obj r))) (\<lambda>actual_class_hash.
     if actual_class_hash \<noteq> expected_class_hash then Err (InvalidInput ''class hash mismatch'')
     else let commitment = ol_commitment L (or_obj r)
          in if om_content_hash (or_metadata r) \<noteq> commitment then Err (InvalidInput ''content hash mismatch'')
             else obind (map_err InvalidInput (object_file_name L (om_class (or_metadata r)) (or_obj r))) (\<lambda>generated.
                  obind (import_file_name r generated requested s) (\<lambda>_.
                  obind (case om_creation_proof (or_metadata r) of
                           None \<Rightarrow> Ok ()
                         | Some proof \<Rightarrow> check_creation_proof A proof commitment) (\<lambda>_.
                  obind (map_err InvalidInput (object_nullifier_hash L (or_obj r))) (\<lambda>nullifier.
                  obind (ia_membership A) (\<lambda>membership.
                    if nullifier \<in> sm_nullifiers membership then Err (Conflict ''imported object has already been spent'')
                    else if commitment \<notin> sm_created membership then Err (InvalidInput ''imported object is not registered'')
                    else let proof = (case om_creation_proof (or_metadata r) of
                                        Some p \<Rightarrow> Some p
                                      | None \<Rightarrow> (case ia_creation_proofs A of Ok m \<Rightarrow> m commitment | _ \<Rightarrow> None))
                         in Ok (r\<lparr> or_metadata := (or_metadata r)\<lparr> om_status := FLive, om_creation_proof := proof \<rparr> \<rparr>,
                                generated))))))))))"

definition import_file ::
    "('h, 'o) obj_lib \<Rightarrow> ('h, 'o, 'cp) object_record \<Rightarrow> string \<Rightarrow> string option \<Rightarrow> ('h, 'o, 'cp) driver_store
     \<Rightarrow> (driver_error, string) outcome \<times> ('h, 'o, 'cp) driver_store" where
  "import_file L r generated requested s =
     (case import_file_name r generated requested s of
        Err e \<Rightarrow> (Err e, s)
      | Panic \<Rightarrow> (Panic, s)
      | Ok file_name \<Rightarrow>
          let s1 = (case key_fingerprint L (or_obj r) of
                      None \<Rightarrow> s
                    | Some f \<Rightarrow> s\<lparr> imported_keys := imported_keys s @ [f] \<rparr>)
          in (Ok file_name, write_object_file r file_name s1))"

end
