(* ===== verification/Driver_Exclusive.thy ===== *)
theory Driver_Exclusive
  imports Driver_Settle
begin

text \<open>
  Exclusive use of inputs: the driver's operations as steps of one machine, in any interleaving, and the invariant that no
  object file is an input of two proofs or open transactions at once; and what happens to the records of transactions
  on the way.
\<close>

section \<open>Records of a store\<close>

text \<open>Transaction directories are named by the transaction they hold.\<close>

definition txs_ok :: "('h, 'o, 'cp) driver_store \<Rightarrow> bool" where
  "txs_ok s \<longleftrightarrow> distinct (map fst (tx_dirs s)) \<and> (\<forall>h r. read_record s h = Some r \<longrightarrow> t_final r = h)"

definition open_at :: "('h, 'o, 'cp) driver_store \<Rightarrow> 'h \<Rightarrow> 'h transaction_record \<Rightarrow> bool" where
  "open_at s h r \<longleftrightarrow> read_record s h = Some r \<and> is_open r"

lemma read_record_Some: "read_record s h = Some r \<longleftrightarrow> (\<exists>d. map_of (tx_dirs s) h = Some d \<and> td_record d = Some r)"
  by (auto simp: read_record_def tx_dir_at_def empty_tx_dir_def split: option.splits)

lemma set_load_records:
  assumes "txs_ok s"
  shows "r \<in> set (load_records L s) \<longleftrightarrow> read_record s (t_final r) = Some r"
proof -
  have "r \<in> set (load_records L s) \<longleftrightarrow> (\<exists>h d. (h, d) \<in> set (tx_dirs s) \<and> td_record d = Some r)"
    by (auto simp: load_records_def List.map_filter_def image_iff) (metis case_prod_conv option.sel)+
  also have "\<dots> \<longleftrightarrow> (\<exists>h. read_record s h = Some r)"
    using assms by (auto simp: read_record_Some txs_ok_def)
  also have "\<dots> \<longleftrightarrow> read_record s (t_final r) = Some r"
    using assms by (auto simp: txs_ok_def)
  finally show ?thesis .
qed

lemma locked_inputs_iff:
  assumes "txs_ok s"
  shows "f \<in> locked_inputs (load_records L s) \<longleftrightarrow> (\<exists>h r. open_at s h r \<and> f \<in> set (t_input_files r))"
  using set_load_records [OF assms, where L = L] assms
  by (auto simp: locked_inputs_def open_at_def txs_ok_def)

lemma read_record_write [simp]:
  "read_record (write_record r s) h = (if h = t_final r then Some r else read_record s h)"
  by (auto simp: read_record_def write_record_def tx_dir_at_def)

lemma read_record_payload [simp]: "read_record (write_payload txf bytes s) h = read_record s h"
  by (auto simp: read_record_def write_payload_def tx_dir_at_def empty_tx_dir_def split: option.splits)

lemma read_record_remove [simp]:
  "read_record (remove_transaction txf s) h = (if h = txf then None else read_record s h)"
  by (auto simp: read_record_def remove_transaction_def tx_dir_at_def dir_remove_def empty_tx_dir_def map_of_filter_neq)

lemma read_record_dirs [simp]:
  "read_record (s\<lparr> live_dir := a \<rparr>) h = read_record s h"
  "read_record (s\<lparr> nullified_dir := a \<rparr>) h = read_record s h"
  "read_record (s\<lparr> discarded_dir := a \<rparr>) h = read_record s h"
  "read_record (s\<lparr> imported_keys := k \<rparr>) h = read_record s h"
  by (simp_all add: read_record_def tx_dir_at_def)

lemma txs_ok_write [simp]: "txs_ok s \<Longrightarrow> txs_ok (write_record r s)"
  by (auto simp: txs_ok_def split: if_splits) (simp add: write_record_def distinct_hm_insert)

lemma txs_ok_payload [simp]: "txs_ok s \<Longrightarrow> txs_ok (write_payload txf bytes s)"
  by (auto simp: txs_ok_def) (simp add: write_payload_def distinct_hm_insert)

lemma txs_ok_remove [simp]: "txs_ok s \<Longrightarrow> txs_ok (remove_transaction txf s)"
  by (auto simp: txs_ok_def split: if_splits) (simp add: remove_transaction_def dir_remove_def distinct_map_filter)

lemma txs_ok_dirs [simp]:
  "txs_ok (s\<lparr> live_dir := a \<rparr>) = txs_ok s" "txs_ok (s\<lparr> nullified_dir := a \<rparr>) = txs_ok s"
  "txs_ok (s\<lparr> discarded_dir := a \<rparr>) = txs_ok s" "txs_ok (s\<lparr> imported_keys := k \<rparr>) = txs_ok s"
  by (simp_all add: txs_ok_def)

text \<open>Operations on object files leave the transactions alone.\<close>

lemma tx_dirs_files [simp]:
  "tx_dirs (write_object_file r n s) = tx_dirs s"
  "tx_dirs (snd (nullify_object_file L r n s)) = tx_dirs s"
  by (simp_all add: write_object_file_def nullify_object_file_def Let_def)

lemma tx_dirs_rename: "rename_live_object_file a b s = Ok s' \<Longrightarrow> tx_dirs s' = tx_dirs s"
  by (auto simp: rename_live_object_file_def split: if_splits option.splits)

lemma tx_dirs_remove_unknown [simp]: "tx_dirs (snd (remove_unknown txf names s)) = tx_dirs s"
  by (induction txf names s rule: remove_unknown.induct) (auto split: prod.splits)

lemma tx_dirs_write_outputs: "write_outputs fails outs s = (ok, names, s') \<Longrightarrow> tx_dirs s' = tx_dirs s"
  by (induction fails outs s arbitrary: ok names s' rule: write_outputs.induct) (auto split: if_splits prod.splits)

lemma same_tx_dirs:
  assumes "tx_dirs s' = tx_dirs s"
  shows "read_record s' = read_record s" and "txs_ok s' \<longleftrightarrow> txs_ok s"
  using assms by (simp_all add: read_record_def tx_dir_at_def txs_ok_def fun_eq_iff)

section \<open>How records evolve\<close>

text \<open>A change of one record: it keeps its name and its inputs while open, is never reopened, and stays offered.\<close>

definition record_step :: "'h transaction_record \<Rightarrow> 'h transaction_record \<Rightarrow> bool" where
  "record_step r r' \<longleftrightarrow> t_final r' = t_final r \<and> (is_open r' \<longrightarrow> is_open r \<and> t_input_files r' = t_input_files r)
     \<and> (t_submit_attempted_at_ms r \<noteq> None \<longrightarrow> t_submit_attempted_at_ms r' \<noteq> None)"

text \<open>No record is lost; or at least no open one.\<close>

definition advances :: "('h, 'o, 'cp) driver_store \<Rightarrow> ('h, 'o, 'cp) driver_store \<Rightarrow> bool" where
  "advances s s' \<longleftrightarrow> txs_ok s' \<and> (\<forall>h. rel_option record_step (read_record s h) (read_record s' h))"

definition prunes :: "('h, 'o, 'cp) driver_store \<Rightarrow> ('h, 'o, 'cp) driver_store \<Rightarrow> bool" where
  "prunes s s' \<longleftrightarrow> txs_ok s' \<and> (\<forall>h r'. read_record s' h = Some r' \<longrightarrow> (\<exists>r. read_record s h = Some r \<and> record_step r r'))
     \<and> (\<forall>h r. open_at s h r \<longrightarrow> read_record s' h = Some r)"

text \<open>What every operation but recording does: open records were open before with the same inputs, and one offered to
  the relayer is not lost.\<close>

definition evolves :: "('h, 'o, 'cp) driver_store \<Rightarrow> ('h, 'o, 'cp) driver_store \<Rightarrow> bool" where
  "evolves s s' \<longleftrightarrow> txs_ok s'
     \<and> (\<forall>h r'. read_record s' h = Some r' \<longrightarrow> (\<exists>r. read_record s h = Some r \<and> record_step r r'))
     \<and> (\<forall>h r. open_at s h r \<longrightarrow> t_submit_attempted_at_ms r \<noteq> None \<longrightarrow> (\<exists>r'. read_record s' h = Some r' \<and> record_step r r'))"

lemma record_step_refl [simp]: "record_step r r"
  by (simp add: record_step_def)

lemma record_step_trans: "record_step a b \<Longrightarrow> record_step b c \<Longrightarrow> record_step a c"
  by (auto simp: record_step_def)

lemma advances_evolves: "advances s s' \<Longrightarrow> evolves s s'"
  unfolding advances_def evolves_def open_at_def by (metis option_rel_Some1 option_rel_Some2)

lemma prunes_evolves: "prunes s s' \<Longrightarrow> evolves s s'"
  unfolding prunes_def evolves_def by (metis record_step_refl)

lemma advances_refl: "txs_ok s \<Longrightarrow> advances s s"
  by (simp add: advances_def option.rel_refl)

lemma advances_same: "advances s t \<Longrightarrow> tx_dirs t' = tx_dirs t \<Longrightarrow> advances s t'"
  using same_tx_dirs [of t' t] by (simp add: advances_def)

lemma prunes_same: "prunes s t \<Longrightarrow> tx_dirs t' = tx_dirs t \<Longrightarrow> prunes s t'"
  using same_tx_dirs [of t' t] by (simp add: prunes_def)

lemma prunes_refl: "txs_ok s \<Longrightarrow> prunes s s"
  by (auto simp: prunes_def open_at_def)

lemma evolves_same: "txs_ok s \<Longrightarrow> tx_dirs s' = tx_dirs s \<Longrightarrow> evolves s s'"
  by (rule advances_evolves [OF advances_same [OF advances_refl]])

lemma advances_write:
  assumes "advances s t" and "read_record s (t_final r') = Some r" and "record_step r r'"
  shows "advances s (write_record r' t)"
  using assms by (auto simp: advances_def)

lemma evolves_write:
  assumes "txs_ok s" and "read_record s (t_final r') = Some r" and "record_step r r'"
  shows "evolves s (write_record r' s)"
  by (rule advances_evolves [OF advances_write [OF advances_refl [OF assms(1)] assms(2,3)]])

lemma prunes_write:
  assumes "prunes s t" and "read_record s (t_final r') = Some r" and "record_step r r'" and "\<not> is_open r"
  shows "prunes s (write_record r' t)"
  using assms by (auto simp: prunes_def open_at_def split: if_splits)

lemma prunes_remove:
  assumes "prunes s t" and "\<And>r. read_record s h = Some r \<Longrightarrow> \<not> is_open r"
  shows "prunes s (remove_transaction h t)"
  using assms by (auto simp: prunes_def open_at_def split: if_splits)

lemma evolves_remove:
  assumes "txs_ok s" and "\<And>r. read_record s txf = Some r \<Longrightarrow> is_open r \<Longrightarrow> t_submit_attempted_at_ms r = None"
  shows "evolves s (remove_transaction txf s)"
  using assms by (auto simp: evolves_def open_at_def split: if_splits)

section \<open>The operations\<close>

lemma delete_evolves:
  assumes "txs_ok s"
  shows "evolves s (snd (delete_transaction L txf s))"
proof (cases "\<exists>x. fst (delete_transaction L txf s) = Ok x")
  case False
  then have "snd (delete_transaction L txf s) = s"
    by (auto simp: delete_transaction_def split: option.splits if_splits prod.splits)
  then show ?thesis using evolves_same [OF assms] by simp
next
  case True
  then obtain r where r: "read_record s txf = Some r" "t_submit_attempted_at_ms r = None"
    "snd (delete_transaction L txf s) = remove_transaction txf (snd (remove_unknown_outputs r s))"
    by (auto simp: delete_transaction_def split: option.splits if_splits prod.splits)
  have same: "tx_dirs (snd (remove_unknown_outputs r s)) = tx_dirs s" by (simp add: remove_unknown_outputs_def)
  have "evolves s (remove_transaction txf s)" by (rule evolves_remove [OF assms]) (use r in simp)
  moreover have "tx_dirs (remove_transaction txf (snd (remove_unknown_outputs r s))) = tx_dirs (remove_transaction txf s)"
    using same by (simp add: remove_transaction_def)
  ultimately show ?thesis
    unfolding r(3) evolves_def using same_tx_dirs [of "remove_transaction txf (snd (remove_unknown_outputs r s))" "remove_transaction txf s"]
    by simp
qed

lemma update_record_evolves:
  assumes "txs_ok s" and "\<And>r r'. change r = Some r' \<Longrightarrow> record_step r r'"
  shows "evolves s (snd (update_record L txf change s))"
proof (cases "read_record s txf")
  case None
  then show ?thesis using evolves_same [OF assms(1)] by (simp add: update_record_def)
next
  case (Some r)
  then have t: "t_final r = txf" using assms(1) by (simp add: txs_ok_def)
  show ?thesis
  proof (cases "change r")
    case None
    then show ?thesis using Some evolves_same [OF assms(1)] by (simp add: update_record_def)
  next
    case (Some r')
    have "record_step r r'" using assms(2) Some .
    moreover from this have "read_record s (t_final r') = Some r" using t \<open>read_record s txf = Some r\<close> by (simp add: record_step_def)
    ultimately show ?thesis
      using evolves_write [OF assms(1)] \<open>read_record s txf = Some r\<close> Some by (simp add: update_record_def)
  qed
qed

lemma mark_attempted_step: "mark_attempted now r = Some r' \<Longrightarrow> record_step r r'"
  by (auto simp: mark_attempted_def record_step_def is_open_def split: if_splits option.splits)

lemma mark_submitted_step: "mark_submitted now job failed r = Some r' \<Longrightarrow> record_step r r'"
  by (auto simp: mark_submitted_def record_step_def is_open_def split: if_splits)

lemma annotate_job_fields:
  "t_final (annotate_job j r) = t_final r" "t_input_files (annotate_job j r) = t_input_files r"
  "t_state (annotate_job j r) = t_state r" "t_submit_attempted_at_ms (annotate_job j r) = t_submit_attempted_at_ms r"
  "t_grounding_block (annotate_job j r) = t_grounding_block r"
  by (auto simp: annotate_job_def Let_def split: option.splits)

lemma decide_record_fields:
  "t_final (decide_record now hb st r) = t_final r" "t_input_files (decide_record now hb st r) = t_input_files r"
  "t_submit_attempted_at_ms (decide_record now hb st r) = t_submit_attempted_at_ms r"
  by (auto simp: decide_record_def expire_def split: option.splits)

lemma settle_record_step: "record_step r (settle_record now Q jobs statuses hb r)"
  by (simp add: record_step_def settle_record_def decide_record_fields annotate_job_fields)

lemma tx_dirs_remove_unknown_outputs: "remove_unknown_outputs r s = (m, s') \<Longrightarrow> tx_dirs s' = tx_dirs s"
  unfolding remove_unknown_outputs_def by (metis snd_conv tx_dirs_remove_unknown)

lemma sfold_invariant:
  assumes "\<And>x a. x \<in> set xs \<Longrightarrow> I a \<Longrightarrow> I (snd (f x a))" and "I a"
  shows "I (snd (sfold f xs a))"
  using assms
proof (induction xs arbitrary: a)
  case (Cons x xs)
  have "I (snd (f x a))" using Cons.prems by simp
  then show ?case
    using Cons.IH [of "snd (f x a)"] Cons.prems(1) by (cases "f x a"; cases "fst (f x a)") auto
qed simp

lemma persist_input_txs: "tx_dirs (sa_store (snd (persist_input L r n acc))) = tx_dirs (sa_store acc)"
proof -
  have "tx_dirs s' = tx_dirs s" if "nullify_object_file L x n s = (m, s')" for x n m s and s' :: "('a, 'b, 'c) driver_store"
    using tx_dirs_files(2) [of L x n s] that by simp
  then show ?thesis
    by (auto simp: persist_input_def Let_def split: option.splits obj_file.splits outcome.splits prod.splits)
qed

lemma persist_output_txs: "tx_dirs (sa_store (snd (persist_output r n acc))) = tx_dirs (sa_store acc)"
  by (auto simp: persist_output_def Let_def split: option.splits obj_file.splits)

lemma finish_pending_name_txs:
  "tx_dirs (sa_store (snd (snd (finish_pending_name held locked txf pn st)))) = tx_dirs (sa_store (snd st))"
  by (auto simp: finish_pending_name_def Let_def dest: tx_dirs_rename split: option.splits obj_file.splits outcome.splits prod.splits)

lemma rename_outputs_fields:
  "t_final (rename_outputs fin r) = t_final r" "t_state (rename_outputs fin r) = t_state r"
  "t_submit_attempted_at_ms (rename_outputs fin r) = t_submit_attempted_at_ms r"
  by (induction fin r rule: rename_outputs.induct) auto

lemma rename_inputs_fields:
  "t_final (rename_inputs sp r) = t_final r" "t_state (rename_inputs sp r) = t_state r"
  "t_submit_attempted_at_ms (rename_inputs sp r) = t_submit_attempted_at_ms r"
  unfolding rename_inputs_def by (induction sp arbitrary: r) (auto split: prod.splits)

lemma finish_pending_names_txs:
  assumes "finish_pending_names held locked r acc = (res, acc')"
  shows "tx_dirs (sa_store acc') = tx_dirs (sa_store acc)"
    and "res = Ok r' \<Longrightarrow> t_final r' = t_final r \<and> t_state r' = t_state r \<and> t_submit_attempted_at_ms r' = t_submit_attempted_at_ms r"
proof -
  have "tx_dirs (sa_store (snd (snd (sfold (finish_pending_name held locked (t_final r)) (t_pending_names r) ([], acc)))))
      = tx_dirs (sa_store acc)"
    by (rule sfold_invariant [where I = "\<lambda>st. tx_dirs (sa_store (snd st)) = tx_dirs (sa_store acc)"])
      (simp_all add: finish_pending_name_txs)
  then show "tx_dirs (sa_store acc') = tx_dirs (sa_store acc)"
    using assms by (auto simp: finish_pending_names_def split: if_splits prod.splits outcome.splits)
  show "res = Ok r' \<Longrightarrow> t_final r' = t_final r \<and> t_state r' = t_state r \<and> t_submit_attempted_at_ms r' = t_submit_attempted_at_ms r"
    using assms by (auto simp: finish_pending_names_def rename_outputs_fields split: if_splits prod.splits outcome.splits)
qed

text \<open>Persisting objects does not touch the transactions, and keeps what matters of the record.\<close>

lemma persist_settled_txs:
  assumes "persist_settled_objects L held locked r acc = (res, r', acc')"
  shows "tx_dirs (sa_store acc') = tx_dirs (sa_store acc)"
    and "t_final r' = t_final r \<and> t_state r' = t_state r \<and> t_submit_attempted_at_ms r' = t_submit_attempted_at_ms r"
proof -
  let ?acc = "acc\<lparr> sa_spent := [] \<rparr>"
  let ?io = "sbind (sfold (persist_input L r) (t_input_files r) ?acc) (\<lambda>_. sfold (persist_output r) (t_output_files r))"
  have i: "tx_dirs (sa_store (snd (sfold (persist_input L r) (t_input_files r) ?acc))) = tx_dirs (sa_store acc)"
    by (rule sfold_invariant [where I = "\<lambda>a. tx_dirs (sa_store a) = tx_dirs (sa_store acc)"]) (simp_all add: persist_input_txs)
  have "tx_dirs (sa_store (snd (sfold (persist_output r) (t_output_files r) a))) = tx_dirs (sa_store a)" for a :: "('a, 'b, 'c) settle_acc"
    by (rule sfold_invariant [where I = "\<lambda>b. tx_dirs (sa_store b) = tx_dirs (sa_store a)"]) (simp_all add: persist_output_txs)
  then have io: "tx_dirs (sa_store (snd ?io)) = tx_dirs (sa_store acc)"
    using i by (cases "sfold (persist_input L r) (t_input_files r) ?acc"; cases "fst (sfold (persist_input L r) (t_input_files r) ?acc)") auto
  show "tx_dirs (sa_store acc') = tx_dirs (sa_store acc)"
  proof (cases "t_state r = TExpired")
    case True
    then show ?thesis
      using assms by (auto simp: persist_settled_objects_def Let_def dest: tx_dirs_remove_unknown_outputs split: if_splits prod.splits)
  next
    case False
    obtain x acc1 where x: "?io = (x, acc1)" by (metis surj_pair)
    then have "tx_dirs (sa_store acc1) = tx_dirs (sa_store acc)" using io by simp
    then show ?thesis
      using assms False x finish_pending_names_txs(1) [of held locked "rename_inputs (sa_spent acc1) r" acc1]
      by (cases x) (auto simp: persist_settled_objects_def Let_def split: prod.splits outcome.splits)
  qed
  show "t_final r' = t_final r \<and> t_state r' = t_state r \<and> t_submit_attempted_at_ms r' = t_submit_attempted_at_ms r"
  proof (cases "t_state r = TExpired")
    case True
    then show ?thesis using assms by (auto simp: persist_settled_objects_def Let_def split: if_splits prod.splits)
  next
    case False
    obtain x acc1 where x: "?io = (x, acc1)" by (metis surj_pair)
    obtain y acc2 where y: "finish_pending_names held locked (rename_inputs (sa_spent acc1) r) acc1 = (y, acc2)" by (metis surj_pair)
    show ?thesis
    proof (cases x)
      case (Ok u)
      then have "(res, r', acc') = (case y of Ok r2 \<Rightarrow> (Ok (), r2, acc2)
          | Err e \<Rightarrow> (Err e, rename_inputs (sa_spent acc1) r, acc2) | Panic \<Rightarrow> (Panic, rename_inputs (sa_spent acc1) r, acc2))"
        using assms False x y unfolding persist_settled_objects_def Let_def by simp
      then show ?thesis using finish_pending_names_txs(2) [OF y, of r'] by (cases y) (simp_all add: rename_inputs_fields)
    qed (use assms False x in \<open>simp_all add: persist_settled_objects_def\<close>)
  qed
qed

lemma persist_settled_step:
  assumes "persist_settled_objects L held locked r acc = (res, r', acc')" and "tx_terminal (t_state r)"
  shows "record_step r r'"
  using persist_settled_txs(2) [OF assms(1)] assms(2) by (simp add: record_step_def is_open_def)

lemma persist_changed_advances:
  assumes "advances s (sa_store acc)" and "persist_changed L held locked rs acc = (rs', acc')"
    and "\<And>r. r \<in> set rs \<Longrightarrow> \<exists>r0. read_record s (t_final r) = Some r0 \<and> record_step r0 r"
  shows "advances s (sa_store acc')"
  using assms
proof (induction L held locked rs acc arbitrary: rs' acc' rule: persist_changed.induct)
  case (2 L held locked r rs acc)
  show ?case
  proof (cases "tx_terminal (t_state r)")
    case False
    then show ?thesis using "2.IH"(1) "2.prems" by (auto split: prod.splits)
  next
    case True
    obtain res r1 acc1 where p: "persist_settled_objects L held locked r acc = (res, r1, acc1)" by (metis prod_cases3)
    have a1: "advances s (sa_store acc1)" using advances_same [OF "2.prems"(1) persist_settled_txs(1) [OF p]] .
    obtain r0 where r0: "read_record s (t_final r) = Some r0" "record_step r0 r" using "2.prems"(3) by auto
    have step: "record_step r0 r1" using record_step_trans [OF r0(2) persist_settled_step [OF p True]] .
    have fin: "t_final r1 = t_final r" using persist_settled_txs(2) [OF p] by simp
    let ?acc1 = "if res = Ok () \<and> r1 \<noteq> r then acc1\<lparr> sa_store := write_record r1 (sa_store acc1) \<rparr> else acc1"
    have a2: "advances s (sa_store (?acc1\<lparr> sa_changed := t_output_files r1 @ t_input_files r1 @ sa_changed ?acc1 \<rparr>))"
      using a1 advances_write [OF a1 _ step] r0(1) fin by simp
    obtain rs1 acc3 where q: "persist_changed L held locked rs
        (?acc1\<lparr> sa_changed := t_output_files r1 @ t_input_files r1 @ sa_changed ?acc1 \<rparr>) = (rs1, acc3)" by (metis surj_pair)
    have "acc' = acc3" using "2.prems"(2) True p q by (simp add: Let_def split: if_splits)
    moreover have "advances s (sa_store acc3)"
      by (rule "2.IH"(2) [OF _ p [symmetric] refl refl refl a2 q]) (use True "2.prems"(3) in auto)
    ultimately show ?thesis by simp
  qed
qed simp

lemma update_entry_txs: "tx_dirs (sa_store (snd (update_entry L V records e acc))) = tx_dirs (sa_store acc)"
proof -
  have "tx_dirs s' = tx_dirs s" if "nullify_object_file L x n s = (m, s')" for x n m s and s' :: "('a, 'b, 'c) driver_store"
    using tx_dirs_files(2) [of L x n s] that by simp
  then show ?thesis by (auto simp: update_entry_def Let_def split: prod.splits)
qed

lemma update_entries_txs: "update_entries L V records es acc = (es', acc') \<Longrightarrow> tx_dirs (sa_store acc') = tx_dirs (sa_store acc)"
proof (induction L V records es acc arbitrary: es' acc' rule: update_entries.induct)
  case (2 L V records e es acc)
  obtain e1 acc1 where e: "update_entry L V records e acc = (e1, acc1)" by (metis surj_pair)
  obtain es1 acc2 where es: "update_entries L V records es acc1 = (es1, acc2)" by (metis surj_pair)
  have "tx_dirs (sa_store acc1) = tx_dirs (sa_store acc)" using update_entry_txs [of L V records e acc] e by simp
  moreover have "acc' = acc2" using "2.prems" e es by simp
  ultimately show ?case using "2.IH" [OF e [symmetric] es] by simp
qed simp

lemma fold_write_advances:
  assumes "advances s t" and "\<And>r. r \<in> set rs \<Longrightarrow> \<exists>r0. read_record s (t_final r) = Some r0 \<and> record_step r0 r"
  shows "advances s (fold write_record rs t)"
  using assms
proof (induction rs arbitrary: t)
  case (Cons r rs)
  obtain r0 where "read_record s (t_final r) = Some r0" "record_step r0 r" using Cons.prems(2) by auto
  then have "advances s (write_record r t)" by (rule advances_write [OF Cons.prems(1)])
  then show ?case using Cons by simp
qed simp

lemma settle_apply_advances:
  assumes "txs_ok s"
  shows "advances s (snd (settle_apply L all V now held s))"
proof -
  define before where "before = load_records L s"
  define f where "f = settle_record now (sv_queried V) (sv_jobs V) (sv_statuses V) (sv_head_block V)"
  define changed where "changed = map snd (filter (\<lambda>(b, r). b \<noteq> r) (zip before (map f before)))"
  have steps: "\<exists>r0. read_record s (t_final r) = Some r0 \<and> record_step r0 r" if mem: "r \<in> set changed" for r
  proof -
    obtain r0 where "r0 \<in> set before" "r = f r0" using mem by (auto simp: changed_def set_zip) (metis nth_mem)
    then show ?thesis
      using set_load_records [OF assms, of r0 L] settle_record_step [of r0] unfolding before_def f_def
      by (metis record_step_def)
  qed
  have a1: "advances s (fold write_record changed s)"
    by (rule fold_write_advances [OF advances_refl [OF assms] steps])
  obtain rs' acc where p: "persist_changed L held (locked_inputs (map f before)) changed
      \<lparr> sa_store = fold write_record changed s, sa_changed = [], sa_removed = [], sa_spent = [] \<rparr> = (rs', acc)"
    by (metis surj_pair)
  have a2: "advances s (sa_store acc)"
    by (rule persist_changed_advances [OF _ p steps]) (simp_all add: a1)
  have a3: "advances s (sa_store acc')" if "update_entries L V (map f before) es acc = (es', acc')" for es es' acc'
    using advances_same [OF a2 update_entries_txs [OF that]] .
  show ?thesis
    using p a2 a3
    by (auto simp: settle_apply_def Let_def before_def [symmetric] f_def [symmetric] changed_def [symmetric]
        split: outcome.splits prod.splits)
qed

lemma prune_record_prunes:
  assumes "prunes s (sa_store (pa_acc acc))" and "read_record s (t_final r0) = Some r0" and "tx_terminal (t_state r0)"
  shows "prunes s (sa_store (pa_acc (prune_record L held locked now r0 acc)))"
proof -
  obtain res r sacc where p: "persist_settled_objects L held locked r0 (pa_acc acc) = (res, r, sacc)" by (metis prod_cases3)
  have a: "prunes s (sa_store sacc)" by (rule prunes_same [OF assms(1) persist_settled_txs(1) [OF p]])
  have r: "t_final r = t_final r0" using persist_settled_txs(2) [OF p] by simp
  have closed: "\<not> is_open r0" using assms(3) by (simp add: is_open_def)
  have b: "prunes s (write_record r (sa_store sacc))"
    by (rule prunes_write [OF a _ persist_settled_step [OF p assms(3)] closed]) (simp add: r assms(2))
  let ?sacc = "if r \<noteq> r0 then sacc\<lparr> sa_store := write_record r (sa_store sacc) \<rparr> else sacc"
  have c: "prunes s (sa_store ?sacc)" using a b by simp
  have d: "prunes s (remove_transaction (t_final r) (sa_store ?sacc))"
    by (rule prunes_remove [OF c]) (use r assms(2) closed in simp)
  show ?thesis
    using p a c d assms(1) by (cases res) (simp_all add: prune_record_def Let_def)
qed

lemma prune_listed_prunes:
  assumes "txs_ok s" and "set records \<subseteq> set (load_records L s)"
  shows "prunes s (sa_store (pa_acc (prune_listed L held now reconciled records s)))"
proof -
  have "prunes s (sa_store (pa_acc (fold (prune_record L held locked now) rs acc)))"
    if "prunes s (sa_store (pa_acc acc))" "\<forall>r \<in> set rs. read_record s (t_final r) = Some r \<and> tx_terminal (t_state r)" for rs acc locked
    using that by (induction rs arbitrary: acc) (simp_all add: prune_record_prunes)
  then show ?thesis
    using set_load_records [OF assms(1), where L = L] assms(2) prunes_refl [OF assms(1)] by (simp add: prune_listed_def Let_def subset_iff)
qed

lemma prune_prunes: "txs_ok s \<Longrightarrow> prunes s (sa_store (pa_acc (prune_transactions L held now reconciled s)))"
  by (simp add: prune_transactions_def prune_listed_prunes)

lemma roll_back_records: "read_record (roll_back names txf s) h = (if h = txf then None else read_record s h)"
  by (simp add: roll_back_def)

lemma record_checks_Ok:
  assumes "record_checks L p s = Ok (outs, entries)"
  shows "read_record s (pt_final p) = None" and "set (pt_input_files p) \<inter> locked_inputs (load_records L s) = {}"
proof -
  show "read_record s (pt_final p) = None" using assms by (auto simp: record_checks_def split: if_splits)
  have "\<forall>f \<in> set (pt_input_files p). \<exists>u. check_recorded_input (locked_inputs (load_records L s)) entries f = Ok u"
    using assms by (auto simp: record_checks_def dest: omap_Ok_all split: if_splits)
  then show "set (pt_input_files p) \<inter> locked_inputs (load_records L s) = {}"
    by (auto simp: check_recorded_input_def split: if_splits)
qed

lemma pass_names_record:
  "t_final ((recorded a b c fs outs d e f g now)\<lparr> t_pending_names := pn \<rparr>) = a"
  "t_input_files ((recorded a b c fs outs d e f g now)\<lparr> t_pending_names := pn \<rparr>) = fs"
  "is_open ((recorded a b c fs outs d e f g now)\<lparr> t_pending_names := pn \<rparr>)"
  by (simp_all add: recorded_def is_open_def)

text \<open>Recording adds one open record over inputs that no open record has, or leaves the records as they are.\<close>

lemma record_proved_records:
  assumes "txs_ok s" and "record_proved fails L now p s = (res, s')"
  shows "txs_ok s' \<and> ((\<forall>h. read_record s' h = read_record s h)
    \<or> (\<exists>r. t_final r = pt_final p \<and> t_input_files r = pt_input_files p \<and> read_record s (pt_final p) = None
         \<and> set (pt_input_files p) \<inter> locked_inputs (load_records L s) = {}
         \<and> (\<forall>h. read_record s' h = (if h = pt_final p then Some r else read_record s h))))"
proof (cases "record_checks L p s")
  case (Ok x)
  obtain outs entries where x: "x = (outs, entries)" by (cases x)
  note c = record_checks_Ok [OF Ok [unfolded x]]
  obtain outs' pend where pn: "pass_names L s entries p outs = (outs', pend)" by (metis surj_pair)
  let ?r = "(recorded (pt_final p) (pt_action p) (pt_owner p) (pt_input_files p) outs' (pt_grounding_root p)
                    (pt_grounding_block p) (pt_nullifiers p) (pt_created p) now)\<lparr> t_pending_names := pend \<rparr>"
  have w: "write_transaction fails L p ?r s = (res, s')" using assms(2) Ok x pn by (simp add: record_proved_def)
  obtain ok names s1 where o: "write_outputs fails (zip (map (output_record L (pt_final p)) (pt_outputs p)) (t_output_files ?r)) s = (ok, names, s1)"
    by (metis prod_cases3)
  note t = same_tx_dirs [OF tx_dirs_write_outputs [OF o]]
  have "txs_ok s'" using w o t assms(1) by (auto simp: write_transaction_def roll_back_def Let_def split: if_splits)
  moreover have "(\<forall>h. read_record s' h = read_record s h) \<or> (\<forall>h. read_record s' h = (if h = pt_final p then Some ?r else read_record s h))"
    using w o t c(1) by (auto simp: write_transaction_def roll_back_records Let_def pass_names_record split: if_splits)
  ultimately show ?thesis using c pass_names_record by metis
qed (use assms in \<open>auto simp: record_proved_def\<close>)

section \<open>The driver's machine\<close>

text \<open>The store, the table of held inputs, and the proofs in flight with their inputs; a proof is marked when it was
  recorded and its holds are yet to be dropped.\<close>

record ('h, 'o, 'cp) driver_state =
  ds_store :: "('h, 'o, 'cp) driver_store"
  ds_holds :: hold_table
  ds_proofs :: "(string list \<times> bool) list"
  ds_reconciled :: "('h \<times> 'h transaction_record) list"

inductive driver_step ::
    "('h, 'o) obj_lib \<Rightarrow> (qualified_name \<Rightarrow> 'h action_summary option) \<Rightarrow> ('h, 'o, 'cp) driver_state
     \<Rightarrow> ('h, 'o, 'cp) driver_state \<Rightarrow> bool" for L catalog where
  begin_proof: "prove_begin L catalog input owner (ds_store d) (ds_holds d) = Ok (action, resolved, owners) \<Longrightarrow>
    driver_step L catalog d (d\<lparr> ds_holds := owners, ds_proofs := ds_proofs d @ [(map fst resolved, False)] \<rparr>)"
| drop_proof: "i < length (ds_proofs d) \<Longrightarrow>
    driver_step L catalog d (d\<lparr> ds_holds := holds_drop (fst (ds_proofs d ! i)) (ds_holds d),
      ds_proofs := take i (ds_proofs d) @ drop (Suc i) (ds_proofs d) \<rparr>)"
| record_proof: "i < length (ds_proofs d) \<Longrightarrow> ds_proofs d ! i = (pt_input_files p, False) \<Longrightarrow>
    record_proved fails L now p (ds_store d) = (res, s') \<Longrightarrow>
    driver_step L catalog d (d\<lparr> ds_store := s', ds_proofs := (ds_proofs d)[i := (pt_input_files p, True)] \<rparr>)"
| delete: "driver_step L catalog d (d\<lparr> ds_store := snd (delete_transaction L txf (ds_store d)) \<rparr>)"
| attempt: "driver_step L catalog d (d\<lparr> ds_store := snd (submit_attempt L now txf (ds_store d)) \<rparr>)"
| accept_job: "driver_step L catalog d (d\<lparr> ds_store := snd (submit_accept L now job failed txf (ds_store d)) \<rparr>)"
| settle: "driver_step L catalog d (d\<lparr> ds_store := snd (settle_apply L all V now (ds_holds d) (ds_store d)) \<rparr>)"
| prune: "driver_step L catalog d (d\<lparr>
      ds_store := sa_store (pa_acc (prune_transactions L (ds_holds d) now (ds_reconciled d) (ds_store d))),
      ds_reconciled := pa_reconciled (prune_transactions L (ds_holds d) now (ds_reconciled d) (ds_store d)) \<rparr>)"
| rename_file: "driver_step L catalog d (d\<lparr> ds_store := snd (rename_object L (ds_holds d) path name (ds_store d)) \<rparr>)"
| discard: "driver_step L catalog d (d\<lparr> ds_store := snd (discard_object_unsafe path (ds_store d)) \<rparr>)"
| import_obj: "driver_step L catalog d (d\<lparr> ds_store := snd (import_file L r generated requested (ds_store d)) \<rparr>)"

definition driver_start :: "('h, 'o, 'cp) driver_state" where
  "driver_start = \<lparr> ds_store = \<lparr> live_dir = [], nullified_dir = [], discarded_dir = [], tx_dirs = [], imported_keys = [] \<rparr>,
     ds_holds = [], ds_proofs = [], ds_reconciled = [] \<rparr>"

inductive driver_reach ::
    "('h, 'o) obj_lib \<Rightarrow> (qualified_name \<Rightarrow> 'h action_summary option) \<Rightarrow> ('h, 'o, 'cp) driver_state \<Rightarrow> bool"
  for L catalog where
  start: "driver_reach L catalog driver_start"
| step: "driver_reach L catalog d \<Longrightarrow> driver_step L catalog d d' \<Longrightarrow> driver_reach L catalog d'"

section \<open>The invariant\<close>

definition proof_files :: "(string list \<times> bool) list \<Rightarrow> string list" where
  "proof_files ps = concat (map fst ps)"

definition exclusive_on :: "('h, 'o, 'cp) driver_store \<Rightarrow> hold_table \<Rightarrow> (string list \<times> bool) list \<Rightarrow> bool" where
  "exclusive_on s held ps \<longleftrightarrow> txs_ok s \<and> fst ` set held = set (proof_files ps) \<and> distinct (proof_files ps)
     \<and> (\<forall>h r h' r'. open_at s h r \<longrightarrow> open_at s h' r' \<longrightarrow> h \<noteq> h' \<longrightarrow> set (t_input_files r) \<inter> set (t_input_files r') = {})
     \<and> (\<forall>fs h r. (fs, False) \<in> set ps \<longrightarrow> open_at s h r \<longrightarrow> set fs \<inter> set (t_input_files r) = {})"

abbreviation exclusive :: "('h, 'o, 'cp) driver_state \<Rightarrow> bool" where
  "exclusive d \<equiv> exclusive_on (ds_store d) (ds_holds d) (ds_proofs d)"

lemma evolves_open: "evolves s s' \<Longrightarrow> open_at s' h r' \<Longrightarrow> \<exists>r. open_at s h r \<and> t_input_files r = t_input_files r'"
  unfolding evolves_def open_at_def record_step_def by metis

text \<open>Every step but those of proofs only evolves the records.\<close>

lemma exclusive_evolves:
  assumes "exclusive_on s held ps" and "evolves s s'"
  shows "exclusive_on s' held ps"
  using assms(1) evolves_open [OF assms(2)] assms(2) unfolding exclusive_on_def evolves_def by metis

lemma check_duplicates_Ok:
  "check_duplicates seen raws = Ok u \<Longrightarrow>
    \<exists>names. map extract_basename raws = map Some names \<and> distinct names \<and> set names \<inter> seen = {}"
proof (induction seen raws rule: check_duplicates.induct)
  case (2 seen raw rest)
  then obtain n names where n: "extract_basename raw = Some n" "n \<notin> seen"
    "map extract_basename rest = map Some names" "distinct names" "set names \<inter> insert n seen = {}"
    by (fastforce simp: basename_or_err_def ok_or_def split: if_splits option.splits)
  then show ?case by (intro exI [of _ "n # names"]) auto
qed simp

lemma resolve_input_name: "resolve_input L entries (raw, req) = Ok e \<Longrightarrow> extract_basename raw = Some (fst e)"
  by (auto simp: resolve_input_def basename_or_err_def ok_or_def dest: find_Some_in split: if_splits option.splits)

lemma resolved_distinct:
  assumes "validate_execute_request input action = Ok u" and "resolve_inputs L entries input action = Ok resolved"
  shows "distinct (map fst resolved)"
proof -
  have len: "length (ei_objects input) = length (act_inputs action)" and "check_duplicates {} (ei_objects input) = Ok u"
    using assms(1) by (auto simp: validate_execute_request_def split: if_splits)
  then obtain names where n: "map extract_basename (ei_objects input) = map Some names" "distinct names"
    using check_duplicates_Ok by blast
  have "list_all2 (\<lambda>x e. extract_basename (fst x) = Some (fst e)) (zip (ei_objects input) (act_inputs action)) resolved"
    using assms(2) unfolding resolve_inputs_def omap_Ok_iff
    by (rule list_all2_mono) (metis resolve_input_name prod.collapse)
  then have "map (\<lambda>x. extract_basename (fst x)) (zip (ei_objects input) (act_inputs action)) = map (\<lambda>e. Some (fst e)) resolved"
    by (induction rule: list_all2_induct) simp_all
  moreover have "map (\<lambda>x. extract_basename (fst x)) (zip (ei_objects input) (act_inputs action))
      = map extract_basename (map fst (zip (ei_objects input) (act_inputs action)))" by simp
  moreover have "map fst (zip (ei_objects input) (act_inputs action)) = ei_objects input" by (rule map_fst_zip [OF len])
  ultimately have "map Some (map fst resolved) = map Some names" using n(1) by (simp add: comp_def)
  then have "map fst resolved = names" by (rule map_injective) simp
  then show ?thesis using n(2) by simp
qed

lemma holds_take_Ok:
  assumes "holds_take files label locked owners = Ok owners'"
  shows "set files \<inter> fst ` set owners = {}" and "set files \<inter> locked = {}"
    and "fst ` set owners' = fst ` set owners \<union> set files"
proof -
  have "List.find (\<lambda>file. map_of owners file \<noteq> None \<or> file \<in> locked) files = None"
    using assms by (auto simp: holds_take_def split: option.splits)
  then have free: "\<forall>f \<in> set files. map_of owners f = None \<and> f \<notin> locked" unfolding find_None_iff_notin by blast
  then show "set files \<inter> fst ` set owners = {}" "set files \<inter> locked = {}"
    by (auto simp: map_of_eq_None_iff)
  have "owners' = fold (\<lambda>file. hm_insert file label) files owners"
    using assms by (auto simp: holds_take_def split: option.splits)
  moreover have "fst ` set (fold (\<lambda>file. hm_insert file label) files os) = fst ` set os \<union> set files" for os
    by (induction files arbitrary: os) auto
  ultimately show "fst ` set owners' = fst ` set owners \<union> set files" by simp
qed

lemma exclusive_begin:
  assumes "exclusive_on s held ps" and "prove_begin L catalog input owner s held = Ok (action, resolved, owners)"
  shows "exclusive_on s owners (ps @ [(map fst resolved, False)])"
proof -
  obtain entries u where v: "validate_execute_request input action = Ok u" "resolve_inputs L entries input action = Ok resolved"
    "holds_take (map fst resolved) owner (locked_inputs (load_records L s)) held = Ok owners"
    using assms(2) by (auto simp: prove_begin_def)
  note t = holds_take_Ok [OF v(3)]
  have ok: "txs_ok s" using assms(1) by (simp add: exclusive_on_def)
  have "set (map fst resolved) \<inter> set (t_input_files r) = {}" if "open_at s h r" for h r
    using t(2) locked_inputs_iff [OF ok, of _ L] that by blast
  then show ?thesis
    using assms(1) t(1,3) resolved_distinct [OF v(1,2)] unfolding exclusive_on_def proof_files_def by auto
qed

lemma exclusive_drop:
  assumes "exclusive_on s held ps" and "i < length ps"
  shows "exclusive_on s (holds_drop (fst (ps ! i)) held) (take i ps @ drop (Suc i) ps)"
proof -
  have split: "ps = take i ps @ ps ! i # drop (Suc i) ps" using assms(2) by (rule id_take_nth_drop)
  have files: "proof_files ps = proof_files (take i ps) @ fst (ps ! i) @ proof_files (drop (Suc i) ps)"
    by (subst split) (simp add: proof_files_def)
  have rest: "proof_files (take i ps @ drop (Suc i) ps) = proof_files (take i ps) @ proof_files (drop (Suc i) ps)"
    by (simp add: proof_files_def)
  have d: "distinct (proof_files ps)" "fst ` set held = set (proof_files ps)" using assms(1) by (auto simp: exclusive_on_def)
  have "fst ` set (holds_drop (fst (ps ! i)) held) = fst ` set held - set (fst (ps ! i))"
    by (auto simp: holds_drop_def)
  also have "\<dots> = set (proof_files (take i ps @ drop (Suc i) ps))"
    using d unfolding files rest by auto
  finally have h: "fst ` set (holds_drop (fst (ps ! i)) held) = set (proof_files (take i ps @ drop (Suc i) ps))" .
  have "distinct (proof_files (take i ps @ drop (Suc i) ps))" using d(1) unfolding files rest by auto
  moreover have "x \<in> set ps" if "x \<in> set (take i ps @ drop (Suc i) ps)" for x
    using that by (auto dest: in_set_takeD in_set_dropD)
  ultimately show ?thesis using assms(1) h unfolding exclusive_on_def by meson
qed

lemma concat_nth_disjoint:
  "distinct (concat xss) \<Longrightarrow> i < length xss \<Longrightarrow> j < length xss \<Longrightarrow> i \<noteq> j \<Longrightarrow> set (xss ! i) \<inter> set (xss ! j) = {}"
proof (induction xss arbitrary: i j)
  case (Cons xs xss)
  then show ?case by (cases i; cases j) (simp_all, (blast dest: nth_mem)+)
qed simp

lemma exclusive_record:
  assumes "exclusive_on s held ps" and "i < length ps" and "ps ! i = (pt_input_files p, False)"
    and "record_proved fails L now p s = (res, s')"
  shows "exclusive_on s' held (ps[i := (pt_input_files p, True)])"
proof -
  let ?ps = "ps[i := (pt_input_files p, True)]"
  have files: "proof_files ?ps = proof_files ps"
    unfolding proof_files_def map_update using assms(2,3) by (metis fst_conv length_map list_update_id nth_map)
  have ok: "txs_ok s" and d: "distinct (proof_files ps)" using assms(1) by (simp_all add: exclusive_on_def)
  have sub: "(fs, False) \<in> set ps" if "(fs, False) \<in> set ?ps" for fs
    using that set_update_subset_insert [of ps i "(pt_input_files p, True)"] by auto
  have apart: "set fs \<inter> set (pt_input_files p) = {}" if "(fs, False) \<in> set ?ps" for fs
  proof -
    obtain j where j: "j < length ps" "?ps ! j = (fs, False)" using \<open>(fs, False) \<in> set ?ps\<close> by (auto simp: in_set_conv_nth)
    then have ne: "j \<noteq> i" using assms(2) by auto
    then have "ps ! j = (fs, False)" using j by simp
    then show ?thesis using concat_nth_disjoint [of "map fst ps" j i] d ne j(1) assms(2,3) by (simp add: proof_files_def)
  qed
  consider (same) "\<And>h. read_record s' h = read_record s h"
    | (new) r where "t_input_files r = pt_input_files p" "set (pt_input_files p) \<inter> locked_inputs (load_records L s) = {}"
      "\<And>h. read_record s' h = (if h = pt_final p then Some r else read_record s h)"
    using record_proved_records [OF ok assms(4)] by metis
  then show ?thesis
  proof cases
    case same
    then have "open_at s' = open_at s" by (simp add: open_at_def fun_eq_iff)
    then show ?thesis using assms(1) files sub record_proved_records [OF ok assms(4)] unfolding exclusive_on_def by metis
  next
    case new
    have o: "h = pt_final p \<and> t_input_files r' = pt_input_files p \<or> h \<noteq> pt_final p \<and> open_at s h r'" if "open_at s' h r'" for h r'
      using that new(1,3) by (auto simp: open_at_def split: if_splits)
    have clear: "set (pt_input_files p) \<inter> set (t_input_files r') = {}" if "open_at s h r'" for h r'
      using new(2) locked_inputs_iff [OF ok, of _ L] that by blast
    have pairs: "set (t_input_files r1) \<inter> set (t_input_files r2) = {}"
      if "open_at s' h1 r1" "open_at s' h2 r2" "h1 \<noteq> h2" for h1 r1 h2 r2
      using o [OF that(1)] o [OF that(2)] that(3) clear assms(1) unfolding exclusive_on_def by (metis inf_commute)
    have "set fs \<inter> set (t_input_files r1) = {}" if "(fs, False) \<in> set ?ps" "open_at s' h1 r1" for fs h1 r1
      using o [OF that(2)] apart [OF that(1)] sub [OF that(1)] assms(1) unfolding exclusive_on_def by metis
    then show ?thesis
      using pairs assms(1) files record_proved_records [OF ok assms(4)] unfolding exclusive_on_def by metis
  qed
qed


lemma tx_dirs_ops:
  "tx_dirs (snd (rename_object L held path name s)) = tx_dirs s"
  "tx_dirs (snd (discard_object_unsafe path s)) = tx_dirs s"
  "tx_dirs (snd (import_file L r generated requested s)) = tx_dirs s"
  by (auto simp: rename_object_def discard_object_unsafe_def import_file_def Let_def dest: tx_dirs_rename
      split: outcome.splits option.splits if_splits prod.splits)

text \<open>Every step either evolves the records or is one of a proof.\<close>

lemma step_evolves:
  assumes "driver_step L catalog d d'" and "txs_ok (ds_store d)"
  shows "evolves (ds_store d) (ds_store d')
    \<or> (\<exists>fails now p res. record_proved fails L now p (ds_store d) = (res, ds_store d'))"
  using assms
proof cases
  case (settle all V now)
  then show ?thesis using advances_evolves [OF settle_apply_advances [OF assms(2)]] by simp
next
  case (prune now)
  then show ?thesis using prunes_evolves [OF prune_prunes [OF assms(2)]] by simp
next
  case (attempt now txf)
  then show ?thesis using update_record_evolves [OF assms(2) mark_attempted_step] by (simp add: submit_attempt_def)
next
  case (accept_job now job failed txf)
  then show ?thesis using update_record_evolves [OF assms(2) mark_submitted_step] by (simp add: submit_accept_def)
next
  case (record_proof i p fails now res s')
  then show ?thesis by auto
qed (use assms(2) in \<open>simp_all add: delete_evolves evolves_same tx_dirs_ops\<close>)

lemma step_exclusive:
  assumes "driver_step L catalog d d'" and "exclusive d"
  shows "exclusive d'"
proof -
  have ok: "txs_ok (ds_store d)" using assms(2) by (simp add: exclusive_on_def)
  show ?thesis
    using assms(1)
  proof cases
    case (begin_proof input owner action resolved owners)
    then show ?thesis using exclusive_begin [OF assms(2)] by simp
  next
    case (drop_proof i)
    then show ?thesis using exclusive_drop [OF assms(2)] by simp
  next
    case (record_proof i p fails now res s')
    then show ?thesis using exclusive_record [OF assms(2) record_proof(2-4)] by simp
  next
    case (settle all V now)
    then show ?thesis using exclusive_evolves [OF assms(2) advances_evolves [OF settle_apply_advances [OF ok]]] by simp
  next
    case (prune now)
    then show ?thesis using exclusive_evolves [OF assms(2) prunes_evolves [OF prune_prunes [OF ok]]] by simp
  next
    case (attempt now txf)
    then show ?thesis
      using exclusive_evolves [OF assms(2) update_record_evolves [OF ok mark_attempted_step]] by (simp add: submit_attempt_def)
  next
    case (accept_job now job failed txf)
    then show ?thesis
      using exclusive_evolves [OF assms(2) update_record_evolves [OF ok mark_submitted_step]] by (simp add: submit_accept_def)
  qed (simp_all add: exclusive_evolves [OF assms(2)] delete_evolves evolves_same tx_dirs_ops ok)
qed

lemma reach_exclusive: "driver_reach L catalog d \<Longrightarrow> exclusive d"
proof (induction rule: driver_reach.induct)
  case start
  show ?case by (simp add: driver_start_def exclusive_on_def txs_ok_def open_at_def read_record_Some proof_files_def)
next
  case (step d d')
  then show ?case using step_exclusive by blast
qed

end
