(* ===== verification/Driver_Recording.thy ===== *)
theory Driver_Recording
  imports Driver_Exclusive
begin

text \<open>
  What recording and settlement leave in the store: a recording that fails leaves nothing, one that succeeds leaves the
  record, the payload and the outputs; settlement leaves every record in the state it decided.
\<close>

section \<open>Recording\<close>

text \<open>The names outputs are written under are free in both directories.\<close>

definition free_names :: "('h, 'o, 'cp) driver_store \<Rightarrow> string list \<Rightarrow> bool" where
  "free_names s names \<longleftrightarrow> set names \<inter> (fst ` set (live_dir s) \<union> fst ` set (nullified_dir s)) = {}"

lemma pass_name_free:
  assumes "free_names s outs" and "pass_name L s entries inputs slots (outs, pend) = (outs', pend')"
  shows "free_names s outs' \<and> length outs' = length outs"
proof -
  have "pending_file_name n (store_names s @ outs) \<notin> set (store_names s @ outs)" for n
    unfolding pending_file_name_def by (rule unique_file_name_free)
  then have new: "pending_file_name n (store_names s @ outs) \<notin> fst ` set (live_dir s) \<union> fst ` set (nullified_dir s)" for n
    by (auto simp: store_names_def dir_names_def)
  have upd: "free_names s (outs[j := n])" if "n \<notin> fst ` set (live_dir s) \<union> fst ` set (nullified_dir s)" for j n
    using assms(1) that set_update_subset_insert [of outs j n] unfolding free_names_def by blast
  show ?thesis
    using assms(2) assms(1) upd [OF new] by (auto simp: pass_name_def Let_def split: prod.splits if_splits)
qed

lemma pass_names_free:
  assumes "free_names s outs" and "fold (pass_name L s entries inputs) slots (outs, pend) = (outs', pend')"
  shows "free_names s outs' \<and> length outs' = length outs"
  using assms
proof (induction slots arbitrary: outs pend)
  case (Cons x xs)
  obtain outs1 pend1 where x: "pass_name L s entries inputs x (outs, pend) = (outs1, pend1)" by (metis surj_pair)
  have f: "free_names s outs1 \<and> length outs1 = length outs" by (rule pass_name_free [OF Cons.prems(1) x])
  moreover have "free_names s outs' \<and> length outs' = length outs1"
    by (rule Cons.IH [of outs1 pend1]) (use f Cons.prems(2) x in simp_all)
  ultimately show ?case by simp
qed simp

lemma record_checks_free:
  assumes "record_checks L p s = Ok (outs, entries)"
  shows "free_names s outs \<and> length outs = length (pt_outputs p)"
proof -
  have o: "output_files L p = Ok outs" and c: "\<exists>us. omap (check_free_output s) outs = Ok us"
    using assms by (auto simp: record_checks_def split: if_splits)
  obtain us where "omap (check_free_output s) outs = Ok us" using c ..
  then have "n \<notin> fst ` set (live_dir s) \<union> fst ` set (nullified_dir s)" if "n \<in> set outs" for n
  proof -
    have "\<exists>u. check_free_output s n = Ok u" using \<open>omap (check_free_output s) outs = Ok us\<close> that by (rule omap_Ok_all)
    then show ?thesis by (simp add: check_free_output_def dir_names_def split: if_splits)
  qed
  then have "free_names s outs" unfolding free_names_def by blast
  moreover have "length outs = length (pt_outputs p)"
    using o by (auto simp: output_files_def dest: omap_Ok_length split: outcome.splits)
  ultimately show ?thesis by simp
qed

text \<open>Writing outputs under free names touches the directory of live objects only, and only at the names attempted.\<close>

lemma write_fresh_object:
  assumes "name \<notin> fst ` set (nullified_dir s)" and "\<not> is_nullified r"
  shows "write_object_file r name s = s\<lparr> live_dir := hm_insert name (Readable r) (live_dir s) \<rparr>"
proof -
  have "dir_remove name (nullified_dir s) = nullified_dir s" using assms(1) by (auto simp: dir_remove_def filter_id_conv)
  then show ?thesis using assms(2) by (simp add: write_object_file_def)
qed

lemma write_outputs_effect:
  assumes "write_outputs fails outs s = (ok, names, s')" and "set (map snd outs) \<inter> fst ` set (nullified_dir s) = {}"
    and "\<And>r n. (r, n) \<in> set outs \<Longrightarrow> \<not> is_nullified r"
  shows "s' = s\<lparr> live_dir := live_dir s' \<rparr> \<and> set names \<subseteq> set (map snd outs)
    \<and> (\<forall>N. set names \<subseteq> N \<longrightarrow> filter (\<lambda>p. fst p \<notin> N) (live_dir s') = filter (\<lambda>p. fst p \<notin> N) (live_dir s))"
  using assms
proof (induction fails outs s arbitrary: ok names s' rule: write_outputs.induct)
  case (2 fails r name rest s)
  have ins: "filter (\<lambda>p. fst p \<notin> N) (hm_insert name f d) = filter (\<lambda>p. fst p \<notin> N) d" if "name \<in> N"
    for N f and d :: "('a, 'b, 'c) obj_dir"
    using that by (auto simp: hm_insert_def intro: filter_cong)
  show ?case
  proof (cases "fails (WriteOutput name)")
    case True
    then show ?thesis using "2.prems"(1) ins by auto
  next
    case False
    let ?s = "s\<lparr> live_dir := hm_insert name (Readable r) (live_dir s) \<rparr>"
    have s: "write_object_file r name s = ?s" by (rule write_fresh_object) (use "2.prems"(2,3) in auto)
    obtain names1 where w: "write_outputs fails rest ?s = (ok, names1, s')" "names = name # names1"
      using "2.prems"(1) False s by (auto split: prod.splits)
    have "s' = ?s\<lparr> live_dir := live_dir s' \<rparr> \<and> set names1 \<subseteq> set (map snd rest)
      \<and> (\<forall>N. set names1 \<subseteq> N \<longrightarrow> filter (\<lambda>p. fst p \<notin> N) (live_dir s') = filter (\<lambda>p. fst p \<notin> N) (live_dir ?s))"
      by (rule "2.IH" [OF False, unfolded s, OF w(1)]) (use "2.prems"(2,3) in auto)
    then show ?thesis using w(2) ins by auto
  qed
qed simp

text \<open>All of them written: every name reads back one of the outputs, and other names are as before.\<close>

lemma write_outputs_all:
  assumes "write_outputs fails outs s = (True, names, s')" and "set (map snd outs) \<inter> fst ` set (nullified_dir s) = {}"
    and "\<And>r n. (r, n) \<in> set outs \<Longrightarrow> \<not> is_nullified r"
  shows "(\<forall>n \<in> set (map snd outs). \<exists>r. (r, n) \<in> set outs \<and> map_of (live_dir s') n = Some (Readable r))
    \<and> (\<forall>n. n \<notin> set (map snd outs) \<longrightarrow> map_of (live_dir s') n = map_of (live_dir s) n)"
  using assms
proof (induction fails outs s arbitrary: names s' rule: write_outputs.induct)
  case (2 fails r name rest s)
  let ?s = "s\<lparr> live_dir := hm_insert name (Readable r) (live_dir s) \<rparr>"
  have s: "write_object_file r name s = ?s" by (rule write_fresh_object) (use "2.prems"(2,3) in auto)
  have ok: "\<not> fails (WriteOutput name)" using "2.prems"(1) by (auto split: if_splits)
  obtain names1 where w: "write_outputs fails rest ?s = (True, names1, s')"
    using "2.prems"(1) ok s by (auto split: prod.splits)
  have "(\<forall>n \<in> set (map snd rest). \<exists>r. (r, n) \<in> set rest \<and> map_of (live_dir s') n = Some (Readable r))
    \<and> (\<forall>n. n \<notin> set (map snd rest) \<longrightarrow> map_of (live_dir s') n = map_of (live_dir ?s) n)"
    by (rule "2.IH" [OF ok, unfolded s, OF w]) (use "2.prems"(2,3) in auto)
  then show ?case by fastforce
qed simp

lemma roll_back_outputs:
  assumes "write_outputs fails outs s = (ok, names, s1)" and "free_names s (map snd outs)"
    and "\<And>r n. (r, n) \<in> set outs \<Longrightarrow> \<not> is_nullified r"
  shows "roll_back names txf s1 = remove_transaction txf s"
    and "roll_back names txf (write_payload txf bytes s1) = remove_transaction txf s"
proof -
  have e: "s1 = s\<lparr> live_dir := live_dir s1 \<rparr> \<and> set names \<subseteq> set (map snd outs)
    \<and> (\<forall>N. set names \<subseteq> N \<longrightarrow> filter (\<lambda>p. fst p \<notin> N) (live_dir s1) = filter (\<lambda>p. fst p \<notin> N) (live_dir s))"
    by (rule write_outputs_effect [OF assms(1) _ assms(3)]) (use assms(2) in \<open>auto simp: free_names_def\<close>)
  have "filter (\<lambda>p. fst p \<notin> set names) (live_dir s) = live_dir s"
    unfolding filter_id_conv using e assms(2) by (auto simp: free_names_def)
  then have l: "filter (\<lambda>p. fst p \<notin> set names) (live_dir s1) = live_dir s" using e by auto
  have "tx_dirs s1 = tx_dirs s" by (rule tx_dirs_write_outputs [OF assms(1)])
  moreover have "s1\<lparr> live_dir := live_dir s \<rparr> = s" using e by (metis (no_types, lifting) driver_store.surjective driver_store.update_convs(1))
  ultimately show "roll_back names txf s1 = remove_transaction txf s" using l by (simp add: roll_back_def)
  moreover have "roll_back names txf (write_payload txf bytes s1) = roll_back names txf s1"
    by (simp add: roll_back_def write_payload_def remove_transaction_def dir_remove_def hm_insert_def)
  ultimately show "roll_back names txf (write_payload txf bytes s1) = remove_transaction txf s" by simp
qed

lemma read_payload_write [simp]:
  "read_payload (write_record r (write_payload (t_final r) bytes s)) (t_final r) = Ok bytes"
  by (simp add: read_payload_def write_record_def write_payload_def tx_dir_at_def)

lemma record_proved_effect:
  assumes "record_proved fails L now p s = (res, s')"
  shows "(\<exists>r. res = Ok r \<and> read_record s' (pt_final p) = Some r \<and> read_payload s' (pt_final p) = Ok (pt_payload p)
            \<and> t_final r = pt_final p \<and> t_state r = TRecorded \<and> t_input_files r = pt_input_files p
            \<and> t_nullifiers r = pt_nullifiers p \<and> length (t_output_files r) = length (pt_outputs p) \<and> free_names s (t_output_files r)
            \<and> (\<forall>n \<in> set (t_output_files r). \<exists>out \<in> set (pt_outputs p).
                 map_of (live_dir s') n = Some (Readable (output_record L (pt_final p) out)))
            \<and> (\<forall>n. n \<notin> set (t_output_files r) \<longrightarrow> map_of (live_dir s') n = map_of (live_dir s) n)
            \<and> nullified_dir s' = nullified_dir s)
    \<or> (\<forall>r. res \<noteq> Ok r) \<and> (s' = s \<or> read_record s (pt_final p) = None \<and> s' = remove_transaction (pt_final p) s)"
proof (cases "record_checks L p s")
  case (Ok x)
  obtain outs entries where x: "x = (outs, entries)" by (cases x)
  note c = record_checks_Ok [OF Ok [unfolded x]] and f = record_checks_free [OF Ok [unfolded x]]
  obtain outs' pend where pn: "pass_names L s entries p outs = (outs', pend)" by (metis surj_pair)
  have f': "free_names s outs' \<and> length outs' = length (pt_outputs p)"
    using pass_names_free [OF _ pn [unfolded pass_names_def]] f by simp
  let ?r = "(recorded (pt_final p) (pt_action p) (pt_owner p) (pt_input_files p) outs' (pt_grounding_root p)
                    (pt_grounding_block p) (pt_nullifiers p) (pt_created p) now)\<lparr> t_pending_names := pend \<rparr>"
  let ?outs = "zip (map (output_record L (pt_final p)) (pt_outputs p)) outs'"
  have w: "write_transaction fails L p ?r s = (res, s')" using assms Ok x pn by (simp add: record_proved_def)
  have r: "t_output_files ?r = outs'" "t_final ?r = pt_final p" "t_state ?r = TRecorded" "t_input_files ?r = pt_input_files p"
    "t_nullifiers ?r = pt_nullifiers p" by (simp_all add: recorded_def)
  obtain ok names s1 where o: "write_outputs fails ?outs s = (ok, names, s1)" by (metis prod_cases3)
  have n1: "set (map snd ?outs) \<inter> fst ` set (nullified_dir s) = {}" and n2: "set (map snd ?outs) = set outs'"
    using f' by (auto simp: free_names_def)
  have n3: "\<not> is_nullified r" if "(r, n) \<in> set ?outs" for r n
    using that by (auto simp: output_record_def is_nullified_def or_status_def dest!: set_zip_leftD)
  have n4: "free_names s (map snd ?outs)" using f' by (simp add: free_names_def)
  note b = roll_back_outputs [OF o n4 n3, where txf = "pt_final p"]
  show ?thesis
  proof (cases "ok \<and> \<not> fails WritePayload \<and> \<not> fails WriteRecord")
    case True
    then have s': "res = Ok ?r" "s' = write_record ?r (write_payload (t_final ?r) (pt_payload p) s1)"
      using w o r by (auto simp: write_transaction_def Let_def)
    have dirs: "live_dir s' = live_dir s1" "nullified_dir s' = nullified_dir s1"
      unfolding s'(2) by (simp_all add: write_record_def write_payload_def)
    have o': "write_outputs fails ?outs s = (True, names, s1)" using o True by simp
    have all: "(\<forall>n \<in> set outs'. \<exists>r. (r, n) \<in> set ?outs \<and> map_of (live_dir s') n = Some (Readable r))
        \<and> (\<forall>n. n \<notin> set outs' \<longrightarrow> map_of (live_dir s') n = map_of (live_dir s) n)"
      unfolding dirs using write_outputs_all [OF o' n1, unfolded n2] n3 by blast
    have outs: "\<forall>n \<in> set (t_output_files ?r). \<exists>out \<in> set (pt_outputs p).
        map_of (live_dir s') n = Some (Readable (output_record L (pt_final p) out))"
      using all unfolding r(1) by (auto dest!: bspec set_zip_leftD)
    have rest: "\<forall>n. n \<notin> set (t_output_files ?r) \<longrightarrow> map_of (live_dir s') n = map_of (live_dir s) n" using all unfolding r(1) by (rule conjunct2)
    have e: "s1 = s\<lparr> live_dir := live_dir s1 \<rparr>" using write_outputs_effect [OF o n1] n3 by blast
    have null: "nullified_dir s' = nullified_dir s" unfolding dirs by (subst e) simp
    have files: "length (t_output_files ?r) = length (pt_outputs p)" "free_names s (t_output_files ?r)" using f' unfolding r(1) by simp_all
    have rd: "read_record s' (pt_final p) = Some ?r" "read_payload s' (pt_final p) = Ok (pt_payload p)"
      unfolding s'(2) using r(2) read_payload_write [of ?r] by simp_all
    show ?thesis
      by (intro disjI1 exI [of _ ?r] conjI; (rule s'(1) rd r(2-) files outs rest null)?)
  next
    case False
    then have "(\<forall>r. res \<noteq> Ok r) \<and> s' = remove_transaction (pt_final p) s"
      using w o r b by (auto simp: write_transaction_def Let_def split: if_splits)
    then show ?thesis using c(1) by blast
  qed
qed (use assms in \<open>auto simp: record_proved_def\<close>)

section \<open>Settlement\<close>

definition record_states :: "('h, 'o, 'cp) driver_store \<Rightarrow> 'h \<Rightarrow> transaction_state option" where
  "record_states s h = map_option t_state (read_record s h)"

lemma record_states_write: "record_states (write_record r s) = (record_states s)(t_final r \<mapsto> t_state r)"
  by (auto simp: record_states_def)

lemma record_states_same: "tx_dirs s' = tx_dirs s \<Longrightarrow> record_states s' = record_states s"
  using same_tx_dirs(1) [of s' s] by (simp add: record_states_def fun_eq_iff)

text \<open>The records that changed are written; every other one is what settlement makes of it.\<close>

lemma fold_write_other: "h \<notin> t_final ` set rs \<Longrightarrow> read_record (fold write_record rs s) h = read_record s h"
  by (induction rs arbitrary: s) auto

lemma fold_write_read:
  assumes "r \<in> set rs" and "\<And>r'. r' \<in> set rs \<Longrightarrow> t_final r' = t_final r \<Longrightarrow> r' = r"
  shows "read_record (fold write_record rs s) (t_final r) = Some r"
  using assms
proof (induction rs arbitrary: s)
  case (Cons x xs)
  show ?case
  proof (cases "r \<in> set xs")
    case True
    then show ?thesis using Cons by simp
  next
    case False
    then have "t_final r \<notin> t_final ` set xs" using Cons.prems(2) by (metis imageE list.set_intros(2))
    moreover have "x = r" using Cons.prems(1) False by simp
    ultimately show ?thesis by (simp add: fold_write_other)
  qed
qed simp

lemma persist_changed_states:
  assumes "persist_changed L held locked rs acc = (rs', acc')"
    and "\<And>r. r \<in> set rs \<Longrightarrow> record_states (sa_store acc) (t_final r) = Some (t_state r)"
  shows "record_states (sa_store acc') = record_states (sa_store acc)"
  using assms
proof (induction L held locked rs acc arbitrary: rs' acc' rule: persist_changed.induct)
  case (2 L held locked r rs acc)
  show ?case
  proof (cases "tx_terminal (t_state r)")
    case False
    then show ?thesis using "2.IH"(1) "2.prems" by (auto split: prod.splits)
  next
    case True
    obtain res r1 acc1 where p: "persist_settled_objects L held locked r acc = (res, r1, acc1)" by (metis prod_cases3)
    have same: "record_states (sa_store acc1) = record_states (sa_store acc)"
      by (rule record_states_same [OF persist_settled_txs(1) [OF p]])
    have r1: "t_final r1 = t_final r" "t_state r1 = t_state r" using persist_settled_txs(2) [OF p] by simp_all
    let ?acc1 = "if res = Ok () \<and> r1 \<noteq> r then acc1\<lparr> sa_store := write_record r1 (sa_store acc1) \<rparr> else acc1"
    let ?acc2 = "?acc1\<lparr> sa_changed := t_output_files r1 @ t_input_files r1 @ sa_changed ?acc1 \<rparr>"
    have s2: "record_states (sa_store ?acc2) = record_states (sa_store acc)"
      using same r1 "2.prems"(2) [of r] by (simp add: record_states_write fun_upd_idem_iff)
    obtain rs1 acc3 where q: "persist_changed L held locked rs ?acc2 = (rs1, acc3)" by (metis surj_pair)
    have "acc' = acc3" using "2.prems"(1) True p q by (simp add: Let_def split: if_splits)
    moreover have "record_states (sa_store acc3) = record_states (sa_store ?acc2)"
      by (rule "2.IH"(2) [OF _ p [symmetric] refl refl refl q]) (use True "2.prems"(2) s2 in auto)
    ultimately show ?thesis using s2 by simp
  qed
qed simp

text \<open>Whatever else happens while settlement is applied, the state of every record afterwards is the one decided for it.\<close>

lemma settle_apply_states:
  assumes "txs_ok s"
  shows "record_states (snd (settle_apply L all V now held s)) h = map_option (\<lambda>r. t_state
    (settle_record now (sv_queried V) (sv_jobs V) (sv_statuses V) (sv_head_block V) r)) (read_record s h)"
proof -
  define before where "before = load_records L s"
  define f where "f = settle_record now (sv_queried V) (sv_jobs V) (sv_statuses V) (sv_head_block V)"
  define changed where "changed = map snd (filter (\<lambda>(b, r). b \<noteq> r) (zip before (map f before)))"
  have fin: "t_final (f r) = t_final r" for r using settle_record_step [of r] by (simp add: record_step_def f_def)
  have mem: "r \<in> set changed \<longleftrightarrow> (\<exists>r0 \<in> set before. r = f r0 \<and> r0 \<noteq> r)" for r
  proof -
    have "map snd (filter (\<lambda>(b, r). b \<noteq> r) (zip bs (map f bs))) = map f (filter (\<lambda>b. b \<noteq> f b) bs)" for bs
      by (induction bs) simp_all
    then show ?thesis unfolding changed_def by auto
  qed
  have stored: "r0 \<in> set before \<longleftrightarrow> read_record s (t_final r0) = Some r0" for r0
    unfolding before_def by (rule set_load_records [OF assms])
  let ?s1 = "fold write_record changed s"
  have s1: "read_record ?s1 h = map_option f (read_record s h)" for h
  proof (cases "h \<in> t_final ` set changed")
    case True
    then obtain r where r: "r \<in> set changed" "h = t_final r" by blast
    then obtain r0 where b: "r0 \<in> set before" "r = f r0" unfolding mem by blast
    then have r0: "read_record s h = Some r0" "t_final r0 = h" "f r0 \<in> set changed"
      using r stored [of r0] fin [of r0] by simp_all
    have "r' = f r0" if c: "r' \<in> set changed" "t_final r' = t_final (f r0)" for r'
    proof -
      obtain r1 where r1: "r1 \<in> set before" "r' = f r1" using c(1) unfolding mem by blast
      then have "read_record s h = Some r1" using stored [of r1] c(2) fin r0(2) by simp
      then show ?thesis using r0(1) r1(2) by simp
    qed
    then have "read_record ?s1 (t_final (f r0)) = Some (f r0)" by (rule fold_write_read [OF r0(3)])
    then show ?thesis using r0 fin by simp
  next
    case False
    have "f r0 = r0" if "read_record s h = Some r0" for r0
    proof (rule ccontr)
      assume "f r0 \<noteq> r0"
      moreover have t: "t_final r0 = h" using assms that by (simp add: txs_ok_def)
      ultimately have "f r0 \<in> set changed" using mem [of "f r0"] stored [of r0] that by auto
      then show False using False fin [of r0] t by (metis imageI)
    qed
    then show ?thesis using fold_write_other [OF False, of s] by (cases "read_record s h") simp_all
  qed
  obtain rs' acc where p: "persist_changed L held (locked_inputs (map f before)) changed
      \<lparr> sa_store = ?s1, sa_changed = [], sa_removed = [], sa_spent = [] \<rparr> = (rs', acc)"
    by (metis surj_pair)
  have "record_states (sa_store acc) = record_states ?s1"
  proof (rule persist_changed_states [OF p, simplified])
    fix r assume "r \<in> set changed"
    then obtain r0 where "r0 \<in> set before" "r = f r0" unfolding mem by blast
    then show "record_states ?s1 (t_final r) = Some (t_state r)"
      using stored [of r0] fin [of r0] s1 [of "t_final r0"] by (simp add: record_states_def)
  qed
  moreover have "record_states (snd (settle_apply L all V now held s)) = record_states (sa_store acc)"
    using p by (auto simp: settle_apply_def Let_def before_def [symmetric] f_def [symmetric] changed_def [symmetric]
        intro: record_states_same update_entries_txs split: outcome.splits prod.splits)
  ultimately show ?thesis using s1 [of h] by (simp add: record_states_def f_def option.map_comp comp_def)
qed

end
