(* ===== verification/Driver_Properties.thy ===== *)
theory Driver_Properties
  imports Driver_Recording Sync_Properties
begin

text \<open>
  Properties of the driver: exclusive use of inputs, records that stay until they settle, recording that leaves nothing behind
  when it fails, settlement that decides each record from what the chain says, expiry that agrees with the
  synchronizer's state machine, and files that keep their names apart.
\<close>

section \<open>A small instance\<close>

definition demo_objects :: "(nat, nat) obj_lib" where
  "demo_objects = \<lparr> ol_commitment = (\<lambda>obj. obj), ol_get = (\<lambda>obj field. Ok (Some (length field))),
     ol_hash_values = sum_list, ol_text_value = length, ol_hex = (\<lambda>h. replicate h (CHR ''a'')) \<rparr>"

definition demo_class :: qualified_name where
  "demo_class = \<lparr> plugin_name = ''p'', qn_name = ''c'' \<rparr>"

definition demo_object :: "nat \<Rightarrow> (nat, nat, unit) object_record" where
  "demo_object obj = \<lparr> or_metadata = \<lparr> om_class = demo_class, om_content_hash = obj, om_status = FLive, om_tx_final = 3,
     om_tx_hash = None, om_creation_proof = None \<rparr>, or_obj = obj \<rparr>"

definition demo_catalog :: "qualified_name \<Rightarrow> nat action_summary option" where
  "demo_catalog q = Some \<lparr> act_name = q, act_inputs = [\<lparr> cref_class = demo_class, cref_hash = Some 4 \<rparr>],
     act_outputs = [\<lparr> cref_class = demo_class, cref_hash = Some 4 \<rparr>], act_mutated = [(0, 0)] \<rparr>"

definition demo_request :: execute_action_input where
  "demo_request = \<lparr> ei_action = demo_class, ei_objects = [''a.dobj''] \<rparr>"

definition demo_proved :: "(nat, nat) proved_transaction" where
  "demo_proved = \<lparr> pt_final = 9, pt_action = demo_class, pt_owner = ''run'', pt_grounding_root = 6, pt_grounding_block = 100,
     pt_outputs = [(demo_class, 11)], pt_nullifiers = [26], pt_created = [11], pt_payload = [1], pt_mutated = [(0, 0)],
     pt_input_files = [''a.dobj''] \<rparr>"

definition demo_imported :: "(nat, nat, unit) driver_store" where
  "demo_imported = snd (import_file demo_objects (demo_object 5) ''a.dobj'' None (ds_store driver_start))"

definition demo_recorded :: "(nat, nat, unit) driver_store" where
  "demo_recorded = snd (record_proved (\<lambda>_. False) demo_objects 50 demo_proved demo_imported)"

definition demo_offered :: "(nat, nat, unit) driver_state" where
  "demo_offered = \<lparr> ds_store = snd (submit_attempt demo_objects 60 9 demo_recorded), ds_holds = [(''a.dobj'', ''run'')],
     ds_proofs = [([''a.dobj''], True)], ds_reconciled = [] \<rparr>"

definition demo_record :: "nat transaction_record" where
  "demo_record = (recorded 9 demo_class ''run'' [''a.dobj''] [''a-pending.dobj''] 6 100 [26] [11] 50)
     \<lparr> t_pending_names := [\<lparr> pn_file_name = ''a-pending.dobj'', pn_final_name = ''a.dobj'' \<rparr>],
       t_submit_attempted_at_ms := Some 60 \<rparr>"

lemma demo_begin:
  "prove_begin demo_objects demo_catalog demo_request ''run'' demo_imported []
     = Ok (the (demo_catalog demo_class), [(''a.dobj'', demo_object 5)], [(''a.dobj'', ''run'')])"
  by code_simp

lemma demo_recording:
  "record_proved (\<lambda>_. False) demo_objects 50 demo_proved demo_imported
     = (Ok (demo_record\<lparr> t_submit_attempted_at_ms := None \<rparr>), demo_recorded)"
proof -
  have "fst (record_proved (\<lambda>_. False) demo_objects 50 demo_proved demo_imported)
      = Ok (demo_record\<lparr> t_submit_attempted_at_ms := None \<rparr>)" by code_simp
  then show ?thesis by (simp add: demo_recorded_def prod_eq_iff)
qed

lemma demo_offered_record: "read_record (ds_store demo_offered) 9 = Some demo_record"
proof -
  have "read_record demo_recorded 9 = Some (demo_record\<lparr> t_submit_attempted_at_ms := None \<rparr>)"
    using record_proved_effect [OF demo_recording] by (auto simp: demo_proved_def)
  then show ?thesis
    by (simp add: demo_offered_def submit_attempt_def update_record_def mark_attempted_def demo_record_def recorded_def)
qed

lemma driver_demo_reach: "driver_reach demo_objects demo_catalog demo_offered"
proof -
  let ?d1 = "driver_start\<lparr> ds_store := demo_imported \<rparr>"
  let ?d2 = "?d1\<lparr> ds_holds := [(''a.dobj'', ''run'')], ds_proofs := [([''a.dobj''], False)] \<rparr>"
  let ?d3 = "?d2\<lparr> ds_store := demo_recorded, ds_proofs := [([''a.dobj''], True)] \<rparr>"
  have "driver_step demo_objects demo_catalog driver_start ?d1"
    unfolding demo_imported_def by (rule driver_step.import_obj)
  moreover have "driver_step demo_objects demo_catalog ?d1 ?d2"
    using driver_step.begin_proof [of demo_objects demo_catalog demo_request "''run''" ?d1] demo_begin by (simp add: driver_start_def)
  moreover have "driver_step demo_objects demo_catalog ?d2 ?d3"
    using driver_step.record_proof [of 0 ?d2 demo_proved "\<lambda>_. False" demo_objects 50 _ demo_recorded demo_catalog]
    by (simp add: demo_recorded_def demo_proved_def prod_eq_iff)
  moreover have "driver_step demo_objects demo_catalog ?d3 demo_offered"
    using driver_step.attempt [of demo_objects demo_catalog ?d3 60 9] by (simp add: demo_offered_def driver_start_def)
  ultimately show ?thesis by (meson driver_reach.intros)
qed

section \<open>Records\<close>

text \<open>C20. No object file is spent twice. In every state the driver reaches by interleaving proofs, recording, deletion, submission,
  settlement, pruning, renaming, discarding and importing, two open transactions never share an input file, a proof that is not yet
  recorded never works on an input of an open transaction, and no two proofs in flight work on the same file.\<close>

theorem inputs_exclusive:
  assumes "driver_reach L catalog d"
  shows "(\<forall>h r h' r' f. read_record (ds_store d) h = Some r \<and> is_open r \<and> read_record (ds_store d) h' = Some r' \<and> is_open r'
           \<and> f \<in> set (t_input_files r) \<and> f \<in> set (t_input_files r') \<longrightarrow> h = h')
    \<and> (\<forall>files h r f. (files, False) \<in> set (ds_proofs d) \<and> read_record (ds_store d) h = Some r \<and> is_open r
           \<and> f \<in> set files \<longrightarrow> f \<notin> set (t_input_files r))
    \<and> distinct (concat (map fst (ds_proofs d)))"
  using reach_exclusive [OF assms] unfolding exclusive_on_def open_at_def proof_files_def
  by (intro conjI) (blast | simp)+

theorem inputs_exclusive_witness:
  "{h. \<exists>r. read_record (ds_store demo_offered) h = Some r \<and> is_open r \<and> ''a.dobj'' \<in> set (t_input_files r)} = {9}"
proof -
  have o: "is_open demo_record" and i: "''a.dobj'' \<in> set (t_input_files demo_record)"
    by (simp_all add: demo_record_def recorded_def is_open_def)
  have "h = 9" if "read_record (ds_store demo_offered) h = Some r" "is_open r" "''a.dobj'' \<in> set (t_input_files r)" for h r
    using inputs_exclusive [OF driver_demo_reach] o i demo_offered_record that by blast
  then show ?thesis using o i demo_offered_record by blast
qed

text \<open>C21. A transaction that was offered to the relayer is not lost while it may still land: whatever the driver does next, its
  record is still there, still marked as offered, and with the same inputs locked as long as it is open.\<close>

theorem offered_kept:
  assumes "driver_reach L catalog d" and "driver_step L catalog d d'"
    and "read_record (ds_store d) h = Some r" and "is_open r" and "t_submit_attempted_at_ms r \<noteq> None"
  shows "\<exists>r'. read_record (ds_store d') h = Some r' \<and> t_submit_attempted_at_ms r' \<noteq> None
    \<and> (is_open r' \<longrightarrow> t_input_files r' = t_input_files r)"
proof -
  have ok: "txs_ok (ds_store d)" using reach_exclusive [OF assms(1)] by (simp add: exclusive_on_def)
  show ?thesis
  proof (cases "evolves (ds_store d) (ds_store d')")
    case True
    then show ?thesis using assms(3-5) unfolding evolves_def open_at_def record_step_def by metis
  next
    case False
    then obtain fails now p res where "record_proved fails L now p (ds_store d) = (res, ds_store d')"
      using step_evolves [OF assms(2) ok] by blast
    then have "read_record (ds_store d') h = Some r" using record_proved_records [OF ok] assms(3) by (metis option.distinct(1))
    then show ?thesis using assms(5) by blast
  qed
qed

theorem offered_kept_witness:
  "\<exists>r'. read_record (snd (delete_transaction demo_objects 9 (ds_store demo_offered))) 9 = Some r'
    \<and> t_submit_attempted_at_ms r' \<noteq> None"
proof -
  have r: "is_open demo_record" "t_submit_attempted_at_ms demo_record \<noteq> None"
    by (simp_all add: demo_record_def recorded_def is_open_def)
  show ?thesis
    using offered_kept [OF driver_demo_reach driver_step.delete [of _ _ _ 9] demo_offered_record r] by auto
qed

text \<open>C22. Recording a proved transaction is all or nothing, whichever write to the disk fails. When it succeeds, the record and the
  payload read back, every output is filed as an unknown object of this transaction under a name that was free, and no other
  object file changed. When it fails, the store is as before, or lacks only a leftover of the same transaction that had no
  record.\<close>

theorem record_atomic:
  "case record_proved fails L now p s of
     (Ok r, s') \<Rightarrow> read_record s' (pt_final p) = Some r \<and> read_payload s' (pt_final p) = Ok (pt_payload p)
       \<and> t_final r = pt_final p \<and> t_state r = TRecorded \<and> t_input_files r = pt_input_files p \<and> t_nullifiers r = pt_nullifiers p
       \<and> length (t_output_files r) = length (pt_outputs p)
       \<and> (\<forall>n \<in> set (t_output_files r). map_of (live_dir s) n = None \<and> map_of (nullified_dir s) n = None
            \<and> (\<exists>out \<in> set (pt_outputs p). map_of (live_dir s') n = Some (Readable (output_record L (pt_final p) out))))
       \<and> (\<forall>n. n \<notin> set (t_output_files r) \<longrightarrow> map_of (live_dir s') n = map_of (live_dir s) n)
       \<and> nullified_dir s' = nullified_dir s
   | (_, s') \<Rightarrow> s' = s \<or> read_record s (pt_final p) = None \<and> s' = remove_transaction (pt_final p) s"
proof -
  obtain res s' where e: "record_proved fails L now p s = (res, s')" by (metis surj_pair)
  have free: "map_of (live_dir s) n = None \<and> map_of (nullified_dir s) n = None" if "free_names s ns" "n \<in> set ns" for n ns
    using that by (auto simp: free_names_def map_of_eq_None_iff)
  show ?thesis
  proof (cases "\<exists>r. res = Ok r")
    case True
    then obtain r where r: "res = Ok r" ..
    show ?thesis using record_proved_effect [OF e] free [of "t_output_files r"] unfolding e r by simp
  next
    case False
    then show ?thesis using record_proved_effect [OF e] unfolding e by (cases res) simp_all
  qed
qed

theorem record_atomic_witness:
  "map_of (live_dir demo_recorded) ''a.dobj'' = map_of (live_dir demo_imported) ''a.dobj''
   \<and> map_of (live_dir demo_imported) ''a-pending.dobj'' = None
   \<and> (\<exists>out \<in> set (pt_outputs demo_proved).
        map_of (live_dir demo_recorded) ''a-pending.dobj'' = Some (Readable (output_record demo_objects 9 out)))"
proof -
  let ?r = "demo_record\<lparr> t_submit_attempted_at_ms := None \<rparr>"
  have n: "t_output_files ?r = [''a-pending.dobj'']" by (simp add: demo_record_def recorded_def)
  have f: "pt_final demo_proved = 9" by (simp add: demo_proved_def)
  show ?thesis using record_atomic [where fails = "\<lambda>_. False" and L = demo_objects and now = 50 and p = demo_proved and s = demo_imported] unfolding demo_recording f by (simp add: n)
qed

text \<open>C23. Settlement decides each record by what the chain says and by nothing else: an open record that was queried lands when
  the synchronizer reports its transaction without an error, expires when it reports an error, and otherwise expires exactly when its
  grounding is too old for the head that was read; a record whose submission began after the statuses were read, one that was
  not queried and one that was settled before keep their state.\<close>

theorem settle_decides:
  assumes "driver_reach L catalog d" and "read_record (ds_store d) h = Some r"
  shows "\<exists>r'. read_record (snd (settle_apply L all V now (ds_holds d) (ds_store d))) h = Some r'
    \<and> t_state r' = (let unless_old = (case sv_head_block V of
                           Some head \<Rightarrow> if head - t_grounding_block r > 50400 then TExpired else t_state r
                         | None \<Rightarrow> t_state r)
        in if \<not> is_open r \<or> h \<notin> sv_queried V then t_state r
           else case sv_statuses V h of
                  Some (Some found) \<Rightarrow> if ss_error found = None then TLanded else TExpired
                | Some None \<Rightarrow> unless_old
                | None \<Rightarrow> if needs_tx_status r then t_state r else unless_old)"
proof -
  have ok: "txs_ok (ds_store d)" using reach_exclusive [OF assms(1)] by (simp add: exclusive_on_def)
  have h: "t_final r = h" using ok assms(2) by (simp add: txs_ok_def)
  let ?r = "settle_record now (sv_queried V) (sv_jobs V) (sv_statuses V) (sv_head_block V) r"
  have "record_states (snd (settle_apply L all V now (ds_holds d) (ds_store d))) h = Some (t_state ?r)"
    using settle_apply_states [OF ok, of L all V now "ds_holds d" h] assms(2) by simp
  then obtain r' where r': "read_record (snd (settle_apply L all V now (ds_holds d) (ds_store d))) h = Some r'" "t_state r' = t_state ?r"
    by (auto simp: record_states_def)
  have old: "grounding_aged_out b (t_grounding_block r) \<longleftrightarrow> b - t_grounding_block r > 50400" for b
    by (simp add: grounding_aged_out_def MAX_STATE_ROOT_AGE_BLOCKS_def)
  show ?thesis
    using r' h by (auto simp: settle_record_def decide_record_def expire_def annotate_job_fields old Let_def split: option.splits)
qed

definition demo_view :: "(nat, unit) settle_view" where
  "demo_view = \<lparr> sv_queried = {9}, sv_jobs = Map.empty, sv_statuses = [9 \<mapsto> None], sv_membership = None,
     sv_head_block = Some 50501, sv_proofs = Map.empty \<rparr>"

theorem settle_decides_witness:
  "\<exists>r'. read_record (snd (settle_apply demo_objects False demo_view 70 (ds_holds demo_offered) (ds_store demo_offered))) 9 = Some r'
    \<and> t_state r' = TExpired"
  using settle_decides [OF driver_demo_reach demo_offered_record, of False demo_view 70]
  by (simp add: demo_view_def demo_record_def recorded_def is_open_def)

text \<open>C24. Expiry is final on the chain as well: once the driver expires a transaction because its grounding is too old at a head, the
  synchronizer's state machine rejects the transaction's payload in that block and in every later one, whether or not the grounding root
  is still among its recent roots.\<close>

theorem expired_cannot_land:
  assumes "is_open r" and "t_state (decide_record now (Some head) None r) = TExpired"
    and "p_state_root payload = t_grounding_root r"
    and "map_of (w_recent_state_roots w) (t_grounding_root r) \<in> {None, Some (t_grounding_block r)}"
    and "head \<le> as_i64 block"
  shows "\<exists>rej. apply_payload P w payload prior block = Ok (Some rej, w)"
proof -
  have "grounding_aged_out head (t_grounding_block r)"
    using assms(1,2) by (auto simp: decide_record_def is_open_def split: if_splits)
  then have "grounding_aged_out (as_i64 block) (t_grounding_block r)" using assms(5) by (simp add: grounding_aged_out_def)
  then show ?thesis using assms(3,4) by (auto simp: apply_payload_def Let_def)
qed

theorem expired_cannot_land_witness:
  "\<exists>rej. apply_payload sym_pod2 demo_working demo_payload [] 50501 = Ok (Some rej, demo_working)"
proof -
  let ?r = "recorded (Atom 9) demo_class ''run'' [''a.dobj''] [] demo_root0 100 [] [] 0"
  have a: "is_open ?r" "t_state (decide_record 70 (Some 50501) None ?r) = TExpired" "p_state_root demo_payload = t_grounding_root ?r"
    "map_of (w_recent_state_roots demo_working) (t_grounding_root ?r) \<in> {None, Some (t_grounding_block ?r)}"
    by (simp_all add: recorded_def is_open_def decide_record_def expire_def grounding_aged_out_def MAX_STATE_ROOT_AGE_BLOCKS_def
        demo_payload_def demo_working_def initial_working_def map_of_hm_from_iter)
  show ?thesis using expired_cannot_land [OF a, of 50501] by (simp add: as_i64_def)
qed

section \<open>Object files\<close>

text \<open>A renamed object keeps its place in the store: the new name is one printable path component with the object extension that does
  not imitate a generated name of another object, no file had it before, the object was neither held by a proof nor an input of
  an open transaction, and exactly this file moved.\<close>

theorem rename_object_safe:
  assumes "rename_object L held path name s = (Ok target, s')"
  shows "safe_file_name target
    \<and> (\<exists>fname stored generated. extract_basename path = Some fname \<and> map_of (live_dir s) fname = Some (Readable stored)
         \<and> object_file_name L (om_class (or_metadata stored)) (or_obj stored) = Ok generated
         \<and> (target = generated \<or> \<not> has_generated_shape target)
         \<and> (target = fname \<and> s' = s
            \<or> map_of held fname = None \<and> fname \<notin> locked_inputs (load_records L s) \<and> or_status stored = FLive
              \<and> target \<notin> set (store_names s)
              \<and> s' = s\<lparr> live_dir := live_dir s' \<rparr>
              \<and> map_of (live_dir s') = (map_of (live_dir s))(fname := None, target \<mapsto> Readable stored)))"
proof -
  obtain fname stored generated where f: "extract_basename path = Some fname" "read_live s fname = Ok stored"
    "object_file_name L (om_class (or_metadata stored)) (or_obj stored) = Ok generated" "custom_file_name name generated = Ok target"
    and c: "target = fname \<and> s' = s \<or> target \<noteq> fname \<and> map_of held fname = None \<and> fname \<notin> locked_inputs (load_records L s)
      \<and> or_status stored = FLive \<and> \<not> store_has_file s target \<and> rename_live_object_file fname target s = Ok s'"
    using assms by (auto simp: rename_object_def basename_or_err_def Let_def map_err_Ok_iff split: outcome.splits if_splits)
  have "map_of (live_dir s) fname = Some (Readable stored)" using f(2) by (auto simp: read_live_def split: option.splits obj_file.splits)
  moreover note custom_file_name_ok [OF f(4)] f(1,3)
  moreover have "s' = s\<lparr> live_dir := live_dir s' \<rparr> \<and> map_of (live_dir s') = (map_of (live_dir s))(fname := None, target \<mapsto> Readable stored)"
    if "rename_live_object_file fname target s = Ok s'"
    using that \<open>map_of (live_dir s) fname = Some (Readable stored)\<close>
    by (auto simp: rename_live_object_file_def dir_remove_def map_of_filter_neq split: if_splits)
  ultimately show ?thesis using c unfolding store_has_file_def by blast
qed

theorem rename_object_safe_witness:
  "safe_file_name ''b.dobj'' \<and> ''b.dobj'' \<notin> set (store_names demo_imported)
   \<and> map_of (live_dir (snd (rename_object demo_objects [] ''a.dobj'' ''b'' demo_imported)))
       = (map_of (live_dir demo_imported))(''a.dobj'' := None, ''b.dobj'' \<mapsto> Readable (demo_object 5))"
proof -
  have r: "fst (rename_object demo_objects [] ''a.dobj'' ''b'' demo_imported) = Ok ''b.dobj''" by code_simp
  have b: "extract_basename ''a.dobj'' = Some ''a.dobj''" by code_simp
  have l: "map_of (live_dir demo_imported) ''a.dobj'' = Some (Readable (demo_object 5))" by code_simp
  have e: "rename_object demo_objects [] ''a.dobj'' ''b'' demo_imported
      = (Ok ''b.dobj'', snd (rename_object demo_objects [] ''a.dobj'' ''b'' demo_imported))"
    using r by (simp add: prod_eq_iff)
  show ?thesis using rename_object_safe [OF e] b l by auto
qed





end
