(* ===== verification/Dobjd_Registry.thy ===== *)
theory Dobjd_Registry
  imports Prelude
begin

text \<open>
  The daemon's registry of runs and proof jobs (\<open>services/dobjd/src/registry.rs\<close>). The trait \<open>Retained\<close> is the locale
  \<open>retained\<close>: its laws are what entries promise about their sequence number and the time they finished.
\<close>

section \<open>Registry\<close>

definition RETENTION :: nat where
  "RETENTION = 600 * 1000000000"

record 'e registry =
  rg_entries :: "(string \<times> 'e) list"
  rg_next_sequence :: nat

definition registry_empty :: "'e registry" where
  "registry_empty = \<lparr> rg_entries = [], rg_next_sequence = 0 \<rparr>"

definition registry_start :: "string \<Rightarrow> (nat \<Rightarrow> 'e) \<Rightarrow> 'e registry \<Rightarrow> 'e registry" where
  "registry_start ident mk r =
     r\<lparr> rg_entries := hm_insert ident (mk (rg_next_sequence r)) (rg_entries r), rg_next_sequence := rg_next_sequence r + 1 \<rparr>"

definition registry_get :: "string \<Rightarrow> 'e registry \<Rightarrow> 'e option" where
  "registry_get ident r = map_of (rg_entries r) ident"

definition registry_entries :: "('e \<Rightarrow> nat) \<Rightarrow> ('e \<Rightarrow> nat option) \<Rightarrow> bool \<Rightarrow> 'e registry \<Rightarrow> 'e list" where
  "registry_entries sequence finished_at active_only r =
     sort_key sequence (filter (\<lambda>e. \<not> (active_only \<and> finished_at e \<noteq> None)) (map snd (rg_entries r)))"

definition registry_reap :: "('e \<Rightarrow> nat option) \<Rightarrow> nat \<Rightarrow> nat \<Rightarrow> 'e registry \<Rightarrow> 'e registry" where
  "registry_reap finished_at now ttl r =
     r\<lparr> rg_entries := filter (\<lambda>(ident, e). \<not> (case finished_at e of None \<Rightarrow> False | Some finished \<Rightarrow> now - finished \<ge> ttl)) (rg_entries r) \<rparr>"

section \<open>The trait Retained\<close>

text \<open>Entries change by steps that keep their sequence number and, once they are finished, the time they finished.\<close>

locale retained =
  fixes sequence :: "'e \<Rightarrow> nat" and finished_at :: "'e \<Rightarrow> nat option" and step :: "'e \<Rightarrow> 'e \<Rightarrow> bool"
  assumes step_sequence: "step e e' \<Longrightarrow> sequence e' = sequence e"
    and step_finished: "step e e' \<Longrightarrow> finished_at e = None"
begin

text \<open>The ways a registry changes. New entries are unfinished, carry the number they are given, and their ids are
  unused.\<close>

inductive reachable :: "'e registry \<Rightarrow> bool" where
  empty: "reachable registry_empty"
| start: "reachable r \<Longrightarrow> registry_get ident r = None \<Longrightarrow> (\<And>n. sequence (mk n) = n \<and> finished_at (mk n) = None) \<Longrightarrow>
    reachable (registry_start ident mk r)"
| update: "reachable r \<Longrightarrow> i < length (rg_entries r) \<Longrightarrow> step (snd (rg_entries r ! i)) e' \<Longrightarrow>
    reachable (r\<lparr> rg_entries := (rg_entries r)[i := (fst (rg_entries r ! i), e')] \<rparr>)"
| reap: "reachable r \<Longrightarrow> reachable (registry_reap finished_at now ttl r)"

text \<open>The entries stand in the order they were registered in.\<close>

definition in_order :: "'e registry \<Rightarrow> bool" where
  "in_order r \<longleftrightarrow> sorted_wrt (<) (map (sequence \<circ> snd) (rg_entries r))
     \<and> (\<forall>p \<in> set (rg_entries r). sequence (snd p) < rg_next_sequence r) \<and> distinct (map fst (rg_entries r))"

lemma reachable_in_order: "reachable r \<Longrightarrow> in_order r"
proof (induction rule: reachable.induct)
  case empty
  then show ?case by (simp add: in_order_def registry_empty_def)
next
  case (start r ident mk)
  have "ident \<notin> fst ` set (rg_entries r)" using start.hyps(2) by (simp add: registry_get_def map_of_eq_None_iff)
  then have e: "rg_entries (registry_start ident mk r) = rg_entries r @ [(ident, mk (rg_next_sequence r))]"
    by (simp add: registry_start_def hm_insert_fresh)
  then show ?case
    using start.IH start.hyps(3) \<open>ident \<notin> fst ` set (rg_entries r)\<close>
    by (auto simp: in_order_def sorted_wrt_append registry_start_def less_Suc_eq)
next
  case (update r i e')
  let ?es = "(rg_entries r)[i := (fst (rg_entries r ! i), e')]"
  have "map (sequence \<circ> snd) ?es = map (sequence \<circ> snd) (rg_entries r)" and "map fst ?es = map fst (rg_entries r)"
    using update.hyps(2) step_sequence [OF update.hyps(3)] by (simp_all add: map_update list_update_same_conv)
  moreover from this have "\<forall>p \<in> set ?es. sequence (snd p) < rg_next_sequence r"
    using update.IH unfolding in_order_def by (metis (no_types, lifting) comp_apply image_eqI image_iff list.set_map)
  ultimately show ?case using update.IH by (simp add: in_order_def)
next
  case (reap r now ttl)
  then show ?case
    by (auto simp: in_order_def registry_reap_def sorted_wrt_map distinct_map_filter intro: sorted_wrt_filter)
qed

lemma entries_in_order:
  assumes "reachable r"
  shows "registry_entries sequence finished_at active_only r
    = filter (\<lambda>e. \<not> (active_only \<and> finished_at e \<noteq> None)) (map snd (rg_entries r))"
proof -
  have "sorted_wrt (<) (map (sequence \<circ> snd) (rg_entries r))" using reachable_in_order [OF assms] by (simp add: in_order_def)
  then have "sorted (map sequence (map snd (rg_entries r)))" by (simp add: strict_sorted_imp_sorted)
  then have "sorted (map sequence (filter (\<lambda>e. \<not> (active_only \<and> finished_at e \<noteq> None)) (map snd (rg_entries r))))"
    by (rule sorted_filter)
  then show ?thesis unfolding registry_entries_def by (rule sort_key_id_if_sorted)
qed

lemma unfinished_not_reaped:
  "registry_get ident r = Some e \<Longrightarrow> finished_at e = None \<Longrightarrow> reachable r
    \<Longrightarrow> registry_get ident (registry_reap finished_at now ttl r) = Some e"
proof -
  assume g: "registry_get ident r = Some e" and f: "finished_at e = None" and r: "reachable r"
  have "distinct (map fst (rg_entries r))" using reachable_in_order [OF r] by (simp add: in_order_def)
  moreover have "(ident, e) \<in> set (rg_entries r)" using g by (simp add: registry_get_def map_of_SomeD)
  ultimately show ?thesis
    using f by (auto simp: registry_get_def registry_reap_def distinct_map_filter intro!: map_of_is_SomeI)
qed

end

end
