(* ===== verification/Dobjd_Runs.thy ===== *)
theory Dobjd_Runs
  imports Driver_Settle Dobjd_Registry
begin

text \<open>
  The daemon's runs (\<open>services/dobjd\<close>: \<open>runs.rs\<close>, \<open>proof_jobs.rs\<close>, \<open>routes/wait.rs\<close>, and the event stream of
  \<open>routes/actions.rs\<close>): the state of one run with its stages, following a transaction through the
  event hub, and the worker that takes a run from proving to settlement. Instants are nanoseconds. What the driver and the
  event channel answer are arguments.
\<close>

section \<open>Progress of a run\<close>

datatype run_status = RQueued | RGenerateProof | RCommitting | RSucceeded | RFailed

datatype execution_phase = GenerateProof | Commit

datatype progress_status = PRunning | PDone | PFailed

datatype execution_stage =
    VerifyingInputs | LoadingModule | Building | Mining | Solving | Proving | Shrinking | WritingFiles | Submitting
  | AwaitingSynchronization

record stage_timing =
  st_stage :: execution_stage
  st_status :: progress_status
  st_started_at_ms :: nat
  st_elapsed_ms :: nat

record run_progress =
  rp_run_id :: string
  rp_phase :: execution_phase
  rp_status :: progress_status
  rp_message :: string
  rp_old_root :: "string option"
  rp_output_files :: "string list option"
  rp_output_status :: "object_status option"
  rp_input_files :: "string list option"
  rp_at_ms :: nat
  rp_stage :: "execution_stage option"
  rp_elapsed_ms :: nat

record run_result =
  rr_run_id :: string
  rr_old_root :: string
  rr_output_files :: "string list"
  rr_input_files :: "string list"

record run_inner =
  ri_status :: run_status
  ri_progress :: "run_progress list"
  ri_result :: "run_result option"
  ri_error :: "string option"
  ri_finished_at :: "nat option"
  ri_started_at_ms :: "nat option"
  ri_finished_at_ms :: "nat option"
  ri_stage_timings :: "stage_timing list"
  ri_stage_started :: "nat option"

definition run_new :: run_inner where
  "run_new = \<lparr> ri_status = RQueued, ri_progress = [], ri_result = None, ri_error = None, ri_finished_at = None,
     ri_started_at_ms = None, ri_finished_at_ms = None, ri_stage_timings = [], ri_stage_started = None \<rparr>"

record run_entry =
  re_run_id :: string
  re_action :: qualified_name
  re_input_object_paths :: "string list"
  re_created_at_ms :: nat
  re_created_at :: nat
  re_sequence :: nat
  re_inner :: run_inner

definition run_entry_new :: "string \<Rightarrow> qualified_name \<Rightarrow> string list \<Rightarrow> nat \<Rightarrow> nat \<Rightarrow> nat \<Rightarrow> run_entry" where
  "run_entry_new run_id action paths now_ms now sequence =
     \<lparr> re_run_id = run_id, re_action = action, re_input_object_paths = paths, re_created_at_ms = now_ms, re_created_at = now,
       re_sequence = sequence, re_inner = run_new \<rparr>"

text \<open>\<open>now.duration_since(started).as_millis() as u64\<close>; an instant before \<open>started\<close> counts as zero.\<close>

definition elapsed_since :: "nat \<Rightarrow> nat \<Rightarrow> nat" where
  "elapsed_since started now = (now - started) div 1000000 mod 2 ^ 64"

definition get_or_insert :: "'a \<Rightarrow> 'a option \<Rightarrow> 'a option" where
  "get_or_insert x y = (case y of None \<Rightarrow> Some x | Some z \<Rightarrow> Some z)"

definition finish_stage :: "progress_status \<Rightarrow> nat \<Rightarrow> run_inner \<Rightarrow> (string, run_inner) outcome" where
  "finish_stage st now r =
     (case ri_stage_started r of
        None \<Rightarrow> Ok r
      | Some started \<Rightarrow>
          if ri_stage_timings r = [] then Panic
          else Ok (r\<lparr> ri_stage_started := None,
                      ri_stage_timings := butlast (ri_stage_timings r)
                        @ [(last (ri_stage_timings r))\<lparr> st_elapsed_ms := elapsed_since started now, st_status := st \<rparr>] \<rparr>))"

definition begin_stage :: "execution_stage \<Rightarrow> nat \<Rightarrow> nat \<Rightarrow> run_inner \<Rightarrow> (string, run_inner) outcome" where
  "begin_stage stage now at_ms r =
     (if ri_stage_started r \<noteq> None \<and> ri_stage_timings r \<noteq> [] \<and> st_stage (last (ri_stage_timings r)) = stage then Ok r
      else obind (finish_stage PDone now r) (\<lambda>r.
        Ok (r\<lparr> ri_stage_timings := ri_stage_timings r
                 @ [\<lparr> st_stage = stage, st_status = PRunning, st_started_at_ms = at_ms, st_elapsed_ms = 0 \<rparr>],
               ri_stage_started := Some now \<rparr>)))"

definition timings_at :: "nat \<Rightarrow> run_inner \<Rightarrow> (string, stage_timing list) outcome" where
  "timings_at now r =
     (case ri_stage_started r of
        None \<Rightarrow> Ok (ri_stage_timings r)
      | Some started \<Rightarrow>
          if ri_stage_timings r = [] then Panic
          else Ok (butlast (ri_stage_timings r) @ [(last (ri_stage_timings r))\<lparr> st_elapsed_ms := elapsed_since started now \<rparr>]))"

fun status_of_phase :: "execution_phase \<Rightarrow> run_status" where
  "status_of_phase GenerateProof = RGenerateProof"
| "status_of_phase Commit = RCommitting"

text \<open>The mutators assert that the run is in flight.\<close>

definition push_progress :: "nat \<Rightarrow> nat \<Rightarrow> run_progress \<Rightarrow> run_inner \<Rightarrow> (string, run_progress \<times> run_inner) outcome" where
  "push_progress created now progress r =
     (if ri_finished_at r \<noteq> None then Panic
      else let p = progress\<lparr> rp_elapsed_ms := elapsed_since created now \<rparr>;
               r1 = r\<lparr> ri_status := status_of_phase (rp_phase progress),
                       ri_started_at_ms := get_or_insert (rp_at_ms progress) (ri_started_at_ms r) \<rparr>
           in obind (case rp_stage p of None \<Rightarrow> Ok r1 | Some stage \<Rightarrow> begin_stage stage now (rp_at_ms p) r1) (\<lambda>r2.
              obind (if rp_status p \<noteq> PRunning then finish_stage (rp_status p) now r2 else Ok r2) (\<lambda>r3.
              Ok (p, r3\<lparr> ri_progress := ri_progress r3 @ [p] \<rparr>))))"

definition run_succeed :: "nat \<Rightarrow> nat \<Rightarrow> run_result \<Rightarrow> run_inner \<Rightarrow> (string, run_inner) outcome" where
  "run_succeed now now_ms result r =
     (if ri_finished_at r \<noteq> None then Panic
      else obind (finish_stage PDone now (r\<lparr> ri_status := RSucceeded, ri_result := Some result \<rparr>)) (\<lambda>r.
        Ok (r\<lparr> ri_finished_at := Some now, ri_finished_at_ms := Some now_ms \<rparr>)))"

definition run_fail ::
    "string \<Rightarrow> nat \<Rightarrow> nat \<Rightarrow> nat \<Rightarrow> string \<Rightarrow> run_inner \<Rightarrow> (string, run_progress \<times> run_inner) outcome" where
  "run_fail run_id created now now_ms message r =
     (if ri_finished_at r \<noteq> None then Panic
      else let phase = (if ri_status r = RCommitting then Commit else GenerateProof);
               stage = (case ri_stage_started r of
                          None \<Rightarrow> None
                        | Some _ \<Rightarrow> if ri_stage_timings r = [] then None else Some (st_stage (last (ri_stage_timings r))))
           in obind (finish_stage PFailed now r) (\<lambda>r1.
                let event = \<lparr> rp_run_id = run_id, rp_phase = phase, rp_status = PFailed, rp_message = message, rp_old_root = None,
                              rp_output_files = None, rp_output_status = None, rp_input_files = None, rp_at_ms = now_ms,
                              rp_stage = stage, rp_elapsed_ms = elapsed_since created now \<rparr>
                in Ok (event, r1\<lparr> ri_started_at_ms := get_or_insert now_ms (ri_started_at_ms r1),
                                 ri_progress := ri_progress r1 @ [event], ri_status := RFailed, ri_error := Some message,
                                 ri_finished_at := Some now, ri_finished_at_ms := Some now_ms \<rparr>)))"

text \<open>The events from an index on, each with its index, and whether the run is finished.\<close>

definition events_from :: "nat \<Rightarrow> run_inner \<Rightarrow> (nat \<times> run_progress) list \<times> bool" where
  "events_from from r = (drop from (enumerate 0 (ri_progress r)), ri_finished_at r \<noteq> None)"

section \<open>The event stream of a run (routes/actions.rs)\<close>

text \<open>The argument is the text of the \<open>last-event-id\<close> header, when the request has one that is text: a number that fits
  a \<open>usize\<close> is increased without wrapping, anything else starts at the beginning.\<close>

definition resume_start_index :: "string option \<Rightarrow> nat" where
  "resume_start_index header =
     (case Option.bind header (parse_unsigned (2 ^ 64)) of None \<Rightarrow> 0 | Some n \<Rightarrow> min (n + 1) (2 ^ 64 - 1))"

text \<open>One list element per poll of the run's log; the stream ends after the poll that sees the run finished.\<close>

fun run_events :: "nat \<Rightarrow> run_inner list \<Rightarrow> (nat \<times> run_progress) list" where
  "run_events next [] = []"
| "run_events next (r # polls) =
     (case events_from next r of
        (events, terminal) \<Rightarrow>
          events @ (if terminal then [] else run_events (if events = [] then next else fst (last events) + 1) polls))"

section \<open>Events and following (events.rs, state.rs, routes/wait.rs)\<close>

datatype ('h, 's) event =
    RunActionProgress run_progress | ProofJob 's | Transaction "'h transaction_record" | TransactionDeleted 'h
  | TransactionPruned 'h | ObjectEvent "'h object_summary" | ObjectRemoved string

record ('h, 's) event_hub =
  hub_next_seq :: nat
  hub_sent :: "(nat \<times> ('h, 's) event) list"

definition hub_new :: "('h, 's) event_hub" where
  "hub_new = \<lparr> hub_next_seq = 1, hub_sent = [] \<rparr>"

definition hub_publish :: "('h, 's) event \<Rightarrow> ('h, 's) event_hub \<Rightarrow> ('h, 's) event_hub" where
  "hub_publish ev hub = hub\<lparr> hub_sent := hub_sent hub @ [(hub_next_seq hub, ev)], hub_next_seq := hub_next_seq hub + 1 \<rparr>"

definition transaction_event :: "('h \<Rightarrow> string) \<Rightarrow> 'h \<Rightarrow> ('h, 's) event \<Rightarrow> (string, 'h transaction_record option) outcome" where
  "transaction_event hex txf ev =
     (case ev of
        Transaction r \<Rightarrow> if t_final r = txf then Ok (Some r) else Ok None
      | TransactionDeleted h \<Rightarrow> if h = txf then Err (''transaction '' @ hex txf @ '' was deleted'') else Ok None
      | TransactionPruned h \<Rightarrow> if h = txf then Err (''transaction '' @ hex txf @ '' is no longer retained'') else Ok None
      | _ \<Rightarrow> Ok None)"

text \<open>What the receiver of the channel gives: an event, a notice that events were dropped, the end of the channel, or the
  deadline. The list ends where nothing has been received yet. \<open>reads k\<close> is the answer of the \<open>k\<close>-th read.\<close>

datatype 'ev received = Got 'ev | Lagged | Closed | Elapsed

fun follow ::
    "(nat \<Rightarrow> (string, 't) outcome) \<Rightarrow> ('t \<Rightarrow> bool) \<Rightarrow> ('ev \<Rightarrow> 's \<Rightarrow> (string, 't option) outcome \<times> 's)
     \<Rightarrow> nat \<Rightarrow> 'ev received list \<Rightarrow> 't \<Rightarrow> 's \<Rightarrow> ((string, 't) outcome \<times> 's) option" where
  "follow reads is_done from_event k [] current s = (if is_done current then Some (Ok current, s) else None)"
| "follow reads is_done from_event k (rcv # rest) current s =
     (if is_done current then Some (Ok current, s)
      else case rcv of
             Got ev \<Rightarrow>
               (case from_event ev s of
                  (Ok (Some t), s') \<Rightarrow> follow reads is_done from_event k rest t s'
                | (Ok None, s') \<Rightarrow> follow reads is_done from_event k rest current s'
                | (Err e, s') \<Rightarrow> Some (Err e, s')
                | (Panic, s') \<Rightarrow> Some (Panic, s'))
           | Lagged \<Rightarrow>
               (case reads k of
                  Ok t \<Rightarrow> follow reads is_done from_event (Suc k) rest t s
                | Err e \<Rightarrow> Some (Err e, s)
                | Panic \<Rightarrow> Some (Panic, s))
           | Closed \<Rightarrow> Some (Err ''event hub closed'', s)
           | Elapsed \<Rightarrow> Some (reads k, s))"

definition follow_from ::
    "(nat \<Rightarrow> (string, 't) outcome) \<Rightarrow> ('t \<Rightarrow> bool) \<Rightarrow> ('ev \<Rightarrow> 's \<Rightarrow> (string, 't option) outcome \<times> 's)
     \<Rightarrow> 'ev received list \<Rightarrow> 's \<Rightarrow> ((string, 't) outcome \<times> 's) option" where
  "follow_from reads is_done from_event rcv s =
     (case reads 0 of
        Ok t \<Rightarrow> follow reads is_done from_event 1 rcv t s
      | Err e \<Rightarrow> Some (Err e, s)
      | Panic \<Rightarrow> Some (Panic, s))"

definition MAX_WAIT_MS :: nat where
  "MAX_WAIT_MS = 120000"

definition DEFAULT_WAIT_MS :: nat where
  "DEFAULT_WAIT_MS = 30000"

definition wait_timeout :: "nat option \<Rightarrow> nat" where
  "wait_timeout timeout_ms = min (case timeout_ms of None \<Rightarrow> DEFAULT_WAIT_MS | Some t \<Rightarrow> t) MAX_WAIT_MS"

definition wait_until ::
    "bool \<Rightarrow> (nat \<Rightarrow> (string, 't) outcome) \<Rightarrow> ('t \<Rightarrow> bool) \<Rightarrow> ('ev \<Rightarrow> (string, 't option) outcome) \<Rightarrow> 'ev received list
     \<Rightarrow> (string, 't) outcome option" where
  "wait_until wait reads is_done from_event rcv =
     (if \<not> wait then Some (reads 0)
      else map_option fst (follow_from reads is_done (\<lambda>ev s. (from_event ev, s)) rcv ()))"

section \<open>The worker of a run\<close>

text \<open>Everything a run does is recorded at times the clock gives: the instant and the Unix time of the \<open>k\<close>-th event.\<close>

record 'h run_env =
  ev_run_id :: string
  ev_created_at :: nat
  ev_clock :: "nat \<Rightarrow> nat \<times> nat"
  ev_hex :: "'h \<Rightarrow> string"

definition emit :: "'h run_env \<Rightarrow> run_progress \<Rightarrow> run_inner \<Rightarrow> (string, run_inner) outcome" where
  "emit E progress r =
     (case ev_clock E (length (ri_progress r)) of (now, now_ms) \<Rightarrow>
        obind (push_progress (ev_created_at E) now (progress\<lparr> rp_at_ms := now_ms \<rparr>) r) (\<lambda>(p, r'). Ok r'))"

fun output_status_of :: "transaction_state \<Rightarrow> object_status" where
  "output_status_of TRecorded = OUnknown"
| "output_status_of TExpired = OUnknown"
| "output_status_of TSubmitted = OPending"
| "output_status_of TLanded = OLive"

definition transaction_progress ::
    "'h run_env \<Rightarrow> 'h transaction_record \<Rightarrow> progress_status \<Rightarrow> string \<Rightarrow> execution_stage option \<Rightarrow> run_inner
     \<Rightarrow> (string, run_inner) outcome" where
  "transaction_progress E record st message stage r =
     emit E \<lparr> rp_run_id = ev_run_id E, rp_phase = Commit, rp_status = st, rp_message = message,
              rp_old_root = Some (ev_hex E (t_grounding_root record)), rp_output_files = Some (t_output_files record),
              rp_output_status = Some (output_status_of (t_state record)), rp_input_files = Some (t_input_files record),
              rp_at_ms = 0, rp_stage = stage, rp_elapsed_ms = 0 \<rparr> r"

definition finish_landed :: "'h run_env \<Rightarrow> 'h transaction_record \<Rightarrow> run_inner \<Rightarrow> (string, run_inner) outcome" where
  "finish_landed E record r =
     obind (transaction_progress E record PDone ''Transaction landed'' None r) (\<lambda>r.
       case ev_clock E (length (ri_progress r)) of (now, now_ms) \<Rightarrow>
         run_succeed now now_ms \<lparr> rr_run_id = ev_run_id E, rr_old_root = ev_hex E (t_grounding_root record),
           rr_output_files = t_output_files record, rr_input_files = t_input_files record \<rparr> r)"

definition finish_failure :: "'h run_env \<Rightarrow> string \<Rightarrow> run_inner \<Rightarrow> (string, run_inner) outcome" where
  "finish_failure E message r =
     (case ev_clock E (length (ri_progress r)) of (now, now_ms) \<Rightarrow>
        obind (run_fail (ev_run_id E) (ev_created_at E) now now_ms message r) (\<lambda>(p, r'). Ok r'))"

definition PREFLIGHT_RETRIES :: nat where
  "PREFLIGHT_RETRIES = 2"

definition waiting_message :: "'h transaction_record \<Rightarrow> string" where
  "waiting_message record =
     (if t_relayer_failure record \<noteq> None then ''Waiting for the transaction to land or its grounding to expire''
      else ''Waiting for the transaction to land'')"

fun state_text :: "transaction_state \<Rightarrow> string" where
  "state_text TRecorded = ''recorded''"
| "state_text TSubmitted = ''submitted''"
| "state_text TLanded = ''landed''"
| "state_text TExpired = ''expired''"

definition accepted_message :: "'h transaction_record \<Rightarrow> string" where
  "accepted_message record =
     (case (t_state record, t_relayer_job_id record, t_relayer_failure record) of
        (TSubmitted, Some job, Some failure) \<Rightarrow> ''Relayer job '' @ job @ '' failed: '' @ failure
      | (TSubmitted, Some job, None) \<Rightarrow> ''Relayer accepted job '' @ job
      | (st, _, _) \<Rightarrow> ''Transaction '' @ state_text st)"

text \<open>The answers of one turn: the submission, with an error marked when it is a \<open>DriverError\<close>, and the record read after
  an error. \<open>answers h n\<close> are those of turn \<open>n\<close> when the driver is asked about the transaction with key \<open>h\<close>.\<close>

datatype 'h submission = Accepted "'h transaction_record" | SubmitError bool string

function submit_loop ::
    "'h run_env \<Rightarrow> ('h \<Rightarrow> nat \<Rightarrow> 'h submission \<times> (string, 'h transaction_record) outcome) \<Rightarrow> 'h \<Rightarrow> nat \<Rightarrow> run_inner
     \<Rightarrow> (string, (string, 'h transaction_record) outcome \<times> run_inner) outcome" where
  "submit_loop E answers txf preflight_retries r =
     (case answers txf preflight_retries of
        (Accepted submitted, _) \<Rightarrow>
          obind (transaction_progress E submitted PRunning (accepted_message submitted) (Some AwaitingSynchronization) r) (\<lambda>r.
            Ok (Ok submitted, r))
      | (SubmitError driver_error err, read) \<Rightarrow>
          (case read of
             Err e \<Rightarrow> Ok (Err e, r)
           | Panic \<Rightarrow> Ok (Panic, r)
           | Ok current \<Rightarrow>
               if t_state current = TRecorded \<and> t_submit_attempted_at_ms current = None
               then if driver_error then Ok (Err (''Submission refused: '' @ err), r)
                    else if preflight_retries < PREFLIGHT_RETRIES
                    then obind (transaction_progress E current PRunning
                                  (''Submission could not start: '' @ err @ ''; retrying ('' @ show_nat (preflight_retries + 1) @ ''/2)'')
                                  (Some Submitting) r) (\<lambda>r.
                           submit_loop E answers txf (preflight_retries + 1) r)
                    else Ok (Err (''Submission could not start: '' @ err @ ''. Transaction '' @ ev_hex E (t_final current)
                                  @ '' is recorded; retry with dobj submit '' @ ev_hex E (t_final current)), r)
               else obind (transaction_progress E current PRunning (''Relayer submission failed: '' @ err
                       @ ''; the daemon will retry while transaction is '' @ state_text (t_state current)) (Some Submitting) r) (\<lambda>r.
                      Ok (Ok current, r))))"
  by pat_completeness auto
termination
  by (relation "measure (\<lambda>(E, answers, txf, n, r). PREFLIGHT_RETRIES - n)") auto

definition submit_record ::
    "'h run_env \<Rightarrow> ('h \<Rightarrow> nat \<Rightarrow> 'h submission \<times> (string, 'h transaction_record) outcome) \<Rightarrow> 'h transaction_record \<Rightarrow> run_inner
     \<Rightarrow> (string, (string, 'h transaction_record) outcome \<times> run_inner) outcome" where
  "submit_record E answers record r =
     obind (transaction_progress E record PRunning ''Transaction recorded'' (Some WritingFiles) r) (\<lambda>r.
     obind (transaction_progress E record PRunning ''Submitting proof to relayer'' (Some Submitting) r) (\<lambda>r.
     obind (submit_loop E answers (t_final record) 0 r) (\<lambda>(staged, r).
       case staged of
         Ok record' \<Rightarrow>
           if is_open record'
           then obind (transaction_progress E record' PRunning (waiting_message record') (Some AwaitingSynchronization) r) (\<lambda>r.
                  Ok (Ok record', r))
           else Ok (Ok record', r)
       | _ \<Rightarrow> Ok (staged, r))))"

definition report_relayer_failure ::
    "'h run_env \<Rightarrow> 'h transaction_record \<Rightarrow> string option \<times> run_inner \<Rightarrow> (string, unit) outcome \<times> string option \<times> run_inner" where
  "report_relayer_failure E record s =
     (case s of (reported, r) \<Rightarrow>
        case t_relayer_failure record of
          None \<Rightarrow> (Ok (), s)
        | Some failure \<Rightarrow>
            if reported = Some failure then (Ok (), s)
            else case transaction_progress E record PRunning
                        (''Relayer job '' @ (case t_relayer_job_id record of Some j \<Rightarrow> j | None \<Rightarrow> ''?'') @ '' failed: '' @ failure @ ''. ''
                         @ waiting_message record) (Some AwaitingSynchronization) r of
                   Ok r' \<Rightarrow> (Ok (), Some failure, r')
                 | Err e \<Rightarrow> (Err e, Some failure, r)
                 | Panic \<Rightarrow> (Panic, Some failure, r))"

definition run_event ::
    "'h run_env \<Rightarrow> 'h \<Rightarrow> ('h, 'j) event \<Rightarrow> string option \<times> run_inner
     \<Rightarrow> (string, 'h transaction_record option) outcome \<times> string option \<times> run_inner" where
  "run_event E txf ev s =
     (case transaction_event (ev_hex E) txf ev of
        Ok (Some update) \<Rightarrow>
          if is_open update
          then (case report_relayer_failure E update s of
                  (Ok _, s') \<Rightarrow> (Ok (Some update), s')
                | (Err e, s') \<Rightarrow> (Err e, s')
                | (Panic, s') \<Rightarrow> (Panic, s'))
          else (Ok (Some update), s)
      | Ok None \<Rightarrow> (Ok None, s)
      | Err e \<Rightarrow> (Err e, s)
      | Panic \<Rightarrow> (Panic, s))"

fun emit_all :: "'h run_env \<Rightarrow> run_progress list \<Rightarrow> run_inner \<Rightarrow> (string, run_inner) outcome" where
  "emit_all E [] r = Ok r"
| "emit_all E (p # ps) r = obind (emit E p r) (emit_all E ps)"

text \<open>The end of a run whose transaction was followed to the answer \<open>settled\<close>.\<close>

definition run_settled ::
    "'h run_env \<Rightarrow> 'h transaction_record \<Rightarrow> (string, 'h transaction_record) outcome \<Rightarrow> run_inner \<Rightarrow> (string, run_inner) outcome" where
  "run_settled E record settled r =
     (case settled of
        Ok rec \<Rightarrow>
          (case t_state rec of
             TLanded \<Rightarrow> finish_landed E rec r
           | TExpired \<Rightarrow> finish_failure E (''transaction '' @ ev_hex E (t_final rec) @ '' expired without landing: ''
               @ (case t_reason rec of Some m \<Rightarrow> m | None \<Rightarrow> ''grounding aged out'')) r
           | _ \<Rightarrow> Panic)
      | Err e \<Rightarrow> finish_failure E (''lost track of transaction '' @ ev_hex E (t_final record) @ '': '' @ e) r
      | Panic \<Rightarrow> Panic)"

text \<open>A run from acceptance to its end: the steps of proving and recording with their result (a panic of the worker
  included), submission, following, and the final state. \<open>reads h k\<close> is the answer of the \<open>k\<close>-th read of the record with
  key \<open>h\<close>. \<open>None\<close> while the chain has not decided.\<close>

definition run_worker ::
    "'h run_env \<Rightarrow> run_progress list \<Rightarrow> (string, 'h transaction_record) outcome
     \<Rightarrow> ('h \<Rightarrow> nat \<Rightarrow> 'h submission \<times> (string, 'h transaction_record) outcome)
     \<Rightarrow> ('h \<Rightarrow> nat \<Rightarrow> (string, 'h transaction_record) outcome) \<Rightarrow> ('h, 'j) event received list \<Rightarrow> run_inner
     \<Rightarrow> (string, run_inner) outcome option" where
  "run_worker E steps proved answers reads rcv r0 =
     (case obind (emit_all E steps r0) (\<lambda>r.
             case proved of Ok record \<Rightarrow> submit_record E answers record r | _ \<Rightarrow> Ok (proved, r)) of
        Panic \<Rightarrow> Some Panic
      | Err e \<Rightarrow> Some (Err e)
      | Ok (Err e, r) \<Rightarrow> Some (finish_failure E e r)
      | Ok (Panic, r) \<Rightarrow> Some (finish_failure E ''run worker panicked'' r)
      | Ok (Ok record, r) \<Rightarrow>
          map_option (\<lambda>(settled, _, r). run_settled E record settled r)
            (follow_from (\<lambda>k. if tx_terminal (t_state record) then Ok record
                else case reads (t_final record) k of Panic \<Rightarrow> Err ''run transaction read task failed'' | x \<Rightarrow> x)
               (\<lambda>rec. tx_terminal (t_state rec)) (run_event E (t_final record)) rcv (t_relayer_failure record, r)))"

section \<open>Proof jobs (proof_jobs.rs)\<close>

datatype proof_job_status = JQueued | JProving | JRecording | JDone | JFailed

fun job_terminal :: "proof_job_status \<Rightarrow> bool" where
  "job_terminal JDone = True"
| "job_terminal JFailed = True"
| "job_terminal _ = False"

record 'h proof_job_entry =
  pj_job_id :: string
  pj_created_at_ms :: nat
  pj_sequence :: nat
  pj_status :: proof_job_status
  pj_message :: "string option"
  pj_tx_final :: "'h option"
  pj_error :: "string option"
  pj_started_at_ms :: "nat option"
  pj_finished_at_ms :: "nat option"
  pj_finished_at :: "nat option"

definition proof_job_new :: "string \<Rightarrow> nat \<Rightarrow> nat \<Rightarrow> 'h proof_job_entry" where
  "proof_job_new ident now_ms sequence =
     \<lparr> pj_job_id = ident, pj_created_at_ms = now_ms, pj_sequence = sequence, pj_status = JQueued, pj_message = None, pj_tx_final = None,
       pj_error = None, pj_started_at_ms = None, pj_finished_at_ms = None, pj_finished_at = None \<rparr>"

definition job_progress :: "execution_phase \<Rightarrow> string \<Rightarrow> nat \<Rightarrow> 'h proof_job_entry \<Rightarrow> (string, 'h proof_job_entry) outcome" where
  "job_progress phase message now_ms j =
     (if pj_finished_at j \<noteq> None then Panic
      else Ok (j\<lparr> pj_status := (case phase of GenerateProof \<Rightarrow> JProving | Commit \<Rightarrow> JRecording), pj_message := Some message,
                  pj_started_at_ms := get_or_insert now_ms (pj_started_at_ms j) \<rparr>))"

definition job_finish ::
    "(string, 'h transaction_record) outcome \<Rightarrow> nat \<Rightarrow> nat \<Rightarrow> 'h proof_job_entry \<Rightarrow> (string, 'h proof_job_entry) outcome" where
  "job_finish joined now now_ms j =
     (if pj_finished_at j \<noteq> None then Panic
      else let j1 = (case joined of
                       Ok rec \<Rightarrow> j\<lparr> pj_status := JDone, pj_tx_final := Some (t_final rec), pj_message := Some ''Transaction recorded'' \<rparr>
                     | Err e \<Rightarrow> j\<lparr> pj_status := JFailed, pj_error := Some e \<rparr>
                     | Panic \<Rightarrow> j\<lparr> pj_status := JFailed, pj_error := Some ''proof worker panicked'' \<rparr>)
           in Ok (j1\<lparr> pj_started_at_ms := get_or_insert now_ms (pj_started_at_ms j1), pj_finished_at_ms := Some now_ms,
                       pj_finished_at := Some now \<rparr>))"

text \<open>The worker: the steps the driver reports, at the times given, and the end.\<close>

fun job_worker ::
    "(execution_phase \<times> string \<times> nat) list \<Rightarrow> (string, 'h transaction_record) outcome \<Rightarrow> nat \<Rightarrow> nat \<Rightarrow> 'h proof_job_entry
     \<Rightarrow> (string, 'h proof_job_entry) outcome" where
  "job_worker [] joined now now_ms j = job_finish joined now now_ms j"
| "job_worker ((phase, message, at_ms) # steps) joined now now_ms j =
     obind (job_progress phase message at_ms j) (job_worker steps joined now now_ms)"

end
