(* ===== verification/Dobjd_Run_Properties.thy ===== *)
theory Dobjd_Run_Properties
  imports Dobjd_Runs Driver_Exclusive "HOL-Library.Sublist"
begin

text \<open>
  Properties of runs: stages are consistent, mutators do not panic while a run is in flight and refuse a finished one, a run
  ends exactly once and with the outcome of its transaction, and the event stream of a run delivers its log exactly
  once and in order.
\<close>

section \<open>A run in flight\<close>

text \<open>Exactly the last stage is running, and only while a stage is open.\<close>

definition stages_ok :: "stage_timing list \<Rightarrow> nat option \<Rightarrow> bool" where
  "stages_ok ts started \<longleftrightarrow>
     (case started of
        None \<Rightarrow> (\<forall>t \<in> set ts. st_status t \<noteq> PRunning)
      | Some _ \<Rightarrow> ts \<noteq> [] \<and> st_status (last ts) = PRunning \<and> (\<forall>t \<in> set (butlast ts). st_status t \<noteq> PRunning))"

definition run_wf :: "run_inner \<Rightarrow> bool" where
  "run_wf r \<longleftrightarrow> stages_ok (ri_stage_timings r) (ri_stage_started r)
     \<and> (ri_finished_at r \<noteq> None \<longleftrightarrow> ri_status r \<in> {RSucceeded, RFailed})
     \<and> (ri_finished_at_ms r = None \<longleftrightarrow> ri_finished_at r = None)
     \<and> (ri_result r \<noteq> None \<longleftrightarrow> ri_status r = RSucceeded) \<and> (ri_error r \<noteq> None \<longleftrightarrow> ri_status r = RFailed)
     \<and> (ri_finished_at r \<noteq> None \<longrightarrow> ri_stage_started r = None)
     \<and> (ri_started_at_ms r = None \<longleftrightarrow> ri_progress r = []) \<and> (ri_status r = RQueued \<longleftrightarrow> ri_progress r = [])"

abbreviation in_flight :: "run_inner \<Rightarrow> bool" where
  "in_flight r \<equiv> run_wf r \<and> ri_finished_at r = None"

lemma finish_stage_ok:
  assumes "stages_ok (ri_stage_timings r) (ri_stage_started r)" and "st \<noteq> PRunning"
  shows "\<exists>ts. finish_stage st now r = Ok (r\<lparr> ri_stage_started := None, ri_stage_timings := ts \<rparr>) \<and> stages_ok ts None"
proof (cases "ri_stage_started r")
  case None
  then have "finish_stage st now r = Ok (r\<lparr> ri_stage_started := None, ri_stage_timings := ri_stage_timings r \<rparr>)"
    by (simp add: finish_stage_def)
  moreover have "stages_ok (ri_stage_timings r) None" using assms(1) None by simp
  ultimately show ?thesis by blast
next
  case (Some started)
  let ?ts = "butlast (ri_stage_timings r) @ [(last (ri_stage_timings r))\<lparr> st_elapsed_ms := elapsed_since started now, st_status := st \<rparr>]"
  have "finish_stage st now r = Ok (r\<lparr> ri_stage_started := None, ri_stage_timings := ?ts \<rparr>)" "stages_ok ?ts None"
    using assms Some by (auto simp: finish_stage_def stages_ok_def)
  then show ?thesis by blast
qed

lemma begin_stage_ok:
  assumes "stages_ok (ri_stage_timings r) (ri_stage_started r)"
  shows "\<exists>ts x. begin_stage stage now at_ms r = Ok (r\<lparr> ri_stage_started := x, ri_stage_timings := ts \<rparr>) \<and> stages_ok ts x"
proof (cases "ri_stage_started r \<noteq> None \<and> ri_stage_timings r \<noteq> [] \<and> st_stage (last (ri_stage_timings r)) = stage")
  case True
  then have "begin_stage stage now at_ms r = Ok (r\<lparr> ri_stage_started := ri_stage_started r, ri_stage_timings := ri_stage_timings r \<rparr>)"
    by (simp add: begin_stage_def)
  then show ?thesis using assms by blast
next
  case False
  obtain ts where ts: "finish_stage PDone now r = Ok (r\<lparr> ri_stage_started := None, ri_stage_timings := ts \<rparr>)" "stages_ok ts None"
    using finish_stage_ok [OF assms, of PDone now] by auto
  let ?ts = "ts @ [\<lparr> st_stage = stage, st_status = PRunning, st_started_at_ms = at_ms, st_elapsed_ms = 0 \<rparr>]"
  have "begin_stage stage now at_ms r = Ok (r\<lparr> ri_stage_started := Some now, ri_stage_timings := ?ts \<rparr>)"
    unfolding begin_stage_def if_not_P [OF False] ts(1) by simp
  moreover have "stages_ok ?ts (Some now)" using ts(2) by (simp add: stages_ok_def)
  ultimately show ?thesis by blast
qed

lemma push_progress_ok:
  assumes "in_flight r"
  shows "\<exists>q r'. push_progress created now p r = Ok (q, r') \<and> in_flight r' \<and> ri_progress r' = ri_progress r @ [q]"
proof -
  let ?p = "p\<lparr> rp_elapsed_ms := elapsed_since created now \<rparr>"
  let ?r1 = "r\<lparr> ri_status := status_of_phase (rp_phase p), ri_started_at_ms := get_or_insert (rp_at_ms p) (ri_started_at_ms r) \<rparr>"
  have s1: "stages_ok (ri_stage_timings ?r1) (ri_stage_started ?r1)" using assms by (simp add: run_wf_def)
  obtain ts x where b: "(case rp_stage ?p of None \<Rightarrow> Ok ?r1 | Some stage \<Rightarrow> begin_stage stage now (rp_at_ms ?p) ?r1)
      = Ok (?r1\<lparr> ri_stage_started := x, ri_stage_timings := ts \<rparr>)" "stages_ok ts x"
  proof (cases "rp_stage p")
    case None
    then show ?thesis using that [of "ri_stage_timings ?r1" "ri_stage_started ?r1"] s1 by simp
  next
    case (Some stage)
    then show ?thesis using that begin_stage_ok [OF s1, of stage now "rp_at_ms p"] by auto
  qed
  let ?r2 = "?r1\<lparr> ri_stage_started := x, ri_stage_timings := ts \<rparr>"
  obtain ts' x' where f: "(if rp_status ?p \<noteq> PRunning then finish_stage (rp_status ?p) now ?r2 else Ok ?r2)
      = Ok (?r2\<lparr> ri_stage_started := x', ri_stage_timings := ts' \<rparr>)" "stages_ok ts' x'"
  proof (cases "rp_status p = PRunning")
    case True
    then show ?thesis using that [of ts x] b(2) by simp
  next
    case False
    then show ?thesis using that finish_stage_ok [of ?r2 "rp_status p" now] b(2) by auto
  qed
  let ?r3 = "?r2\<lparr> ri_stage_started := x', ri_stage_timings := ts', ri_progress := ri_progress r @ [?p] \<rparr>"
  have "push_progress created now p r = Ok (?p, ?r3)"
    using assms b(1) f(1) by (simp add: push_progress_def Let_def del: obind_Ok_iff)
  moreover have "status_of_phase (rp_phase p) \<notin> {RQueued, RSucceeded, RFailed}" by (cases "rp_phase p") auto
  then have "in_flight ?r3" using assms f(2) by (auto simp: run_wf_def get_or_insert_def split: option.splits)
  ultimately show ?thesis by fastforce
qed

lemma run_succeed_ok:
  assumes "in_flight r" and "ri_progress r \<noteq> []"
  shows "\<exists>r'. run_succeed now now_ms result r = Ok r' \<and> run_wf r' \<and> ri_finished_at r' \<noteq> None \<and> ri_status r' = RSucceeded
    \<and> ri_result r' = Some result \<and> ri_progress r' = ri_progress r"
proof -
  let ?r = "r\<lparr> ri_status := RSucceeded, ri_result := Some result \<rparr>"
  have "stages_ok (ri_stage_timings ?r) (ri_stage_started ?r)" using assms(1) by (simp add: run_wf_def)
  then obtain ts where ts: "finish_stage PDone now ?r = Ok (?r\<lparr> ri_stage_started := None, ri_stage_timings := ts \<rparr>)" "stages_ok ts None"
    using finish_stage_ok [of ?r PDone now] by auto
  have "run_succeed now now_ms result r
      = Ok (?r\<lparr> ri_stage_started := None, ri_stage_timings := ts, ri_finished_at := Some now, ri_finished_at_ms := Some now_ms \<rparr>)"
    using assms(1) ts(1) by (simp add: run_succeed_def del: obind_Ok_iff)
  then show ?thesis using assms ts(2) by (auto simp: run_wf_def)
qed

lemma run_fail_ok:
  assumes "in_flight r"
  shows "\<exists>q r'. run_fail run_id created now now_ms message r = Ok (q, r') \<and> run_wf r' \<and> ri_finished_at r' \<noteq> None
    \<and> ri_status r' = RFailed \<and> ri_error r' = Some message \<and> ri_progress r' = ri_progress r @ [q]"
proof -
  have "stages_ok (ri_stage_timings r) (ri_stage_started r)" using assms by (simp add: run_wf_def)
  then obtain ts where ts: "finish_stage PFailed now r = Ok (r\<lparr> ri_stage_started := None, ri_stage_timings := ts \<rparr>)" "stages_ok ts None"
    using finish_stage_ok [of r PFailed now] by auto
  have fin: "ri_finished_at r = None" using assms by simp
  show ?thesis
    unfolding run_fail_def Let_def fin ts(1) obind.simps
    using assms ts(2) by (auto simp: run_wf_def get_or_insert_def split: option.splits)
qed

lemma run_new_in_flight: "in_flight run_new"
  by (simp add: run_new_def run_wf_def stages_ok_def)

section \<open>Steps and the log\<close>

inductive run_step :: "run_inner \<Rightarrow> run_inner \<Rightarrow> bool" where
  progress: "push_progress created now p r = Ok (q, r') \<Longrightarrow> run_step r r'"
| succeed: "run_succeed now now_ms result r = Ok r' \<Longrightarrow> ri_progress r \<noteq> [] \<Longrightarrow> run_step r r'"
| fail: "run_fail run_id created now now_ms message r = Ok (q, r') \<Longrightarrow> run_step r r'"

lemma run_step_in_flight: "run_step r r' \<Longrightarrow> ri_finished_at r = None"
  by (auto simp: push_progress_def run_succeed_def run_fail_def elim!: run_step.cases split: if_splits)

lemma run_step_wf:
  assumes "run_step r r'" and "run_wf r"
  shows "run_wf r' \<and> prefix (ri_progress r) (ri_progress r')"
proof -
  have fl: "in_flight r" using assms run_step_in_flight by simp
  show ?thesis
    using assms(1)
  proof cases
    case (progress created now p q)
    then show ?thesis using push_progress_ok [OF fl, of created now p] by auto
  next
    case (succeed now now_ms result)
    then show ?thesis using run_succeed_ok [OF fl, of now now_ms result] by auto
  next
    case (fail run_id created now now_ms message q)
    then show ?thesis using run_fail_ok [OF fl, of run_id created now now_ms message] by auto
  qed
qed

lemma run_steps_wf:
  assumes "run_step\<^sup>*\<^sup>* r r'" and "run_wf r"
  shows "run_wf r' \<and> prefix (ri_progress r) (ri_progress r') \<and> (ri_finished_at r \<noteq> None \<longrightarrow> r' = r)"
  using assms
proof (induction rule: rtranclp_induct)
  case (step y z)
  then show ?case
    using run_step_wf [of y z] run_step_in_flight [of y z] prefix_order.trans by (metis option.distinct(1))
qed simp

section \<open>The worker\<close>

lemma emit_ok: "in_flight r \<Longrightarrow> \<exists>r'. emit E p r = Ok r' \<and> in_flight r' \<and> ri_progress r' \<noteq> []"
  using push_progress_ok [of r "ev_created_at E"] by (cases "ev_clock E (length (ri_progress r))") (fastforce simp: emit_def)

lemma transaction_progress_ok:
  "in_flight r \<Longrightarrow> \<exists>r'. transaction_progress E record st message stage r = Ok r' \<and> in_flight r' \<and> ri_progress r' \<noteq> []"
  unfolding transaction_progress_def by (rule emit_ok)

lemma emit_all_ok: "in_flight r \<Longrightarrow> \<exists>r'. emit_all E ps r = Ok r' \<and> in_flight r'"
proof (induction E ps r rule: emit_all.induct)
  case (2 E p ps r)
  then obtain r1 where "emit E p r = Ok r1" "in_flight r1" using emit_ok by blast
  then show ?case using "2.IH" [of r1] by auto
qed auto

lemma finish_landed_ok:
  assumes "in_flight r"
  shows "\<exists>r'. finish_landed E record r = Ok r' \<and> run_wf r' \<and> ri_finished_at r' \<noteq> None \<and> ri_status r' = RSucceeded
    \<and> map_option rr_output_files (ri_result r') = Some (t_output_files record)
    \<and> map_option rr_input_files (ri_result r') = Some (t_input_files record)"
proof -
  obtain r1 where r1: "transaction_progress E record PDone ''Transaction landed'' None r = Ok r1" "in_flight r1" "ri_progress r1 \<noteq> []"
    using transaction_progress_ok [OF assms] by blast
  obtain now now_ms where c: "ev_clock E (length (ri_progress r1)) = (now, now_ms)" by fastforce
  show ?thesis
    using run_succeed_ok [OF r1(2,3), of now now_ms "\<lparr> rr_run_id = ev_run_id E, rr_old_root = ev_hex E (t_grounding_root record),
        rr_output_files = t_output_files record, rr_input_files = t_input_files record \<rparr>"] r1(1) c
    by (auto simp: finish_landed_def)
qed

lemma finish_failure_ok:
  assumes "in_flight r"
  shows "\<exists>r'. finish_failure E message r = Ok r' \<and> run_wf r' \<and> ri_finished_at r' \<noteq> None \<and> ri_status r' = RFailed
    \<and> ri_error r' = Some message"
proof -
  obtain now now_ms where c: "ev_clock E (length (ri_progress r)) = (now, now_ms)" by fastforce
  show ?thesis
    using run_fail_ok [OF assms, of "ev_run_id E" "ev_created_at E" now now_ms message] c by (auto simp: finish_failure_def)
qed

lemma submit_loop_ok: "in_flight r \<Longrightarrow> \<exists>staged r'. submit_loop E answers txf n r = Ok (staged, r') \<and> in_flight r'"
proof (induction E answers txf n r rule: submit_loop.induct)
  case (1 E answers txf n r)
  note tp = transaction_progress_ok [OF "1.prems", of E]
  show ?case
  proof (cases "fst (answers txf n)")
    case (Accepted submitted)
    then show ?thesis
      using tp [of submitted PRunning "accepted_message submitted" "Some AwaitingSynchronization"] by (cases "answers txf n") auto
  next
    case (SubmitError de err)
    then have a: "answers txf n = (SubmitError de err, snd (answers txf n))" by (metis prod.collapse)
    show ?thesis
    proof (cases "\<exists>current. snd (answers txf n) = Ok current \<and> t_state current = TRecorded \<and> t_submit_attempted_at_ms current = None
        \<and> \<not> de \<and> n < PREFLIGHT_RETRIES")
      case True
      then obtain current where c: "snd (answers txf n) = Ok current" "t_state current = TRecorded" "t_submit_attempted_at_ms current = None"
        "\<not> de" "n < PREFLIGHT_RETRIES" by blast
      obtain r1 where r1: "transaction_progress E current PRunning
          (''Submission could not start: '' @ err @ ''; retrying ('' @ show_nat (n + 1) @ ''/2)'') (Some Submitting) r = Ok r1" "in_flight r1"
        using tp by blast
      have e: "submit_loop E answers txf n r = submit_loop E answers txf (n + 1) r1"
        using a c r1(1) by (subst submit_loop.simps) simp
      show ?thesis unfolding e using "1.IH" [OF a [symmetric] refl c(1) _ c(4,5) r1] c(2,3) by simp
    next
      case False
      show ?thesis
      proof (cases "snd (answers txf n)")
        case (Ok current)
        obtain r1 where "transaction_progress E current PRunning (''Relayer submission failed: '' @ err
            @ ''; the daemon will retry while transaction is '' @ state_text (t_state current)) (Some Submitting) r = Ok r1" "in_flight r1"
          using tp by blast
        then show ?thesis using a Ok False "1.prems" by (subst submit_loop.simps) auto
      qed (use a "1.prems" in \<open>subst submit_loop.simps; simp\<close>)+
    qed
  qed
qed

declare submit_loop.simps [simp del]

lemma submit_record_ok:
  assumes "in_flight r"
  shows "\<exists>staged r'. submit_record E answers record r = Ok (staged, r') \<and> in_flight r'"
proof -
  obtain r1 where r1: "transaction_progress E record PRunning ''Transaction recorded'' (Some WritingFiles) r = Ok r1" "in_flight r1"
    using transaction_progress_ok [OF assms] by blast
  obtain r2 where r2: "transaction_progress E record PRunning ''Submitting proof to relayer'' (Some Submitting) r1 = Ok r2" "in_flight r2"
    using transaction_progress_ok [OF r1(2)] by blast
  obtain staged r3 where r3: "submit_loop E answers (t_final record) 0 r2 = Ok (staged, r3)" "in_flight r3"
    using submit_loop_ok [OF r2(2), of E answers "t_final record" 0] by blast
  show ?thesis
  proof (cases staged)
    case (Ok tx')
    obtain r4 where "transaction_progress E tx' PRunning (waiting_message tx') (Some AwaitingSynchronization) r3 = Ok r4" "in_flight r4"
      using transaction_progress_ok [OF r3(2)] by blast
    then show ?thesis using r1(1) r2(1) r3 Ok by (simp add: submit_record_def)
  qed (use r1(1) r2(1) r3 in \<open>simp_all add: submit_record_def\<close>)
qed

text \<open>Following keeps an invariant of the state that events keep, and without a deadline returns only what is done.\<close>

lemma follow_invariant:
  assumes "follow reads is_done from_event k rcv current s = Some (res, s')" and "I s"
    and "\<And>ev s. I s \<Longrightarrow> I (snd (from_event ev s)) \<and> fst (from_event ev s) \<noteq> Panic" and "\<And>k. reads k \<noteq> Panic"
  shows "I s' \<and> res \<noteq> Panic \<and> (Elapsed \<notin> set rcv \<longrightarrow> (\<forall>t. res = Ok t \<longrightarrow> is_done t))"
  using assms(1,2)
proof (induction rcv arbitrary: k current s)
  case Nil
  then show ?case by (auto split: if_splits)
next
  case (Cons x rest)
  show ?case
  proof (cases "is_done current")
    case True
    then show ?thesis using Cons.prems by auto
  next
    case False
    show ?thesis
    proof (cases x)
      case (Got ev)
      obtain y s1 where y: "from_event ev s = (y, s1)" by fastforce
      then have i: "I s1" "y \<noteq> Panic" using assms(3) [OF Cons.prems(2), of ev] by simp_all
      show ?thesis
      proof (cases y)
        case (Ok t)
        then show ?thesis using Cons.IH i(1) Cons.prems(1) False Got y by (cases t) fastforce+
      qed (use i Cons.prems(1) False Got y in auto)
    next
      case Lagged
      then show ?thesis using Cons.IH [OF _ Cons.prems(2)] Cons.prems assms(4) [of k] False by (cases "reads k") fastforce+
    qed (use Cons.prems assms(4) False in auto)
  qed
qed

text \<open>What is returned was read, was in an event, or was there from the start.\<close>

lemma follow_source:
  "follow reads is_done from_event k rcv current s = Some (Ok t, s') \<Longrightarrow>
    t = current \<or> (\<exists>k. reads k = Ok t) \<or> (\<exists>ev s. Got ev \<in> set rcv \<and> fst (from_event ev s) = Ok (Some t))"
proof (induction rcv arbitrary: k current s)
  case (Cons x rest)
  show ?case
  proof (cases "is_done current")
    case False
    show ?thesis
    proof (cases x)
      case (Got ev)
      obtain y s1 where y: "from_event ev s = (y, s1)" by fastforce
      show ?thesis
      proof (cases y)
        case (Ok u)
        have "fst (from_event ev s) = Ok u" using y Ok by simp
        then show ?thesis using Cons.IH Cons.prems False Got y Ok by (cases u) fastforce+
      qed (use Cons.prems False Got y in auto)
    next
      case Lagged
      then show ?thesis using Cons.IH Cons.prems False by (cases "reads k") fastforce+
    qed (use Cons.prems False in auto)
  qed (use Cons.prems in auto)
qed (auto split: if_splits)

lemma follow_from_invariant:
  assumes "follow_from reads is_done from_event rcv s = Some (res, s')" and "I s"
    and "\<And>ev s. I s \<Longrightarrow> I (snd (from_event ev s)) \<and> fst (from_event ev s) \<noteq> Panic" and "\<And>k. reads k \<noteq> Panic"
  shows "I s' \<and> res \<noteq> Panic \<and> (Elapsed \<notin> set rcv \<longrightarrow> (\<forall>t. res = Ok t \<longrightarrow> is_done t))"
proof (cases "reads 0")
  case (Ok t)
  then have "follow reads is_done from_event 1 rcv t s = Some (res, s')" using assms(1) by (simp add: follow_from_def)
  then show ?thesis by (rule follow_invariant [OF _ assms(2-4)])
qed (use assms in \<open>auto simp: follow_from_def\<close>)

lemma follow_from_source:
  assumes "follow_from reads is_done from_event rcv s = Some (Ok t, s')"
  shows "(\<exists>k. reads k = Ok t) \<or> (\<exists>ev s. Got ev \<in> set rcv \<and> fst (from_event ev s) = Ok (Some t))"
proof (cases "reads 0")
  case (Ok u)
  then have "follow reads is_done from_event 1 rcv u s = Some (Ok t, s')" using assms by (simp add: follow_from_def)
  from follow_source [OF this] show ?thesis using Ok by metis
qed (use assms in \<open>auto simp: follow_from_def\<close>)

lemma run_event_source: "fst (run_event E txf ev s) = Ok (Some t) \<Longrightarrow> ev = Transaction t \<and> t_final t = txf"
  by (auto simp: run_event_def transaction_event_def split: event.splits if_splits outcome.splits option.splits prod.splits)

lemma submit_loop_source:
  "submit_loop E answers txf n r = Ok (Ok record, r') \<Longrightarrow> \<exists>k. fst (answers txf k) = Accepted record \<or> snd (answers txf k) = Ok record"
proof (induction E answers txf n r rule: submit_loop.induct)
  case (1 E answers txf n r)
  note prems = "1.prems" [unfolded submit_loop.simps [of E answers txf n r]]
  show ?case
  proof (cases "answers txf n")
    case (Pair sub rd)
    show ?thesis
    proof (cases sub)
      case (Accepted submitted)
      then show ?thesis using prems Pair by (auto intro: exI [of _ n])
    next
      case (SubmitError de err)
      note a = Pair [unfolded SubmitError]
      show ?thesis
      proof (cases rd)
        case (Ok current)
        show ?thesis
        proof (cases "t_state current = TRecorded \<and> t_submit_attempted_at_ms current = None")
          case True
          then have n: "\<not> de" "n < PREFLIGHT_RETRIES" using prems a Ok by (auto split: if_splits)
          then obtain r1 where t: "transaction_progress E current PRunning (''Submission could not start: '' @ err @ ''; retrying ('' @ show_nat (n + 1) @ ''/2)'')
              (Some Submitting) r = Ok r1" "submit_loop E answers txf (n + 1) r1 = Ok (Ok record, r')"
            using prems a Ok True by auto
          show ?thesis by (rule "1.IH" [OF a [symmetric] refl Ok True n t])
        next
          case False
          then show ?thesis using prems a Ok by (auto intro: exI [of _ n])
        qed
      qed (use prems a in auto)
    qed
  qed
qed

lemma submit_record_source:
  "submit_record E answers rec0 r = Ok (Ok record, r') \<Longrightarrow> \<exists>k. fst (answers (t_final rec0) k) = Accepted record \<or> snd (answers (t_final rec0) k) = Ok record"
proof -
  assume a: "submit_record E answers rec0 r = Ok (Ok record, r')"
  then obtain r2 staged r3 where l: "submit_loop E answers (t_final rec0) 0 r2 = Ok (staged, r3)"
    and c: "(case staged of Ok tx \<Rightarrow>
        if is_open tx then obind (transaction_progress E tx PRunning (waiting_message tx) (Some AwaitingSynchronization) r3) (\<lambda>r. Ok (Ok tx, r))
        else Ok (Ok tx, r3) | _ \<Rightarrow> Ok (staged, r3)) = Ok (Ok record, r')"
    by (auto simp: submit_record_def)
  have "staged = Ok record" using c by (cases staged) (auto split: if_splits)
  then show ?thesis using submit_loop_source [of E answers "t_final rec0" 0 r2 "record" r3] l by simp
qed

lemma run_event_ok:
  assumes "in_flight (snd s)"
  shows "in_flight (snd (snd (run_event E txf ev s))) \<and> fst (run_event E txf ev s) \<noteq> Panic"
proof -
  have rep: "\<exists>s'. report_relayer_failure E update s = (Ok (), s') \<and> in_flight (snd s')" for update
  proof -
    obtain reported r where s: "s = (reported, r)" by (cases s)
    show ?thesis
    proof (cases "t_relayer_failure update = None \<or> t_relayer_failure update = reported")
      case True
      then show ?thesis using s assms by (auto simp: report_relayer_failure_def split: option.splits)
    next
      case False
      then obtain failure where f: "t_relayer_failure update = Some failure" "reported \<noteq> Some failure" by auto
      have "in_flight r" using s assms by simp
      from transaction_progress_ok [OF this] obtain r' where
        "transaction_progress E update PRunning (''Relayer job '' @ (case t_relayer_job_id update of Some j \<Rightarrow> j | None \<Rightarrow> ''?'')
           @ '' failed: '' @ failure @ ''. '' @ waiting_message update) (Some AwaitingSynchronization) r = Ok r'" "in_flight r'"
        by blast
      then show ?thesis using s f by (simp add: report_relayer_failure_def)
    qed
  qed
  show ?thesis
  proof (cases "transaction_event (ev_hex E) txf ev")
    case (Ok u)
    show ?thesis
    proof (cases u)
      case (Some update)
      obtain s' where "report_relayer_failure E update s = (Ok (), s')" "in_flight (snd s')" using rep [of update] by blast
      then show ?thesis using Ok Some assms by (simp add: run_event_def)
    qed (use Ok assms in \<open>simp add: run_event_def\<close>)
  next
    case Panic
    then show ?thesis by (auto simp: transaction_event_def split: event.splits if_splits)
  qed (use assms in \<open>auto simp: run_event_def\<close>)
qed

text \<open>The end of a run whose transaction was followed to an answer.\<close>

lemma run_settled_ok:
  assumes "in_flight r0" and "settled \<noteq> Panic" and "\<forall>t. settled = Ok t \<longrightarrow> tx_terminal (t_state t)"
  shows "\<exists>r. run_settled E tx settled r0 = Ok r \<and> run_wf r \<and> ri_finished_at r \<noteq> None
    \<and> (ri_status r = RFailed \<and> ri_error r \<noteq> None
       \<or> ri_status r = RSucceeded \<and> (\<exists>record. settled = Ok record \<and> t_state record = TLanded
            \<and> map_option rr_output_files (ri_result r) = Some (t_output_files record)
            \<and> map_option rr_input_files (ri_result r) = Some (t_input_files record)))"
proof (cases settled)
  case (Ok rec)
  then show ?thesis
    using assms finish_landed_ok [OF assms(1), of E rec] finish_failure_ok [OF assms(1), of E]
    by (cases "t_state rec") (fastforce simp: run_settled_def)+
qed (use assms finish_failure_ok [OF assms(1), of E] in \<open>fastforce simp: run_settled_def\<close>)+

text \<open>The driver answers a question about a key with the record of that key: a submission that was accepted (or finds the
  transaction submitted already) and a read return what the store has there.\<close>

definition answers_own :: "('h \<Rightarrow> nat \<Rightarrow> 'h submission \<times> (string, 'h transaction_record) outcome) \<Rightarrow> bool" where
  "answers_own answers \<longleftrightarrow>
     (\<forall>h n rec. fst (answers h n) = Accepted rec \<or> snd (answers h n) = Ok rec \<longrightarrow> t_final rec = h)"

definition reads_own :: "('h \<Rightarrow> nat \<Rightarrow> (string, 'h transaction_record) outcome) \<Rightarrow> bool" where
  "reads_own reads \<longleftrightarrow> (\<forall>h k rec. reads h k = Ok rec \<longrightarrow> t_final rec = h)"

lemma driver_answers_own:
  assumes "txs_ok s"
  shows "read_record s h = Some rec \<Longrightarrow> t_final rec = h"
    and "submit_check L h head s = Ok (AlreadySubmitted rec) \<Longrightarrow> t_final rec = h"
    and "fst (submit_accept L now job failed h s) = Ok (rec, fresh) \<Longrightarrow> t_final rec = h"
proof -
  show own: "read_record s h = Some rec \<Longrightarrow> t_final rec = h" for rec using assms by (simp add: txs_ok_def)
  show "submit_check L h head s = Ok (AlreadySubmitted rec) \<Longrightarrow> t_final rec = h"
    using own by (auto simp: submit_check_def ok_or_def split: option.splits transaction_state.splits if_splits)
  show "fst (submit_accept L now job failed h s) = Ok (rec, fresh) \<Longrightarrow> t_final rec = h"
    using own by (auto simp: submit_accept_def update_record_def mark_submitted_def split: option.splits if_splits)
qed

text \<open>C27. Every run ends exactly once and truthfully. Whatever proving reports, however submission and the event channel
  answer, and even when the worker panics, no step of a run trips over its own assertions; when the run ends it is
  finished with consistent stages. It succeeds only when proving recorded a transaction and a record with that
  transaction's key was seen landed, in an answer of the driver about that key or in an event of the channel, and then with that
  record's outputs and inputs; otherwise it carries an error. The driver answers questions about a key with the record of
  that key; events of other transactions are in the channel as well.\<close>

theorem run_ends_truthfully:
  assumes "Elapsed \<notin> set rcv" and "answers_own answers" and "reads_own reads"
    and "run_worker E steps proved answers reads rcv run_new = Some res"
  shows "\<exists>r. res = Ok r \<and> run_wf r \<and> ri_finished_at r \<noteq> None
    \<and> (ri_status r = RFailed \<and> ri_error r \<noteq> None
       \<or> ri_status r = RSucceeded \<and> (\<exists>rec0 record. proved = Ok rec0 \<and> t_final record = t_final rec0 \<and> t_state record = TLanded
            \<and> map_option rr_output_files (ri_result r) = Some (t_output_files record)
            \<and> map_option rr_input_files (ri_result r) = Some (t_input_files record)
            \<and> ((\<exists>k. fst (answers (t_final rec0) k) = Accepted record \<or> snd (answers (t_final rec0) k) = Ok record
                     \<or> reads (t_final rec0) k = Ok record)
               \<or> Got (Transaction record) \<in> set rcv)))"
proof -
  obtain r1 where r1: "emit_all E steps run_new = Ok r1" "in_flight r1" using emit_all_ok [OF run_new_in_flight] by blast
  obtain staged r2 where r2: "(case proved of Ok record \<Rightarrow> submit_record E answers record r1 | _ \<Rightarrow> Ok (proved, r1)) = Ok (staged, r2)"
    "in_flight r2"
  proof (cases proved)
    case (Ok tx)
    then show ?thesis using submit_record_ok [OF r1(2), of E answers tx] that by auto
  qed (use r1(2) that in auto)
  note fail = finish_failure_ok [OF r2(2), of E]
  show ?thesis
  proof (cases staged)
    case (Ok tx)
    obtain rec0 where rec0: "proved = Ok rec0" "submit_record E answers rec0 r1 = Ok (Ok tx, r2)"
      using r2(1) Ok by (cases proved) auto
    have src: "\<exists>k. fst (answers (t_final rec0) k) = Accepted tx \<or> snd (answers (t_final rec0) k) = Ok tx"
      by (rule submit_record_source [OF rec0(2)])
    then have own: "t_final tx = t_final rec0" using assms(2) by (auto simp: answers_own_def)
    obtain settled rep r3 where f: "follow_from (\<lambda>k. if tx_terminal (t_state tx) then Ok tx
          else case reads (t_final tx) k of Panic \<Rightarrow> Err ''run transaction read task failed'' | x \<Rightarrow> x)
        (\<lambda>rec. tx_terminal (t_state rec)) (run_event E (t_final tx)) rcv (t_relayer_failure tx, r2) = Some (settled, rep, r3)"
      and res: "res = run_settled E tx settled r3"
      using assms(4) r1(1) r2(1) Ok by (auto simp: run_worker_def)
    have inv: "in_flight (snd (rep, r3)) \<and> settled \<noteq> Panic \<and> (Elapsed \<notin> set rcv \<longrightarrow> (\<forall>t. settled = Ok t \<longrightarrow> tx_terminal (t_state t)))"
      by (rule follow_from_invariant [where I = "\<lambda>s. in_flight (snd s)", OF f _ run_event_ok])
        (use r2(2) in \<open>simp_all split: outcome.splits\<close>)
    have landed: "t_final rec = t_final rec0 \<and> ((\<exists>k. fst (answers (t_final rec0) k) = Accepted rec
        \<or> snd (answers (t_final rec0) k) = Ok rec \<or> reads (t_final rec0) k = Ok rec) \<or> Got (Transaction rec) \<in> set rcv)"
      if "settled = Ok rec" for rec
      using follow_from_source [OF f [unfolded that]] src own assms(3) run_event_source
      by (fastforce simp: reads_own_def split: if_splits outcome.splits)
    show ?thesis
      unfolding res using run_settled_ok [of r3 settled E tx] inv assms(1) rec0(1) landed by fastforce
  next
    case (Err e)
    then show ?thesis using assms(4) r1(1) r2(1) fail [of e] by (auto simp: run_worker_def)
  next
    case Panic
    then show ?thesis using assms(4) r1(1) r2(1) fail [of "''run worker panicked''"] by (auto simp: run_worker_def)
  qed
qed

definition demo_env :: "nat run_env" where
  "demo_env = \<lparr> ev_run_id = ''r1'', ev_created_at = 0, ev_clock = (\<lambda>k. (1000000 * k, k)), ev_hex = (\<lambda>_. ''0x'') \<rparr>"

definition demo_tx :: "transaction_state \<Rightarrow> nat transaction_record" where
  "demo_tx st = (recorded 9 \<lparr> plugin_name = ''p'', qn_name = ''a'' \<rparr> ''r1'' [''in.dobj''] [''out.dobj''] 6 100 [] [] 0)\<lparr> t_state := st \<rparr>"

definition demo_answers :: "nat \<Rightarrow> nat \<Rightarrow> nat submission \<times> (string, nat transaction_record) outcome" where
  "demo_answers h n = (Accepted ((demo_tx TSubmitted)\<lparr> t_final := h \<rparr>), Panic)"

definition demo_reads :: "nat \<Rightarrow> nat \<Rightarrow> (string, nat transaction_record) outcome" where
  "demo_reads h k = Ok ((demo_tx TSubmitted)\<lparr> t_final := h \<rparr>)"

text \<open>The channel carries a landed transaction of another run before the run's own.\<close>

definition demo_rcv :: "(nat, unit) event received list" where
  "demo_rcv = [Got (Transaction ((demo_tx TLanded)\<lparr> t_final := 8, t_output_files := [''other.dobj''] \<rparr>)), Got (Transaction (demo_tx TLanded))]"

definition demo_run :: "(string, run_inner) outcome option" where
  "demo_run = run_worker demo_env [] (Ok (demo_tx TRecorded)) demo_answers demo_reads demo_rcv run_new"

theorem run_ends_truthfully_witness:
  "\<exists>r. demo_run = Some (Ok r) \<and> run_wf r \<and> ri_finished_at r \<noteq> None \<and> ri_status r = RSucceeded
    \<and> map_option rr_output_files (ri_result r) = Some [''out.dobj'']"
proof -
  have run: "\<exists>r. demo_run = Some (Ok r) \<and> ri_status r = RSucceeded"
    by (simp add: demo_run_def demo_answers_def demo_reads_def demo_rcv_def run_worker_def run_settled_def finish_landed_def
        run_succeed_def submit_record_def submit_loop.simps transaction_progress_def emit_def demo_env_def
        push_progress_def begin_stage_def finish_stage_def run_new_def follow_from_def run_event_def transaction_event_def demo_tx_def
        recorded_def report_relayer_failure_def is_open_def Let_def get_or_insert_def del: obind_Ok_iff)
  then obtain r where r: "demo_run = Some (Ok r)" "ri_status r = RSucceeded" by blast
  have "Elapsed \<notin> set demo_rcv" "answers_own demo_answers" "reads_own demo_reads"
    by (auto simp: demo_rcv_def answers_own_def demo_answers_def reads_own_def demo_reads_def)
  from run_ends_truthfully [OF this r(1) [unfolded demo_run_def]] obtain rec where
    w: "run_wf r" "ri_finished_at r \<noteq> None" "t_final rec = 9" "t_state rec = TLanded"
      "map_option rr_output_files (ri_result r) = Some (t_output_files rec)"
      "(\<exists>k. fst (demo_answers 9 k) = Accepted rec \<or> snd (demo_answers 9 k) = Ok rec \<or> demo_reads 9 k = Ok rec)
       \<or> Got (Transaction rec) \<in> set demo_rcv"
    using r(2) by (auto simp: demo_tx_def recorded_def)
  have "t_output_files rec = [''out.dobj'']"
    using w(3-4,6) by (auto simp: demo_answers_def demo_reads_def demo_rcv_def demo_tx_def recorded_def)
  then show ?thesis using r w by auto
qed

section \<open>The event stream\<close>

lemma drop_enumerate_prefix:
  assumes "prefix xs ys" and "n \<le> length xs"
  shows "drop n (enumerate 0 ys) = drop n (enumerate 0 xs) @ drop (length xs) (enumerate 0 ys)"
proof -
  obtain zs where ys: "ys = xs @ zs" using assms(1) by (auto simp: prefix_def)
  have "enumerate 0 ys = enumerate 0 xs @ enumerate (length xs) zs" unfolding ys by (simp add: enumerate_append_eq)
  then show ?thesis using assms(2) by (simp add: length_enumerate)
qed

lemma last_drop_enumerate:
  assumes "n < length xs"
  shows "drop n (enumerate 0 xs) \<noteq> []" and "fst (last (drop n (enumerate 0 xs))) = length xs - 1"
proof -
  show ne: "drop n (enumerate 0 xs) \<noteq> []" using assms by (simp add: length_enumerate)
  then have "last (drop n (enumerate 0 xs)) = last (enumerate 0 xs)" by (simp add: last_drop)
  also have "\<dots> = enumerate 0 xs ! (length xs - 1)"
    using assms last_conv_nth [of "enumerate 0 xs"] length_enumerate [of 0 xs] by fastforce
  also have "fst \<dots> = length xs - 1" using assms by (subst nth_enumerate_eq) auto
  finally show "fst (last (drop n (enumerate 0 xs))) = length xs - 1" .
qed

text \<open>From an index on, with the log polled while it grows: the polls after the one that sees the run finished are not made.\<close>

lemma run_events_from:
  assumes "polls \<noteq> []" and "successively run_step\<^sup>*\<^sup>* polls" and "run_wf (hd polls)" and "ri_finished_at (last polls) \<noteq> None"
  shows "run_events start (polls @ later) = drop start (enumerate 0 (ri_progress (last polls)))"
  using assms
proof (induction start polls rule: run_events.induct)
  case (2 start r polls)
  show ?case
  proof (cases "ri_finished_at r \<noteq> None")
    case True
    have "last (r # polls) = r"
      using "2.prems"(2-) True
    proof (induction polls arbitrary: r)
      case (Cons x xs)
      then have "x = r" using run_steps_wf [of r x] by auto
      then show ?case using Cons by auto
    qed simp
    then show ?thesis using True by (simp add: events_from_def)
  next
    case False
    then have ne: "polls \<noteq> []" using "2.prems"(4) by auto
    then obtain r1 where r1: "run_step\<^sup>*\<^sup>* r r1" "hd polls = r1" "successively run_step\<^sup>*\<^sup>* polls"
      using "2.prems"(2) by (cases polls) auto
    have wf: "run_wf (hd polls)" using run_steps_wf [OF r1(1)] "2.prems"(3) r1(2) by simp
    let ?ev = "drop start (enumerate 0 (ri_progress r))"
    let ?next = "if ?ev = [] then start else fst (last ?ev) + 1"
    have ih: "run_events ?next (polls @ later) = drop ?next (enumerate 0 (ri_progress (last polls)))"
      using "2.IH" [of ?ev False] ne wf r1(3) "2.prems"(4) False by (simp add: events_from_def)
    have pre: "prefix (ri_progress r) (ri_progress (last polls))"
    proof -
      have "prefix (ri_progress (hd ps)) (ri_progress (last ps))" if "successively run_step\<^sup>*\<^sup>* ps" "run_wf (hd ps)" "ps \<noteq> []" for ps
        using that
      proof (induction ps rule: induct_list012)
        case (3 x y zs)
        then show ?case using run_steps_wf [of x y] prefix_order.trans by fastforce
      qed auto
      from this [OF r1(3) wf ne] show ?thesis using run_steps_wf [OF r1(1)] "2.prems"(3) r1(2) prefix_order.trans by auto
    qed
    have "?ev @ drop ?next (enumerate 0 (ri_progress (last polls))) = drop start (enumerate 0 (ri_progress (last polls)))"
    proof (cases "start < length (ri_progress r)")
      case True
      then have "Suc (length (ri_progress r) - Suc 0) = length (ri_progress r)" by (cases "ri_progress r") simp_all
      then show ?thesis
        using True last_drop_enumerate [OF True] drop_enumerate_prefix [OF pre, of start] by simp
    next
      case False
      then show ?thesis by (simp add: length_enumerate)
    qed
    then show ?thesis using False ne ih by (simp add: events_from_def)
  qed
qed simp

text \<open>C30. The event stream of a run is complete, resumes and ends. A request without a \<open>last-event-id\<close> header
  starts at the first event of the log, one with the header \<open>n\<close> after event \<open>n\<close>. However often the log is polled
  while it grows, the stream delivers every event from there on exactly once, in order, with its index in the log
  as its id; and it ends with the poll that sees the run finished, whatever later polls would read.\<close>

theorem run_events_exact:
  assumes "polls \<noteq> []" and "successively run_step\<^sup>*\<^sup>* polls" and "run_wf (hd polls)" and "ri_finished_at (last polls) \<noteq> None"
    and "header = None \<and> k = 0 \<or> (\<exists>n < 2 ^ 64 - 1. header = Some (show_nat n) \<and> k = Suc n)"
  shows "run_events (resume_start_index header) (polls @ later) = drop k (enumerate 0 (ri_progress (last polls)))"
proof -
  have "resume_start_index header = k"
    using assms(5) parse_show_nat [of _ "2 ^ 64"] by (auto simp: resume_start_index_def)
  then show ?thesis using run_events_from [OF assms(1-4), of k later] by simp
qed

theorem run_events_exact_witness:
  "\<exists>r r'. run_events (resume_start_index None) [run_new, r, r'] = enumerate 0 (ri_progress r)
     \<and> run_events (resume_start_index (Some ''0'')) [run_new, r, r'] = [] \<and> length (ri_progress r) = 1 \<and> length (ri_progress r') = 2"
proof -
  obtain q r where r: "run_fail ''r1'' 0 5 7 ''worker lost'' run_new = Ok (q, r)" "ri_finished_at r \<noteq> None" "ri_progress r = ri_progress run_new @ [q]"
    using run_fail_ok [OF run_new_in_flight] by blast
  define r' where "r' = r\<lparr> ri_progress := ri_progress r @ [q] \<rparr>"
  have "run_step run_new r" using r(1) by (rule run_step.fail)
  then have polls: "successively run_step\<^sup>*\<^sup>* [run_new, r]" by auto
  have zero: "''0'' = show_nat 0" by code_simp
  have exact: "run_events (resume_start_index header) [run_new, r, r'] = drop k (enumerate 0 (ri_progress r))"
    if "header = None \<and> k = 0 \<or> (\<exists>n < 2 ^ 64 - 1. header = Some (show_nat n) \<and> k = Suc n)" for header k
    using run_events_exact [OF _ polls _ _ that, of "[r']"] run_new_in_flight r(2) by simp
  have "run_events (resume_start_index None) [run_new, r, r'] = drop 0 (enumerate 0 (ri_progress r))"
    by (rule exact) simp
  moreover have "run_events (resume_start_index (Some ''0'')) [run_new, r, r'] = drop (Suc 0) (enumerate 0 (ri_progress r))"
    by (rule exact) (use zero in auto)
  ultimately show ?thesis using r(3) by (intro exI [of _ r] exI [of _ r']) (simp add: run_new_def r'_def)
qed

section \<open>The registries\<close>

definition run_entry_step :: "run_entry \<Rightarrow> run_entry \<Rightarrow> bool" where
  "run_entry_step e e' \<longleftrightarrow> (\<exists>r. run_step (re_inner e) r \<and> e' = e\<lparr> re_inner := r \<rparr>)"

interpretation runs: retained re_sequence "\<lambda>e. ri_finished_at (re_inner e)" run_entry_step
  by unfold_locales (auto simp: run_entry_step_def dest: run_step_in_flight)

inductive job_step :: "'h proof_job_entry \<Rightarrow> 'h proof_job_entry \<Rightarrow> bool" where
  progress: "job_progress phase message now_ms j = Ok j' \<Longrightarrow> job_step j j'"
| finish: "job_finish joined now now_ms j = Ok j' \<Longrightarrow> job_step j j'"

interpretation jobs: retained pj_sequence pj_finished_at job_step
  by unfold_locales (auto simp: job_progress_def job_finish_def Let_def elim!: job_step.cases split: if_splits outcome.splits)

text \<open>Proof jobs end like runs: once, with the transaction or an error.\<close>

lemma job_worker_ends:
  "pj_finished_at j = None \<Longrightarrow> \<exists>j'. job_worker steps joined now now_ms j = Ok j' \<and> pj_finished_at j' = Some now
    \<and> (case joined of Ok rec \<Rightarrow> pj_status j' = JDone \<and> pj_tx_final j' = Some (t_final rec)
                    | _ \<Rightarrow> pj_status j' = JFailed \<and> pj_error j' \<noteq> None)"
proof (induction steps joined now now_ms j rule: job_worker.induct)
  case (1 joined now now_ms j)
  then show ?case by (auto simp: job_finish_def Let_def split: outcome.splits)
next
  case (2 phase message at_ms steps joined now now_ms j)
  obtain j1 where "job_progress phase message at_ms j = Ok j1" "pj_finished_at j1 = None" using "2.prems" by (simp add: job_progress_def)
  then show ?case using "2.IH" [of j1] by simp
qed

text \<open>Runs are listed in the order they were accepted, every run that is still in flight is listed, and reaping never
  removes one.\<close>

lemma runs_listed_in_order:
  assumes "runs.reachable r"
  shows "sorted_wrt (<) (map re_sequence (registry_entries re_sequence (\<lambda>e. ri_finished_at (re_inner e)) active_only r))
    \<and> set (registry_entries re_sequence (\<lambda>e. ri_finished_at (re_inner e)) active_only r)
        = {e. (\<exists>ident. registry_get ident r = Some e) \<and> (active_only \<longrightarrow> ri_finished_at (re_inner e) = None)}
    \<and> (\<forall>ident e. registry_get ident r = Some e \<and> ri_finished_at (re_inner e) = None
         \<longrightarrow> registry_get ident (registry_reap (\<lambda>e. ri_finished_at (re_inner e)) now RETENTION r) = Some e)"
proof -
  have o: "sorted_wrt (<) (map (re_sequence \<circ> snd) (rg_entries r))" "distinct (map fst (rg_entries r))"
    using runs.reachable_in_order [OF assms] by (simp_all add: runs.in_order_def)
  have "sorted_wrt (<) (map re_sequence (filter P (map snd (rg_entries r))))" for P
    using o(1) by (simp add: sorted_wrt_map sorted_wrt_filter)
  moreover have "(\<exists>ident. registry_get ident r = Some e) \<longleftrightarrow> e \<in> set (map snd (rg_entries r))" for e
    using o(2) by (auto simp: registry_get_def image_iff) (metis map_of_is_SomeI snd_conv)+
  ultimately show ?thesis
    using runs.unfinished_not_reaped [OF _ _ assms] unfolding runs.entries_in_order [OF assms] by auto
qed

end
