(* ===== verification/Driver_Queries.thy ===== *)
theory Driver_Queries
  imports Driver_Recording
begin

text \<open>
  The driver's queries (\<open>driver/src/driver.rs\<close>): listings of objects, actions and classes, one object by name, and whether an
  action can be run with the objects at hand; with the theorem that this answer is exactly whether a proof of the action
  would start.
\<close>

section \<open>Objects\<close>

definition list_objects ::
    "('h, 'o) obj_lib \<Rightarrow> hold_table \<Rightarrow> object_query option \<Rightarrow> ('h, 'o, 'cp) driver_store
     \<Rightarrow> (driver_error, 'h object_summary list) outcome" where
  "list_objects L held query s =
     obind (load_object_files s) (\<lambda>entries.
       Ok (filter (\<lambda>x. case query of None \<Rightarrow> True | Some q \<Rightarrow> matches_query x q)
             (map (object_summary L (load_records L s) held (imported_keys s)) entries)))"

definition resolve_managed_file :: "('h, 'o, 'cp) driver_store \<Rightarrow> string \<Rightarrow> ('h, 'o, 'cp) obj_file option" where
  "resolve_managed_file s file_name =
     (case map_of (live_dir s) file_name of Some f \<Rightarrow> Some f | None \<Rightarrow> map_of (nullified_dir s) file_name)"

definition read_object_entry :: "('h, 'o, 'cp) driver_store \<Rightarrow> string \<Rightarrow> (driver_error, ('h, 'o, 'cp) entry) outcome" where
  "read_object_entry s path =
     obind (basename_or_err path) (\<lambda>file_name.
       case resolve_managed_file s file_name of
         None \<Rightarrow> Err (ObjectFileNotFound file_name)
       | Some Unreadable \<Rightarrow> Err (OtherError (''failed to parse '' @ file_name @ '' as object file''))
       | Some (Readable r) \<Rightarrow> Ok (file_name, r))"

definition read_object ::
    "('h, 'o) obj_lib \<Rightarrow> hold_table \<Rightarrow> ('h, 'o, 'cp) driver_store \<Rightarrow> string \<Rightarrow> (driver_error, 'h object_summary) outcome" where
  "read_object L held s path =
     obind (read_object_entry s path) (\<lambda>e. Ok (object_summary L (load_records L s) held (imported_keys s) e))"

definition read_available_objects ::
    "('h, 'o) obj_lib \<Rightarrow> hold_table \<Rightarrow> ('h, 'o, 'cp) driver_store \<Rightarrow> string list \<Rightarrow> 'h object_summary list" where
  "read_available_objects L held s paths =
     map (object_summary L (load_records L s) held (imported_keys s))
       (List.map_filter (\<lambda>path. case read_object_entry s path of Ok e \<Rightarrow> Some e | _ \<Rightarrow> None) paths)"

section \<open>Actions and classes\<close>

text \<open>The catalog's actions and classes are arguments.\<close>

record action_query =
  aq_action :: "qualified_name option"
  aq_input_class :: "qualified_name option"
  aq_output_class :: "qualified_name option"

definition none_or :: "('a \<Rightarrow> bool) \<Rightarrow> 'a option \<Rightarrow> bool" where
  "none_or P x \<longleftrightarrow> (case x of None \<Rightarrow> True | Some y \<Rightarrow> P y)"

definition list_actions :: "'h action_summary list \<Rightarrow> action_query option \<Rightarrow> 'h action_summary list" where
  "list_actions actions query =
     filter (\<lambda>a. none_or (\<lambda>q. none_or (\<lambda>n. act_name a = n) (aq_action q)
                          \<and> none_or (\<lambda>c. list_ex (\<lambda>r. cref_class r = c) (act_inputs a)) (aq_input_class q)
                          \<and> none_or (\<lambda>c. list_ex (\<lambda>r. cref_class r = c) (act_outputs a)) (aq_output_class q)) query) actions"

definition live_count :: "('h, 'o, 'cp) entry list \<Rightarrow> qualified_name \<Rightarrow> nat" where
  "live_count entries class =
     length (filter (\<lambda>e. or_status (snd e) = FLive \<and> om_class (or_metadata (snd e)) = class) entries)"

text \<open>Each class with the number of its live objects.\<close>

definition list_classes ::
    "qualified_name list \<Rightarrow> ('h, 'o, 'cp) driver_store \<Rightarrow> (driver_error, (qualified_name \<times> nat) list) outcome" where
  "list_classes classes s =
     obind (load_object_files s) (\<lambda>entries. Ok (map (\<lambda>c. (c, live_count entries c)) classes))"

definition get_class ::
    "qualified_name list \<Rightarrow> qualified_name \<Rightarrow> ('h, 'o, 'cp) driver_store \<Rightarrow> (driver_error, qualified_name \<times> nat) outcome" where
  "get_class classes class s =
     (if class \<notin> set classes then Err (OtherError (''unknown class: '' @ qn_id class))
      else obind (load_object_files s) (\<lambda>entries. Ok (class, live_count entries class)))"

section \<open>Feasibility\<close>

record 'h check_action_candidate =
  cand_class :: qualified_name
  cand_content_hash :: 'h
  cand_file_name :: string

record 'h check_action_report =
  rep_feasible :: bool
  rep_action :: qualified_name
  rep_available :: "'h check_action_candidate list"
  rep_missing :: "'h class_ref list"

definition fits_slot :: "('h, 'o) obj_lib \<Rightarrow> 'h class_ref \<Rightarrow> ('h, 'o, 'cp) entry \<Rightarrow> bool" where
  "fits_slot L required e \<longleftrightarrow> om_class (or_metadata (snd e)) = cref_class required
     \<and> (case (cref_hash required, obj_type_hash L (or_obj (snd e))) of
           (Some expected, Some actual) \<Rightarrow> expected = actual
         | _ \<Rightarrow> False)"

fun check_slots ::
    "('h, 'o) obj_lib \<Rightarrow> ('h, 'o, 'cp) entry list \<Rightarrow> 'h set \<Rightarrow> 'h class_ref list
     \<Rightarrow> 'h check_action_candidate list \<times> 'h class_ref list" where
  "check_slots L live used [] = ([], [])"
| "check_slots L live used (required # rest) =
     (case List.find (\<lambda>e. fits_slot L required e \<and> om_content_hash (or_metadata (snd e)) \<notin> used) live of
        Some e \<Rightarrow>
          (case check_slots L live (insert (om_content_hash (or_metadata (snd e))) used) rest of
             (available, missing) \<Rightarrow>
               (\<lparr> cand_class = cref_class required, cand_content_hash = om_content_hash (or_metadata (snd e)), cand_file_name = fst e \<rparr>
                  # available, missing))
      | None \<Rightarrow> (case check_slots L live used rest of (available, missing) \<Rightarrow> (available, required # missing)))"

definition free_live ::
    "('h, 'o) obj_lib \<Rightarrow> hold_table \<Rightarrow> ('h, 'o, 'cp) driver_store \<Rightarrow> ('h, 'o, 'cp) entry list \<Rightarrow> ('h, 'o, 'cp) entry list" where
  "free_live L held s entries =
     filter (\<lambda>e. or_status (snd e) = FLive \<and> fst e \<notin> locked_inputs (load_records L s) \<and> map_of held (fst e) = None) entries"

definition check_action ::
    "('h, 'o) obj_lib \<Rightarrow> (qualified_name \<Rightarrow> 'h action_summary option) \<Rightarrow> hold_table \<Rightarrow> qualified_name \<Rightarrow> ('h, 'o, 'cp) driver_store
     \<Rightarrow> (driver_error, 'h check_action_report) outcome" where
  "check_action L catalog held action s =
     obind (ok_or (OtherError (''unknown action: '' @ qn_id action)) (catalog action)) (\<lambda>action_summary.
     obind (load_object_files s) (\<lambda>entries.
       case check_slots L (free_live L held s entries) {} (act_inputs action_summary) of
         (available, missing) \<Rightarrow>
           Ok \<lparr> rep_feasible = (missing = []), rep_action = action, rep_available = available, rep_missing = missing \<rparr>))"

section \<open>Files as loaded\<close>

lemma load_entries_distinct:
  assumes "load_object_files s = Ok entries"
  shows "distinct (map fst entries)"
    and "e \<in> set entries \<Longrightarrow> is_dobj_file (fst e) \<and> fst e \<in> set (dir_names (live_dir s)) \<union> set (dir_names (nullified_dir s))"
proof -
  obtain a b where a: "ofold (load_object_entry False) (live_dir s) [] = Ok a"
    and b: "ofold (load_object_entry True) (nullified_dir s) a = Ok b" and e: "entries = sort_key fst b"
    using assms by (auto simp: load_object_files_def)
  define I where "I = (\<lambda>xs :: ('a, 'b, 'c) entry list. distinct (map fst xs) \<and>
    (\<forall>e \<in> set xs. is_dobj_file (fst e) \<and> fst e \<in> set (dir_names (live_dir s)) \<union> set (dir_names (nullified_dir s))))"
  have step: "I v" if "I u" "load_object_entry k x u = Ok v" "fst x \<in> set (dir_names (live_dir s)) \<union> set (dir_names (nullified_dir s))"
    for k x u v
    using that by (cases x) (auto simp: I_def load_object_entry_def split: if_splits obj_file.splits)
  have "I a"
    by (rule ofold_invariant [OF a]) (simp add: I_def, erule (1) step, simp add: dir_names_def)
  then have "I b" by (rule ofold_invariant [OF b]) (erule (1) step, simp add: dir_names_def)
  then show "distinct (map fst entries)"
    and "e \<in> set entries \<Longrightarrow> is_dobj_file (fst e) \<and> fst e \<in> set (dir_names (live_dir s)) \<union> set (dir_names (nullified_dir s))"
    using e by (auto simp: I_def distinct_map)
qed

lemma dobj_basename: "is_dobj_file n \<Longrightarrow> CHR ''/'' \<notin> set n \<Longrightarrow> extract_basename n = Some n"
  by (auto simp: is_dobj_file_def extract_basename_def split_at_none strip_suffix_Some dot_dobj_def DOBJ_EXTENSION_def append_eq_Cons_conv
      split: option.splits)

section \<open>Feasibility is exact\<close>

text \<open>An object fits exactly the slots of its class and predicate hash, so filling the slots from the front loses nothing.\<close>

abbreviation entry_hash :: "('h, 'o, 'cp) entry \<Rightarrow> 'h" where
  "entry_hash e \<equiv> om_content_hash (or_metadata (snd e))"

definition slot_key :: "'h class_ref \<Rightarrow> qualified_name \<times> 'h option" where
  "slot_key r = (cref_class r, cref_hash r)"

definition entry_key :: "('h, 'o) obj_lib \<Rightarrow> ('h, 'o, 'cp) entry \<Rightarrow> qualified_name \<times> 'h option" where
  "entry_key L e = (om_class (or_metadata (snd e)), obj_type_hash L (or_obj (snd e)))"

lemma fits_slot_iff: "fits_slot L r e \<longleftrightarrow> slot_key r = entry_key L e \<and> cref_hash r \<noteq> None"
  by (auto simp: fits_slot_def slot_key_def entry_key_def split: option.splits)

lemma check_slots_sound:
  "check_slots L live used reqs = (available, []) \<Longrightarrow>
    \<exists>es. list_all2 (fits_slot L) reqs es \<and> set es \<subseteq> set live \<and> map cand_file_name available = map fst es
      \<and> distinct (map entry_hash es) \<and> entry_hash ` set es \<inter> used = {}"
proof (induction reqs arbitrary: used available)
  case (Cons r rest)
  obtain e where e: "List.find (\<lambda>e. fits_slot L r e \<and> entry_hash e \<notin> used) live = Some e"
    using Cons.prems by (auto split: option.splits prod.splits)
  obtain av where av: "check_slots L live (insert (entry_hash e) used) rest = (av, [])"
    "map cand_file_name available = fst e # map cand_file_name av"
    using Cons.prems e by (auto split: prod.splits)
  obtain es where es: "list_all2 (fits_slot L) rest es" "set es \<subseteq> set live" "map cand_file_name av = map fst es"
    "distinct (map entry_hash es)" "entry_hash ` set es \<inter> insert (entry_hash e) used = {}"
    using Cons.IH [OF av(1)] by blast
  have "e \<in> set live" "fits_slot L r e" "entry_hash e \<notin> used" using e by (auto simp: find_Some_iff)
  then show ?case using es av(2) by (intro exI [of _ "e # es"]) auto
qed simp

lemma check_slots_complete:
  assumes "inj_on entry_hash (set live)" and "\<forall>r \<in> set reqs. cref_hash r \<noteq> None"
    and "\<And>k. length (filter (\<lambda>r. slot_key r = k) reqs) \<le> card {e \<in> set live. entry_key L e = k \<and> entry_hash e \<notin> used}"
  shows "snd (check_slots L live used reqs) = []"
  using assms(2,3)
proof (induction reqs arbitrary: used)
  case (Cons r rest)
  define free where "free = (\<lambda>k used. {e \<in> set live. entry_key L e = k \<and> entry_hash e \<notin> used})"
  have fin: "finite (free k u)" for k u by (simp add: free_def)
  have need: "length (filter (\<lambda>r. slot_key r = k) (r # rest)) \<le> card (free k used)" for k
    using Cons.prems(2) [of k] by (simp only: free_def)
  have "free (slot_key r) used \<noteq> {}" using need [of "slot_key r"] by auto
  then obtain e0 where "e0 \<in> set live" "fits_slot L r e0" "entry_hash e0 \<notin> used"
    using Cons.prems(1) unfolding free_def fits_slot_iff by auto
  then have "List.find (\<lambda>e. fits_slot L r e \<and> entry_hash e \<notin> used) live \<noteq> None" unfolding find_None_iff by blast
  then obtain e where e: "List.find (\<lambda>e. fits_slot L r e \<and> entry_hash e \<notin> used) live = Some e" by blast
  then have m: "e \<in> free (slot_key r) used" by (auto simp: find_Some_iff fits_slot_iff free_def)
  have rest: "free k (insert (entry_hash e) used) = free k used - {e}" for k
    using assms(1) m by (auto simp: free_def dest: inj_onD)
  have "length (filter (\<lambda>r. slot_key r = k) rest) \<le> card (free k (insert (entry_hash e) used))" for k
  proof (cases "k = slot_key r")
    case True
    then show ?thesis using need [of k] m fin unfolding rest by (simp add: card_Diff_singleton)
  next
    case False
    then have "e \<notin> free k used" using m by (simp add: free_def)
    then show ?thesis using need [of k] False unfolding rest by simp
  qed
  then have "snd (check_slots L live (insert (entry_hash e) used) rest) = []"
    using Cons.prems(1) by (intro Cons.IH) (simp_all add: free_def)
  then show ?case using e by (auto split: prod.splits)
qed simp

lemma resolve_input_iff:
  assumes "distinct (map fst entries)"
  shows "resolve_input L entries (raw, required) = Ok e \<longleftrightarrow>
    extract_basename raw = Some (fst e) \<and> e \<in> set entries \<and> or_status (snd e) = FLive \<and> fits_slot L required e"
proof -
  have find_iff: "List.find (\<lambda>x. fst x = n) entries = Some e \<longleftrightarrow> e \<in> set entries \<and> fst e = n" for n e
  proof
    assume e: "e \<in> set entries \<and> fst e = n"
    moreover have "List.find (\<lambda>x. fst x = n) entries \<noteq> None" using e unfolding find_None_iff by blast
    then obtain x where x: "List.find (\<lambda>x. fst x = n) entries = Some x" by blast
    moreover have "x \<in> set entries" "fst x = n" using x by (auto simp: find_Some_iff)
    ultimately show "List.find (\<lambda>x. fst x = n) entries = Some e" using assms by (metis eq_key_imp_eq_value prod.collapse)
  qed (auto simp: find_Some_iff)
  show ?thesis
  proof (cases "extract_basename raw")
    case (Some n)
    show ?thesis
    proof (cases "List.find (\<lambda>x. fst x = n) entries")
      case None
      then have "\<not> (e \<in> set entries \<and> fst e = n)" using find_iff [of n e] by simp
      then show ?thesis
        using Some None by (cases "cref_hash required") (auto simp: resolve_input_def basename_or_err_def ok_or_def)
    next
      case (Some x)
      then have "e \<in> set entries \<and> n = fst e \<longleftrightarrow> x = e" using find_iff [of n e] by auto
      then show ?thesis
        using Some \<open>extract_basename raw = Some n\<close>
        by (cases "cref_hash required"; cases "obj_type_hash L (or_obj (snd x))")
          (auto simp: resolve_input_def basename_or_err_def ok_or_def fits_slot_def)
    qed
  qed (cases "cref_hash required"; simp add: resolve_input_def basename_or_err_def ok_or_def)
qed

lemma check_duplicates_plain:
  "map extract_basename raws = map Some names \<Longrightarrow> distinct names \<Longrightarrow> set names \<inter> seen = {} \<Longrightarrow> check_duplicates seen raws = Ok ()"
proof (induction raws arbitrary: names seen)
  case (Cons raw raws)
  then show ?case by (cases names) (auto simp: basename_or_err_def ok_or_def)
qed simp

text \<open>When a proof starts: the objects are free, live, distinct files that fit the slots.\<close>

lemma prove_begin_iff:
  assumes "load_object_files s = Ok entries" and "catalog action = Some summary"
  shows "(\<exists>owners. prove_begin L catalog \<lparr> ei_action = action, ei_objects = raws \<rparr> owner s held = Ok (summary, es, owners)) \<longleftrightarrow>
    map extract_basename raws = map (Some \<circ> fst) es \<and> list_all2 (fits_slot L) (act_inputs summary) es
    \<and> distinct (map fst es) \<and> set es \<subseteq> set (free_live L held s entries)"
proof -
  let ?in = "\<lparr> ei_action = action, ei_objects = raws \<rparr>"
  note d = load_entries_distinct(1) [OF assms(1)]
  have res: "resolve_inputs L entries ?in summary = Ok es \<longleftrightarrow> map extract_basename raws = map (Some \<circ> fst) es
      \<and> list_all2 (fits_slot L) (act_inputs summary) es \<and> (\<forall>e \<in> set es. e \<in> set entries \<and> or_status (snd e) = FLive)"
    if "length raws = length (act_inputs summary)"
  proof -
    have "resolve_inputs L entries ?in summary = Ok es \<longleftrightarrow>
        list_all2 (\<lambda>p e. resolve_input L entries p = Ok e) (zip raws (act_inputs summary)) es"
      by (simp add: resolve_inputs_def omap_Ok_iff)
    also have "\<dots> \<longleftrightarrow> length es = length raws \<and> (\<forall>i < length raws. extract_basename (raws ! i) = Some (fst (es ! i))
        \<and> es ! i \<in> set entries \<and> or_status (snd (es ! i)) = FLive \<and> fits_slot L (act_inputs summary ! i) (es ! i))"
      using that by (auto simp: list_all2_conv_all_nth resolve_input_iff [OF d])
    also have "\<dots> \<longleftrightarrow> map extract_basename raws = map (Some \<circ> fst) es
        \<and> list_all2 (fits_slot L) (act_inputs summary) es \<and> (\<forall>e \<in> set es. e \<in> set entries \<and> or_status (snd e) = FLive)"
      using that by (auto simp: list_all2_conv_all_nth list_eq_iff_nth_eq all_set_conv_all_nth)
    finally show ?thesis .
  qed
  have take: "(\<exists>owners. holds_take (map fst es) owner (locked_inputs (load_records L s)) held = Ok owners) \<longleftrightarrow>
      (\<forall>e \<in> set es. fst e \<notin> locked_inputs (load_records L s) \<and> map_of held (fst e) = None)"
    by (auto simp: holds_take_def find_None_iff find_Some_iff split: option.splits) (metis nth_mem)+
  show ?thesis
  proof
    assume "\<exists>owners. prove_begin L catalog ?in owner s held = Ok (summary, es, owners)"
    then obtain u owners where v: "validate_execute_request ?in summary = Ok u" and r: "resolve_inputs L entries ?in summary = Ok es"
      and t: "holds_take (map fst es) owner (locked_inputs (load_records L s)) held = Ok owners"
      using assms by (auto simp: prove_begin_def ok_or_def)
    have "length raws = length (act_inputs summary)" using v by (auto simp: validate_execute_request_def split: if_splits)
    then show "map extract_basename raws = map (Some \<circ> fst) es \<and> list_all2 (fits_slot L) (act_inputs summary) es
      \<and> distinct (map fst es) \<and> set es \<subseteq> set (free_live L held s entries)"
      using res r take t resolved_distinct [OF v r] by (auto simp: free_live_def)
  next
    assume a: "map extract_basename raws = map (Some \<circ> fst) es \<and> list_all2 (fits_slot L) (act_inputs summary) es
      \<and> distinct (map fst es) \<and> set es \<subseteq> set (free_live L held s entries)"
    then have len: "length raws = length (act_inputs summary)" by (metis length_map list_all2_lengthD)
    have "check_duplicates {} raws = Ok ()"
      using a check_duplicates_plain [of raws "map fst es" "{}"] by simp
    then have v: "validate_execute_request ?in summary = Ok ()" using len by (simp add: validate_execute_request_def)
    have r: "resolve_inputs L entries ?in summary = Ok es" using res [OF len] a by (auto simp: free_live_def)
    obtain owners where t: "holds_take (map fst es) owner (locked_inputs (load_records L s)) held = Ok owners"
      using take a by (auto simp: free_live_def)
    show "\<exists>owners. prove_begin L catalog ?in owner s held = Ok (summary, es, owners)"
      using v r t assms by (simp add: prove_begin_def ok_or_def)
  qed
qed

lemma check_slots_of_match:
  assumes "inj_on entry_hash (set live)" and "list_all2 (fits_slot L) reqs es" and "distinct es" and "set es \<subseteq> set live"
  shows "snd (check_slots L live {} reqs) = []"
proof (rule check_slots_complete [OF assms(1)])
  have f: "list_all2 (\<lambda>r e. slot_key r = entry_key L e \<and> cref_hash r \<noteq> None) reqs es"
    using assms(2) by (simp add: fits_slot_iff [abs_def])
  then show "\<forall>r \<in> set reqs. cref_hash r \<noteq> None" by (auto simp: list_all2_conv_all_nth in_set_conv_nth)
  have "length (filter (\<lambda>r. slot_key r = k) reqs) = length (filter (\<lambda>e. entry_key L e = k) es)" for k
    using f by (induction rule: list_all2_induct) auto
  moreover have "length (filter (\<lambda>e. entry_key L e = k) es) = card (set (filter (\<lambda>e. entry_key L e = k) es))" for k
    using distinct_card [OF distinct_filter [OF assms(3)]] by simp
  moreover have "card (set (filter (\<lambda>e. entry_key L e = k) es)) \<le> card {e \<in> set live. entry_key L e = k \<and> entry_hash e \<notin> {}}" for k
    using assms(4) by (intro card_mono) auto
  ultimately show "length (filter (\<lambda>r. slot_key r = k) reqs) \<le> card {e \<in> set live. entry_key L e = k \<and> entry_hash e \<notin> {}}" for k
    by simp
qed

text \<open>C26. The feasibility report of an action is exact: when the free live objects are different objects, it says feasible if and
  only if there is a choice of input files with which a proof of the action starts in this state; and the
  files it names are such a choice. So a feasible action is not refused when it is run with the reported inputs, and
  filling the slots from the front misses no solution.\<close>

theorem feasible_iff_startable:
  assumes "check_action L catalog held action s = Ok report" and "load_object_files s = Ok entries"
    and "\<forall>n \<in> set (dir_names (live_dir s)) \<union> set (dir_names (nullified_dir s)). CHR ''/'' \<notin> set n"
    and "inj_on (\<lambda>e. om_content_hash (or_metadata (snd e))) (set (free_live L held s entries))"
  shows "(rep_feasible report \<longleftrightarrow>
      (\<exists>objects x. prove_begin L catalog \<lparr> ei_action = action, ei_objects = objects \<rparr> owner s held = Ok x))
    \<and> (rep_feasible report \<longrightarrow>
      (\<exists>x. prove_begin L catalog \<lparr> ei_action = action, ei_objects = map cand_file_name (rep_available report) \<rparr> owner s held = Ok x))"
proof -
  obtain summary available missing where c: "catalog action = Some summary"
    "check_slots L (free_live L held s entries) {} (act_inputs summary) = (available, missing)"
    "rep_feasible report = (missing = [])" "rep_available report = available"
    using assms(1,2) by (auto simp: check_action_def ok_or_def split: option.splits prod.splits)
  note starts = prove_begin_iff [where catalog = catalog and L = L and owner = owner and held = held, OF assms(2) c(1)]
  have yes: "\<exists>x. prove_begin L catalog \<lparr> ei_action = action, ei_objects = map cand_file_name available \<rparr> owner s held = Ok x"
    if "missing = []"
  proof -
    obtain es where es: "list_all2 (fits_slot L) (act_inputs summary) es" "set es \<subseteq> set (free_live L held s entries)"
      "map cand_file_name available = map fst es" "distinct (map entry_hash es)"
      using check_slots_sound c(2) \<open>missing = []\<close> by blast
    have sub: "set es \<subseteq> set entries" using es(2) by (auto simp: free_live_def)
    have "extract_basename (fst e) = Some (fst e)" if "e \<in> set es" for e
      using load_entries_distinct(2) [OF assms(2), of e] sub that assms(3) by (intro dobj_basename) auto
    then have "map extract_basename (map fst es) = map (Some \<circ> fst) es" by simp
    moreover have "distinct (map fst es)"
      using es(4) sub load_entries_distinct(1) [OF assms(2)] by (auto simp: distinct_map intro: inj_on_subset)
    ultimately show ?thesis using starts [where raws = "map fst es" and es = es] es(1,2,3) by auto
  qed
  moreover have "missing = []"
    if p: "prove_begin L catalog \<lparr> ei_action = action, ei_objects = objects \<rparr> owner s held = Ok x" for objects x
  proof -
    obtain es owners where "x = (summary, es, owners)" using p c(1) by (auto simp: prove_begin_def ok_or_def)
    then have "list_all2 (fits_slot L) (act_inputs summary) es" "distinct (map fst es)" "set es \<subseteq> set (free_live L held s entries)"
      using p starts [where raws = objects and es = es] by blast+
    then have "snd (check_slots L (free_live L held s entries) {} (act_inputs summary)) = []"
      using assms(4) by (intro check_slots_of_match) (auto simp: distinct_map)
    then show ?thesis using c(2) by simp
  qed
  ultimately show ?thesis unfolding c(3,4) by blast
qed

text \<open>One live object, and an action that takes one of its class.\<close>

definition feasible_lib :: "(nat, nat) obj_lib" where
  "feasible_lib = \<lparr> ol_commitment = (\<lambda>obj. obj), ol_get = (\<lambda>obj field. Ok (Some 4)),
     ol_hash_values = sum_list, ol_text_value = length, ol_hex = (\<lambda>h. replicate h (CHR ''a'')) \<rparr>"

definition feasible_class :: qualified_name where
  "feasible_class = \<lparr> plugin_name = ''p'', qn_name = ''c'' \<rparr>"

definition feasible_catalog :: "qualified_name \<Rightarrow> nat action_summary option" where
  "feasible_catalog q = Some \<lparr> act_name = q, act_inputs = [\<lparr> cref_class = feasible_class, cref_hash = Some 4 \<rparr>], act_outputs = [],
     act_mutated = [] \<rparr>"

definition feasible_object :: "(nat, nat, unit) object_record" where
  "feasible_object = \<lparr> or_metadata = \<lparr> om_class = feasible_class, om_content_hash = 5, om_status = FLive, om_tx_final = 3,
     om_tx_hash = None, om_creation_proof = None \<rparr>, or_obj = 5 \<rparr>"

definition feasible_store :: "(nat, nat, unit) driver_store" where
  "feasible_store = \<lparr> live_dir = [(''a.dobj'', Readable feasible_object)], nullified_dir = [], discarded_dir = [], tx_dirs = [],
     imported_keys = [] \<rparr>"

lemma feasible_loads: "load_object_files feasible_store = Ok [(''a.dobj'', feasible_object)]"
  by code_simp

lemma feasible_report:
  "check_action feasible_lib feasible_catalog [] feasible_class feasible_store = Ok \<lparr> rep_feasible = True, rep_action = feasible_class,
     rep_available = [\<lparr> cand_class = feasible_class, cand_content_hash = 5, cand_file_name = ''a.dobj'' \<rparr>], rep_missing = [] \<rparr>"
  by code_simp

theorem feasible_iff_startable_witness:
  "\<exists>x. prove_begin feasible_lib feasible_catalog \<lparr> ei_action = feasible_class, ei_objects = [''a.dobj''] \<rparr> ''run'' feasible_store [] = Ok x"
proof -
  have "inj_on (\<lambda>e. om_content_hash (or_metadata (snd e))) (set (free_live feasible_lib [] feasible_store [(''a.dobj'', feasible_object)]))"
    by (auto simp: free_live_def inj_on_def)
  then show ?thesis
    using feasible_iff_startable [OF feasible_report feasible_loads, of "''run''"] by (simp add: feasible_store_def dir_names_def)
qed

end
