(* ===== verification/Dobjd_Services.thy ===== *)
theory Dobjd_Services
  imports Dobjd_Run_Properties Driver_Queries
begin

text \<open>
  What the daemon does for its clients around the driver (\<open>services/dobjd\<close>: \<open>state.rs\<close>, \<open>error.rs\<close>,
  \<open>web_access.rs\<close>): announcing changes on the event hub, waiting for a job or a transaction, the status codes of
  errors, and which requests are let in at all.
\<close>

section \<open>Status codes (error.rs)\<close>

text \<open>An error of the driver, of the services, or any other.\<close>

datatype service_error = ProofJobNotFound string

fun status_for_driver_error :: "driver_error \<Rightarrow> nat" where
  "status_for_driver_error (UnknownAction _) = 404"
| "status_for_driver_error (UnknownClass _) = 404"
| "status_for_driver_error (ObjectFileNotFound _) = 404"
| "status_for_driver_error (TransactionNotFound _) = 404"
| "status_for_driver_error (InvalidInput _) = 400"
| "status_for_driver_error (Conflict _) = 409"
| "status_for_driver_error (OtherError _) = 500"

fun api_error_status :: "driver_error + service_error \<Rightarrow> nat" where
  "api_error_status (Inl e) = status_for_driver_error e"
| "api_error_status (Inr _) = 404"

section \<open>Services (state.rs)\<close>

definition publish_all :: "('h, 's) event list \<Rightarrow> ('h, 's) event_hub \<Rightarrow> ('h, 's) event_hub" where
  "publish_all evs hub = fold hub_publish evs hub"

definition publish_objects ::
    "('h, 'o) obj_lib \<Rightarrow> hold_table \<Rightarrow> ('h, 'o, 'cp) driver_store \<Rightarrow> string list \<Rightarrow> ('h, 's) event_hub \<Rightarrow> ('h, 's) event_hub" where
  "publish_objects L held s file_names hub = publish_all (map ObjectEvent (read_available_objects L held s file_names)) hub"

text \<open>The settler is woken as well.\<close>

definition announce_transaction ::
    "('h, 'o) obj_lib \<Rightarrow> hold_table \<Rightarrow> ('h, 'o, 'cp) driver_store \<Rightarrow> 'h transaction_record \<Rightarrow> ('h, 's) event_hub \<Rightarrow> ('h, 's) event_hub" where
  "announce_transaction L held s r hub =
     publish_objects L held s (t_output_files r @ t_input_files r) (hub_publish (Transaction r) hub)"

text \<open>The summary of a renamed object is that of its file under the new name.\<close>

definition services_rename_object ::
    "('h, 'o) obj_lib \<Rightarrow> hold_table \<Rightarrow> string \<Rightarrow> string \<Rightarrow> ('h, 'o, 'cp) driver_store \<Rightarrow> ('h, 's) event_hub
     \<Rightarrow> (driver_error, 'h object_summary) outcome \<times> ('h, 'o, 'cp) driver_store \<times> ('h, 's) event_hub" where
  "services_rename_object L held path new_name s hub =
     (case rename_object L held path new_name s of
        (Ok target, s') \<Rightarrow>
          (case read_object L held s' target of
             Ok summary \<Rightarrow>
               let old_name = (case extract_basename path of Some n \<Rightarrow> n | None \<Rightarrow> path)
               in (Ok summary, s', publish_all ((if os_file_name summary \<noteq> old_name then [ObjectRemoved old_name] else [])
                     @ [ObjectEvent summary]) hub)
           | Err e \<Rightarrow> (Err e, s', hub)
           | Panic \<Rightarrow> (Panic, s', hub))
      | (Err e, s') \<Rightarrow> (Err e, s', hub)
      | (Panic, s') \<Rightarrow> (Panic, s', hub))"

definition services_delete_transaction ::
    "('h, 'o) obj_lib \<Rightarrow> hold_table \<Rightarrow> 'h \<Rightarrow> ('h, 'o, 'cp) driver_store \<Rightarrow> ('h, 's) event_hub
     \<Rightarrow> (driver_error, 'h transaction_record) outcome \<times> ('h, 'o, 'cp) driver_store \<times> ('h, 's) event_hub" where
  "services_delete_transaction L held txf s hub =
     (case delete_transaction L txf s of
        (Ok (r, removed), s') \<Rightarrow>
          (Ok r, s', publish_objects L held s' (t_input_files r)
             (publish_all (TransactionDeleted (t_final r) # map ObjectRemoved removed) hub))
      | (Err e, s') \<Rightarrow> (Err e, s', hub)
      | (Panic, s') \<Rightarrow> (Panic, s', hub))"

text \<open>Submissions in order, up to the first error; \<open>submit\<close> is the driver's answer and the store it leaves.\<close>

fun submit_transactions ::
    "('h, 'o) obj_lib \<Rightarrow> hold_table \<Rightarrow> ('h \<Rightarrow> ('h, 'o, 'cp) driver_store \<Rightarrow> (driver_error, 'h transaction_record) outcome \<times> ('h, 'o, 'cp) driver_store)
     \<Rightarrow> 'h list \<Rightarrow> ('h, 'o, 'cp) driver_store \<Rightarrow> ('h, 's) event_hub
     \<Rightarrow> (driver_error, 'h transaction_record list) outcome \<times> ('h, 'o, 'cp) driver_store \<times> ('h, 's) event_hub" where
  "submit_transactions L held submit [] s hub = (Ok [], s, hub)"
| "submit_transactions L held submit (txf # rest) s hub =
     (case submit txf s of
        (Ok r, s1) \<Rightarrow>
          (case submit_transactions L held submit rest s1 (announce_transaction L held s1 r hub) of
             (Ok rs, x) \<Rightarrow> (Ok (r # rs), x)
           | (Err e, x) \<Rightarrow> (Err e, x)
           | (Panic, x) \<Rightarrow> (Panic, x))
      | (Err e, s1) \<Rightarrow> (Err e, s1, hub)
      | (Panic, s1) \<Rightarrow> (Panic, s1, hub))"

text \<open>Waiting for a proof job, whose snapshots come as events, and for a transaction.\<close>

definition wait_for_proof_job ::
    "bool \<Rightarrow> string \<Rightarrow> 'h proof_job_entry registry \<Rightarrow> (nat \<Rightarrow> 'h proof_job_entry) \<Rightarrow> ('h, 'h proof_job_entry) event received list
     \<Rightarrow> (service_error + (string, 'h proof_job_entry) outcome) option" where
  "wait_for_proof_job wait ident jobs snapshots rcv =
     (case registry_get ident jobs of
        None \<Rightarrow> Some (Inl (ProofJobNotFound ident))
      | Some _ \<Rightarrow>
          map_option Inr (wait_until wait (\<lambda>k. Ok (snapshots k)) (\<lambda>j. job_terminal (pj_status j))
            (\<lambda>ev. case ev of ProofJob j \<Rightarrow> if pj_job_id j = ident then Ok (Some j) else Ok None | _ \<Rightarrow> Ok None) rcv))"

definition wait_for_transaction ::
    "('h \<Rightarrow> string) \<Rightarrow> bool \<Rightarrow> 'h \<Rightarrow> (nat \<Rightarrow> (string, 'h transaction_record) outcome) \<Rightarrow> ('h, 's) event received list
     \<Rightarrow> (string, 'h transaction_record) outcome option" where
  "wait_for_transaction hex wait txf reads rcv =
     wait_until wait (\<lambda>k. case reads k of Panic \<Rightarrow> Err ''transaction read task failed'' | x \<Rightarrow> x)
       (\<lambda>r. tx_terminal (t_state r)) (transaction_event hex txf) rcv"

section \<open>Who may ask (web_access.rs)\<close>

text \<open>The parsers of URIs and authorities are those of the \<open>http\<close> crate; a header that is not text is \<open>None\<close>.\<close>

record authority =
  au_text :: string
  au_host :: string
  au_port :: "nat option"

record web_uri =
  wu_scheme :: "string option"
  wu_authority :: "authority option"
  wu_path :: string
  wu_query :: "string option"

record uri_parsers =
  up_uri :: "string \<Rightarrow> web_uri option"
  up_authority :: "string \<Rightarrow> authority option"

record web_request =
  wr_host :: "string option list"
  wr_origin :: "string option list"
  wr_uri_authority :: "authority option"

definition is_loopback_host :: "string \<Rightarrow> bool" where
  "is_loopback_host host \<longleftrightarrow> eq_ignore_ascii_case host ''localhost'' \<or> host = ''127.0.0.1'' \<or> host = ''[::1]''"

definition allows_origin :: "uri_parsers \<Rightarrow> string option \<Rightarrow> bool" where
  "allows_origin P origin =
     (case origin of
        None \<Rightarrow> False
      | Some text \<Rightarrow>
          (case up_uri P text of
             None \<Rightarrow> False
           | Some uri \<Rightarrow>
               (wu_scheme uri = Some ''http'' \<or> wu_scheme uri = Some ''https'')
               \<and> (case wu_authority uri of None \<Rightarrow> False | Some a \<Rightarrow> is_loopback_host (au_host a) \<and> CHR ''@'' \<notin> set (au_text a))
               \<and> wu_path uri = ''/'' \<and> wu_query uri = None \<and> (text = [] \<or> last text \<noteq> CHR ''/'')))"

definition request_authority :: "uri_parsers \<Rightarrow> web_request \<Rightarrow> authority option" where
  "request_authority P req =
     (case (case wr_host req of Some host # _ \<Rightarrow> up_authority P host | _ \<Rightarrow> None) of
        Some a \<Rightarrow> Some a
      | None \<Rightarrow> wr_uri_authority req)"

definition allows_request :: "uri_parsers \<Rightarrow> nat \<Rightarrow> web_request \<Rightarrow> bool" where
  "allows_request P port req =
     (if length (wr_host req) > 1 \<or> length (wr_origin req) > 1 then False
      else (case request_authority P req of
              None \<Rightarrow> False
            | Some a \<Rightarrow> is_loopback_host (au_host a) \<and> CHR ''@'' \<notin> set (au_text a)
                \<and> (case au_port a of Some p \<Rightarrow> p = port | None \<Rightarrow> port = 80))
           \<and> (case wr_origin req of [] \<Rightarrow> True | origin # _ \<Rightarrow> allows_origin P origin))"

definition guard :: "uri_parsers \<Rightarrow> nat \<Rightarrow> (web_request \<Rightarrow> 'r) \<Rightarrow> 'r \<Rightarrow> web_request \<Rightarrow> 'r" where
  "guard P port next forbidden req = (if allows_request P port req then next req else forbidden)"

section \<open>Waiting\<close>

text \<open>Waiting for a transaction reports only what was read from disk or published about that transaction, and, unless the
  deadline passed, only a final state.\<close>

lemma wait_for_transaction_truthful:
  fixes rcv :: "('h, 's) event received list"
  assumes "wait_for_transaction hex wait txf reads rcv = Some (Ok r)"
  shows "((\<exists>k. reads k = Ok r) \<or> Got (Transaction r) \<in> set rcv \<and> t_final r = txf)
    \<and> (wait \<and> Elapsed \<notin> set rcv \<longrightarrow> tx_terminal (t_state r))"
proof -
  let ?reads = "\<lambda>k. case reads k of Panic \<Rightarrow> Err ''transaction read task failed'' | x \<Rightarrow> x"
  let ?done = "\<lambda>r. tx_terminal (t_state r)"
  let ?ev = "\<lambda>ev s. (transaction_event hex txf ev, s :: unit)"
  have read: "reads k = Ok t" if "?reads k = Ok t" for k t using that by (auto split: outcome.splits)
  have np: "?reads k \<noteq> Panic" for k by (auto split: outcome.splits)
  have npe: "transaction_event hex txf ev \<noteq> Panic" for ev :: "('h, 's) event" by (auto simp: transaction_event_def split: event.splits)
  show ?thesis
  proof (cases wait)
    case False
    then show ?thesis using assms read [of 0] by (auto simp: wait_for_transaction_def wait_until_def)
  next
    case True
    obtain t0 where t0: "?reads 0 = Ok t0" and f: "follow ?reads ?done ?ev 1 rcv t0 () = Some (Ok r, ())"
      using assms True by (auto simp: wait_for_transaction_def wait_until_def follow_from_def split: outcome.splits)
    have inv: "Elapsed \<notin> set rcv \<longrightarrow> tx_terminal (t_state r)"
      using follow_invariant [OF f, of "\<lambda>_. True"] np npe by simp
    from follow_source [OF f] consider "r = t0" | k where "?reads k = Ok r"
      | ev where "Got ev \<in> set rcv" "transaction_event hex txf ev = Ok (Some r)" by auto
    then have "(\<exists>k. reads k = Ok r) \<or> Got (Transaction r) \<in> set rcv \<and> t_final r = txf"
    proof cases
      case 1
      then show ?thesis using read t0 by blast
    next
      case 2
      then show ?thesis using read by blast
    next
      case 3
      then show ?thesis by (auto simp: transaction_event_def split: event.splits if_splits)
    qed
    then show ?thesis using inv by blast
  qed
qed

text \<open>The hub numbers events without gaps in the order they were published.\<close>

lemma publish_all_numbers:
  assumes "map fst (hub_sent hub) = [1..<hub_next_seq hub]" and "1 \<le> hub_next_seq hub"
  shows "map fst (hub_sent (publish_all evs hub)) = [1..<hub_next_seq (publish_all evs hub)]
    \<and> map snd (hub_sent (publish_all evs hub)) = map snd (hub_sent hub) @ evs"
  using assms
proof (induction evs arbitrary: hub)
  case (Cons ev evs)
  have "map fst (hub_sent (hub_publish ev hub)) = [1..<hub_next_seq (hub_publish ev hub)]"
    and "1 \<le> hub_next_seq (hub_publish ev hub)"
    using Cons.prems by (auto simp: hub_publish_def)
  from Cons.IH [OF this] show ?case by (simp add: publish_all_def hub_publish_def)
qed (simp add: publish_all_def)

text \<open>A request that names a foreign host never reaches a handler, whatever else it carries.\<close>

lemma foreign_host_refused:
  assumes "wr_host req = [Some host]" and "up_authority P host = Some a" and "\<not> is_loopback_host (au_host a)"
  shows "guard P port next forbidden req = forbidden"
  using assms by (simp add: guard_def allows_request_def request_authority_def)

end
