(* ===== verification/Dobjd_Settle.thy ===== *)
theory Dobjd_Settle
  imports Dobjd_Runs Driver_Recording
begin

text \<open>
  The daemon's settler (\<open>services/dobjd/src/settle.rs\<close>) over the driver's settlement and pruning: one pass, what it
  announces, when the next one is due, and the retries of submissions that were cut off. Instants and durations are
  nanoseconds.
\<close>

section \<open>Retries of submissions\<close>

definition SETTLE_INTERVAL :: nat where
  "SETTLE_INTERVAL = 1500000000"

definition UNATTEMPTED_CHECK_INTERVAL :: nat where
  "UNATTEMPTED_CHECK_INTERVAL = 30000000000"

definition MAX_SUBMISSION_RETRIES :: nat where
  "MAX_SUBMISSION_RETRIES = 4"

definition MAX_RETRY_DELAY :: nat where
  "MAX_RETRY_DELAY = 60000000000"

record submission_retry =
  sr_next_attempt :: nat
  sr_delay :: nat
  sr_in_flight :: bool

type_synonym 'h submission_retries = "('h \<times> submission_retry) list"

definition fresh_retry :: "nat \<Rightarrow> submission_retry" where
  "fresh_retry now = \<lparr> sr_next_attempt = now + SETTLE_INTERVAL, sr_delay = SETTLE_INTERVAL, sr_in_flight = False \<rparr>"

fun due_loop :: "nat \<Rightarrow> 'h transaction_record list \<Rightarrow> nat \<Rightarrow> 'h submission_retries \<Rightarrow> 'h list \<times> 'h submission_retries" where
  "due_loop now [] capacity attempts = ([], attempts)"
| "due_loop now (r # rs) capacity attempts =
     (let retry = (case map_of attempts (t_final r) of Some x \<Rightarrow> x | None \<Rightarrow> fresh_retry now)
      in if capacity = 0 \<or> sr_in_flight retry \<or> now < sr_next_attempt retry
         then due_loop now rs capacity (hm_insert (t_final r) retry attempts)
         else case due_loop now rs (capacity - 1) (hm_insert (t_final r) (retry\<lparr> sr_in_flight := True \<rparr>) attempts) of
                (due, attempts') \<Rightarrow> (t_final r # due, attempts'))"

definition retry_pending :: "'h transaction_record list \<Rightarrow> 'h transaction_record list" where
  "retry_pending records = filter (\<lambda>r. t_state r = TRecorded \<and> t_submit_attempted_at_ms r \<noteq> None) records"

definition in_flight_count :: "'h submission_retries \<Rightarrow> nat" where
  "in_flight_count attempts = length (filter (\<lambda>p. sr_in_flight (snd p)) attempts)"

definition retries_due :: "nat \<Rightarrow> 'h transaction_record list \<Rightarrow> 'h submission_retries \<Rightarrow> 'h list \<times> 'h submission_retries" where
  "retries_due now records attempts =
     (let pending = retry_pending records;
          kept = filter (\<lambda>p. sr_in_flight (snd p) \<or> fst p \<in> t_final ` set pending) attempts
      in due_loop now pending (MAX_SUBMISSION_RETRIES - in_flight_count kept) kept)"

definition retries_complete :: "'h \<Rightarrow> nat \<Rightarrow> bool \<Rightarrow> 'h submission_retries \<Rightarrow> 'h submission_retries" where
  "retries_complete txf now succeeded attempts =
     (if succeeded then filter (\<lambda>p. fst p \<noteq> txf) attempts
      else case map_of attempts txf of
             None \<Rightarrow> attempts
           | Some retry \<Rightarrow>
               let delay = min (sr_delay retry * 2) MAX_RETRY_DELAY
               in hm_insert txf \<lparr> sr_next_attempt = now + delay, sr_delay = delay, sr_in_flight = False \<rparr> attempts)"

section \<open>When to settle again\<close>

definition next_pass_delay :: "nat \<Rightarrow> nat \<Rightarrow> nat option \<Rightarrow> nat \<Rightarrow> nat option" where
  "next_pass_delay open_records unattempted_records next_cleanup_at_ms current_time_ms =
     (let poll_delay = (if open_records > unattempted_records then Some SETTLE_INTERVAL
                        else if open_records > 0 then Some UNATTEMPTED_CHECK_INTERVAL else None);
          cleanup_delay = map_option (\<lambda>deadline. max (deadline - current_time_ms) 1 * 1000000) next_cleanup_at_ms
      in case (poll_delay, cleanup_delay) of
           (Some a, Some b) \<Rightarrow> Some (min a b)
         | (Some a, None) \<Rightarrow> Some a
         | (None, b) \<Rightarrow> b)"

section \<open>A pass\<close>

definition publish_outcome ::
    "'h transaction_record list \<Rightarrow> 'h list \<Rightarrow> string list \<Rightarrow> 'h object_summary list \<Rightarrow> 'h set \<Rightarrow> ('h, 'j) event list \<times> 'h set" where
  "publish_outcome records pruned removed objects published =
     (map Transaction records @ map ObjectRemoved removed @ map ObjectEvent objects @ map TransactionPruned pruned,
      (published \<union> t_final ` set (filter (\<lambda>r. tx_terminal (t_state r)) records)) - set pruned)"

definition unpublished_terminal ::
    "'h transaction_record list \<Rightarrow> 'h set \<Rightarrow> 'h transaction_record list \<Rightarrow> 'h transaction_record list" where
  "unpublished_terminal records published changed =
     filter (\<lambda>r. tx_terminal (t_state r) \<and> t_final r \<notin> published \<and> t_final r \<notin> t_final ` set changed) records"

text \<open>The objects \<open>prune_transactions\<close> reports: the files it changed, when it changed any.\<close>

definition pruned_objects ::
    "('h, 'o) obj_lib \<Rightarrow> hold_table \<Rightarrow> 'h transaction_record list \<Rightarrow> ('h, 'o, 'cp) prune_acc
     \<Rightarrow> (driver_error, 'h object_summary list) outcome" where
  "pruned_objects L held records pa =
     (if sa_changed (pa_acc pa) = [] then Ok []
      else obind (load_object_files (sa_store (pa_acc pa))) (\<lambda>entries.
        Ok (map (object_summary L (filter (\<lambda>r. t_final r \<notin> set (pa_pruned pa)) records) held (imported_keys (sa_store (pa_acc pa))))
              (filter (\<lambda>e. fst e \<in> set (sa_changed (pa_acc pa))) entries))))"

text \<open>A listing of the records: \<open>None\<close> when the directory cannot be read; otherwise the records, less those in the given set,
  whose files could not be read this time and are skipped.\<close>

definition list_transactions ::
    "('h, 'o) obj_lib \<Rightarrow> 'h set option \<Rightarrow> ('h, 'o, 'cp) driver_store \<Rightarrow> (driver_error, 'h transaction_record list) outcome" where
  "list_transactions L readable s =
     (case readable of
        None \<Rightarrow> Err (OtherError ''failed to read the transactions'')
      | Some skipped \<Rightarrow> Ok (filter (\<lambda>r. t_final r \<notin> skipped) (load_records L s)))"

text \<open>How the listings of one pass go: the fallback after a failed settlement, the check for unannounced records, and
  the one that pruning starts from. The listing inside settlement is part of the chain's answers below.\<close>

record 'h pass_listings =
  pl_fallback :: "'h set option"
  pl_check :: "'h set option"
  pl_prune :: "'h set option"

record ('h, 'o, 'cp, 'j) settler =
  sl_store :: "('h, 'o, 'cp) driver_store"
  sl_reconciled :: "('h \<times> 'h transaction_record) list"
  sl_published :: "'h set"
  sl_events :: "('h, 'j) event list"

text \<open>The settlement of a pass; the chain's answers are a view for \<open>settle_apply\<close>, or \<open>None\<close> when they, or the
  records settlement lists, could not be read.\<close>

definition pass_settled ::
    "('h, 'o) obj_lib \<Rightarrow> ('h, 'cp) settle_view option \<Rightarrow> hold_table \<Rightarrow> nat \<Rightarrow> ('h, 'o, 'cp) driver_store
     \<Rightarrow> (driver_error, 'h settle_outcome \<times> 'h object_summary list) outcome \<times> ('h, 'o, 'cp) driver_store" where
  "pass_settled L view held settled_at s =
     (case view of
        None \<Rightarrow> (Err (OtherError ''settlement unavailable''), s)
      | Some V \<Rightarrow>
          if settle_idle L False s
          then (Ok (\<lparr> so_records = [], so_objects = [], so_removed = [], so_open = 0, so_unattempted = 0 \<rparr>, []), s)
          else settle_apply L False V settled_at held s)"

text \<open>The outcome a pass goes on with: settlement's own, or the counts of the fallback listing.\<close>

definition pass_outcome ::
    "('h, 'o) obj_lib \<Rightarrow> 'h set option \<Rightarrow> (driver_error, 'h settle_outcome \<times> 'h object_summary list) outcome
     \<Rightarrow> ('h, 'o, 'cp) driver_store \<Rightarrow> (driver_error, 'h settle_outcome) outcome" where
  "pass_outcome L fallback settled s =
     (case settled of
        Ok (out, _) \<Rightarrow> Ok out
      | Err _ \<Rightarrow>
          obind (list_transactions L fallback s) (\<lambda>records.
            Ok \<lparr> so_records = [], so_objects = [], so_removed = [], so_open = length (filter is_open records),
                 so_unattempted = length (filter (\<lambda>r. is_open r \<and> \<not> needs_tx_status r) records) \<rparr>)
      | Panic \<Rightarrow> Panic)"

text \<open>When its listing fails, the check changes nothing and the pass goes on.\<close>

definition add_unpublished_terminal ::
    "('h, 'o) obj_lib \<Rightarrow> 'h set option \<Rightarrow> ('h, 'o, 'cp) driver_store \<Rightarrow> 'h transaction_record list \<Rightarrow> 'h set
     \<Rightarrow> 'h transaction_record list \<times> 'h set" where
  "add_unpublished_terminal L check s changed published =
     (case list_transactions L check s of
        Ok records \<Rightarrow>
          let published' = published \<inter> t_final ` set records
          in (changed @ unpublished_terminal records published' changed, published')
      | _ \<Rightarrow> (changed, published))"

text \<open>Pruning in a pass: what was pruned, the files removed, the objects changed and the next cleanup, or an error, with the
  store and the reconciled records afterwards.\<close>

definition pass_pruned ::
    "('h, 'o) obj_lib \<Rightarrow> 'h set option \<Rightarrow> hold_table \<Rightarrow> nat \<Rightarrow> ('h \<times> 'h transaction_record) list \<Rightarrow> ('h, 'o, 'cp) driver_store
     \<Rightarrow> (driver_error, 'h list \<times> string list \<times> 'h object_summary list \<times> nat option) outcome
       \<times> ('h \<times> 'h transaction_record) list \<times> ('h, 'o, 'cp) driver_store" where
  "pass_pruned L listing held now reconciled s =
     (case list_transactions L listing s of
        Ok records \<Rightarrow>
          let pa = prune_listed L held now reconciled records s
          in (obind (pruned_objects L held records pa) (\<lambda>objects. Ok (pa_pruned pa, sa_removed (pa_acc pa), objects, pa_next pa)),
              pa_reconciled pa, sa_store (pa_acc pa))
      | Err e \<Rightarrow> (Err e, reconciled, s)
      | Panic \<Rightarrow> (Panic, reconciled, s))"

text \<open>The result of a pass is the number of open and of unattempted records, and the next cleanup. It ends early, with
  nothing announced, when settlement and the fallback listing both fail.\<close>

definition settler_pass ::
    "('h, 'o) obj_lib \<Rightarrow> 'h pass_listings \<Rightarrow> ('h, 'cp) settle_view option \<Rightarrow> hold_table \<Rightarrow> nat \<Rightarrow> nat \<Rightarrow> ('h, 'o, 'cp, 'j) settler
     \<Rightarrow> (driver_error, nat \<times> nat \<times> nat option) outcome \<times> ('h, 'o, 'cp, 'j) settler" where
  "settler_pass L F view held settled_at prune_at S =
     (case pass_settled L view held settled_at (sl_store S) of
        (settled, s1) \<Rightarrow>
          (case pass_outcome L (pl_fallback F) settled s1 of
             Ok out \<Rightarrow>
               (case add_unpublished_terminal L (pl_check F) s1 (so_records out) (sl_published S) of
                  (changed, published) \<Rightarrow>
                    (case pass_pruned L (pl_prune F) held prune_at (sl_reconciled S) s1 of
                       (Ok (pruned, removed, objects, next_cleanup), reconciled, s2) \<Rightarrow>
                         (case publish_outcome changed pruned (so_removed out @ removed) (so_objects out @ objects) published of
                            (evs, published') \<Rightarrow>
                              (Ok (so_open out, so_unattempted out, next_cleanup),
                               S\<lparr> sl_store := s2, sl_reconciled := reconciled, sl_published := published', sl_events := sl_events S @ evs \<rparr>))
                     | (res, reconciled, s2) \<Rightarrow>
                         (case publish_outcome changed [] (so_removed out) (so_objects out) published of
                            (evs, published') \<Rightarrow>
                              (Err (OtherError ''pruning failed''),
                               S\<lparr> sl_store := s2, sl_reconciled := reconciled, sl_published := published', sl_events := sl_events S @ evs \<rparr>))))
           | Err e \<Rightarrow> (Err e, S\<lparr> sl_store := s1 \<rparr>)
           | Panic \<Rightarrow> (Panic, S\<lparr> sl_store := s1 \<rparr>)))"

text \<open>The records of submissions that were retried, as they are now.\<close>

definition publish_updates ::
    "'h list \<Rightarrow> 'h object_summary list \<Rightarrow> ('h, 'o, 'cp, 'j) settler \<Rightarrow> ('h, 'o, 'cp, 'j) settler" where
  "publish_updates updates objects S =
     (case publish_outcome (List.map_filter (read_record (sl_store S)) updates) [] [] objects (sl_published S) of
        (evs, published') \<Rightarrow> S\<lparr> sl_published := published', sl_events := sl_events S @ evs \<rparr>)"

text \<open>A listing a client asked for; when the chain cannot be read the files are listed as they are.\<close>

definition settler_sync ::
    "('h, 'o) obj_lib \<Rightarrow> ('h, 'cp) settle_view option \<Rightarrow> hold_table \<Rightarrow> nat \<Rightarrow> ('h, 'o, 'cp, 'j) settler \<Rightarrow> ('h, 'o, 'cp, 'j) settler" where
  "settler_sync L view held settled_at S =
     (case view of
        None \<Rightarrow> S
      | Some V \<Rightarrow>
          (case settle_apply L True V settled_at held (sl_store S) of
             (Ok (out, _), s1) \<Rightarrow>
               (case publish_outcome (so_records out) [] (so_removed out) (so_objects out) (sl_published S) of
                  (evs, published') \<Rightarrow>
                    S\<lparr> sl_store := s1, sl_published := published', sl_events := sl_events S @ evs \<rparr>)
           | (_, s1) \<Rightarrow> S\<lparr> sl_store := s1 \<rparr>))"

end
