(* ===== verification/Dobjd_Settle_Properties.thy ===== *)
theory Dobjd_Settle_Properties
  imports Dobjd_Settle
begin

text \<open>
  Properties of the settler: retries of submissions are bounded, and a transaction is announced as finished before it is
  announced as pruned.
\<close>

section \<open>Retries\<close>

text \<open>Running retries are the ones handed out and not yet completed.\<close>

definition retry_ok :: "submission_retry \<Rightarrow> bool" where
  "retry_ok retry \<longleftrightarrow> SETTLE_INTERVAL \<le> sr_delay retry \<and> sr_delay retry \<le> MAX_RETRY_DELAY"

definition flying :: "'h submission_retries \<Rightarrow> 'h set" where
  "flying attempts = {h. \<exists>retry. map_of attempts h = Some retry \<and> sr_in_flight retry}"

definition retries_wf :: "'h submission_retries \<Rightarrow> bool" where
  "retries_wf attempts \<longleftrightarrow> distinct (map fst attempts) \<and> (\<forall>p \<in> set attempts. retry_ok (snd p))
     \<and> card (flying attempts) \<le> MAX_SUBMISSION_RETRIES"

lemma in_flight_count_card:
  assumes "distinct (map fst attempts)"
  shows "in_flight_count attempts = card (flying attempts)" and "finite (flying attempts)"
proof -
  have f: "flying attempts = fst ` set (filter (\<lambda>p. sr_in_flight (snd p)) attempts)"
    using assms by (force simp: flying_def image_iff)
  show "finite (flying attempts)" unfolding f by simp
  have "distinct (map fst (filter (\<lambda>p. sr_in_flight (snd p)) attempts))" using assms by (rule distinct_map_filter)
  then show "in_flight_count attempts = card (flying attempts)"
    unfolding f in_flight_count_def using distinct_card by fastforce
qed

lemma flying_insert: "flying (hm_insert h retry attempts) = (if sr_in_flight retry then insert h (flying attempts) else flying attempts - {h})"
  by (auto simp: flying_def)

lemma hm_insert_all: "(\<forall>p \<in> set attempts. P (snd p)) \<Longrightarrow> P x \<Longrightarrow> \<forall>p \<in> set (hm_insert h x attempts). P (snd p)"
  by (auto simp: hm_insert_def)

lemma due_loop_ok:
  assumes "due_loop now rs capacity attempts = (due, attempts')" and "distinct (map fst attempts)" and "\<forall>p \<in> set attempts. retry_ok (snd p)"
  shows "distinct (map fst attempts') \<and> (\<forall>p \<in> set attempts'. retry_ok (snd p)) \<and> length due \<le> capacity \<and> distinct due
    \<and> set due \<inter> flying attempts = {} \<and> flying attempts' = flying attempts \<union> set due \<and> set due \<subseteq> t_final ` set rs
    \<and> (\<forall>h \<in> set due. \<exists>retry. map_of attempts h = Some retry \<and> sr_next_attempt retry \<le> now)"
  using assms
proof (induction now rs capacity attempts arbitrary: due attempts' rule: due_loop.induct)
  case (2 now r rs capacity attempts)
  define retry where "retry = (case map_of attempts (t_final r) of Some x \<Rightarrow> x | None \<Rightarrow> fresh_retry now)"
  have ro: "retry_ok retry"
    using "2.prems"(3) by (auto simp: retry_def retry_ok_def fresh_retry_def SETTLE_INTERVAL_def MAX_RETRY_DELAY_def split: option.splits
        dest!: map_of_SomeD)
  have seen: "map_of attempts (t_final r) = Some retry" if "sr_next_attempt retry \<le> now"
    using that by (auto simp: retry_def fresh_retry_def SETTLE_INTERVAL_def split: option.splits)
  show ?case
  proof (cases "capacity = 0 \<or> sr_in_flight retry \<or> now < sr_next_attempt retry")
    case True
    let ?a = "hm_insert (t_final r) retry attempts"
    have d: "due_loop now rs capacity ?a = (due, attempts')" using "2.prems"(1) True by (simp add: Let_def retry_def [symmetric])
    have same: "flying ?a = flying attempts"
      by (auto simp: flying_insert retry_def flying_def fresh_retry_def split: option.splits)
    have "\<exists>retry. map_of attempts h = Some retry \<and> sr_next_attempt retry \<le> now"
      if "\<exists>x. map_of ?a h = Some x \<and> sr_next_attempt x \<le> now" for h
      using that seen by (auto split: if_splits)
    then show ?thesis
      using "2.IH"(1) [OF retry_def True d] distinct_hm_insert [OF "2.prems"(2)] hm_insert_all [OF "2.prems"(3) ro] same by auto
  next
    case False
    let ?a = "hm_insert (t_final r) (retry\<lparr> sr_in_flight := True \<rparr>) attempts"
    obtain due1 where d: "due_loop now rs (capacity - 1) ?a = (due1, attempts')" "due = t_final r # due1"
      using "2.prems"(1) False by (auto simp: Let_def retry_def [symmetric] split: prod.splits)
    have ro': "retry_ok (retry\<lparr> sr_in_flight := True \<rparr>)" using ro by (simp add: retry_ok_def)
    have ih: "distinct (map fst attempts') \<and> (\<forall>p \<in> set attempts'. retry_ok (snd p)) \<and> length due1 \<le> capacity - 1 \<and> distinct due1
      \<and> set due1 \<inter> flying ?a = {} \<and> flying attempts' = flying ?a \<union> set due1 \<and> set due1 \<subseteq> t_final ` set rs
      \<and> (\<forall>h \<in> set due1. \<exists>retry. map_of ?a h = Some retry \<and> sr_next_attempt retry \<le> now)"
      using "2.IH"(2) [OF retry_def False d(1)] distinct_hm_insert [OF "2.prems"(2)] hm_insert_all [OF "2.prems"(3) ro'] by blast
    have fl: "flying ?a = insert (t_final r) (flying attempts)" by (simp add: flying_insert)
    have new: "t_final r \<notin> flying attempts" using False by (auto simp: flying_def retry_def)
    have "\<exists>retry. map_of attempts h = Some retry \<and> sr_next_attempt retry \<le> now" if "h \<in> set due" for h
      using that ih d(2) seen False fl by (auto split: if_splits)
    then show ?thesis using ih d(2) fl new False by auto
  qed
qed simp

text \<open>The retry table with the tasks it started.\<close>

inductive retries_reach :: "'h submission_retries \<Rightarrow> 'h list \<Rightarrow> bool" where
  start: "retries_reach [] []"
| due: "retries_reach attempts running \<Longrightarrow> retries_due now records attempts = (due, attempts') \<Longrightarrow>
    retries_reach attempts' (running @ due)"
| complete: "retries_reach attempts running \<Longrightarrow> txf \<in> set running \<Longrightarrow>
    retries_reach (retries_complete txf now succeeded attempts) (filter (\<lambda>h. h \<noteq> txf) running)"

lemma flying_filter: "distinct (map fst attempts) \<Longrightarrow> flying (filter P attempts) = {h. \<exists>retry. map_of attempts h = Some retry \<and> sr_in_flight retry \<and> P (h, retry)}"
  by (auto simp: flying_def distinct_map_filter map_of_eq_Some_iff)

lemma retries_due_ok:
  assumes "retries_wf attempts" and "retries_due now records attempts = (due, attempts')"
  shows "retries_wf attempts'" and "distinct due" and "set due \<inter> flying attempts = {}" and "flying attempts' = flying attempts \<union> set due"
    and "h \<in> set due \<Longrightarrow> \<exists>r \<in> set records. t_final r = h \<and> t_state r = TRecorded \<and> t_submit_attempted_at_ms r \<noteq> None"
    and "h \<in> set due \<Longrightarrow> \<exists>retry. map_of attempts h = Some retry \<and> sr_next_attempt retry \<le> now"
proof -
  define kept where "kept = filter (\<lambda>p. sr_in_flight (snd p) \<or> fst p \<in> t_final ` set (retry_pending records)) attempts"
  have d: "distinct (map fst attempts)" and o: "\<forall>p \<in> set attempts. retry_ok (snd p)"
    and c: "card (flying attempts) \<le> MAX_SUBMISSION_RETRIES"
    using assms(1) by (simp_all add: retries_wf_def)
  have dk: "distinct (map fst kept)" and ok: "\<forall>p \<in> set kept. retry_ok (snd p)"
    using d o by (auto simp: kept_def distinct_map_filter)
  have fk: "flying kept = flying attempts" using flying_filter [OF d] by (auto simp: kept_def flying_def)
  have run: "due_loop now (retry_pending records) (MAX_SUBMISSION_RETRIES - card (flying attempts)) kept = (due, attempts')"
    using assms(2) in_flight_count_card(1) [OF dk] fk by (simp add: retries_due_def Let_def kept_def)
  note res = due_loop_ok [OF run dk ok]
  then show "distinct due" "set due \<inter> flying attempts = {}" "flying attempts' = flying attempts \<union> set due" using fk by auto
  have "card (flying attempts \<union> set due) \<le> card (flying attempts) + length due"
    using card_Un_le [of "flying attempts" "set due"] card_length [of due] by linarith
  then show "retries_wf attempts'" using res c fk by (auto simp: retries_wf_def)
  show "\<exists>r \<in> set records. t_final r = h \<and> t_state r = TRecorded \<and> t_submit_attempted_at_ms r \<noteq> None" if "h \<in> set due"
    using res that by (fastforce simp: retry_pending_def)
  show "\<exists>retry. map_of attempts h = Some retry \<and> sr_next_attempt retry \<le> now" if h: "h \<in> set due"
  proof -
    obtain retry where "map_of kept h = Some retry" "sr_next_attempt retry \<le> now" using res h by blast
    moreover from this have "map_of attempts h = Some retry"
      using d dk by (auto simp: kept_def map_of_eq_Some_iff)
    ultimately show ?thesis by blast
  qed
qed

lemma retries_complete_ok:
  assumes "retries_wf attempts"
  shows "retries_wf (retries_complete h now succeeded attempts)"
    and "flying (retries_complete h now succeeded attempts) = flying attempts - {h}"
proof -
  have d: "distinct (map fst attempts)" and o: "\<forall>p \<in> set attempts. retry_ok (snd p)" using assms by (simp_all add: retries_wf_def)
  show f: "flying (retries_complete h now succeeded attempts) = flying attempts - {h}"
  proof (cases succeeded)
    case True
    then show ?thesis using flying_filter [OF d] by (auto simp: retries_complete_def flying_def)
  next
    case False
    then show ?thesis
      by (cases "map_of attempts h") (auto simp: retries_complete_def Let_def flying_insert, auto simp: flying_def)
  qed
  have "distinct (map fst (retries_complete h now succeeded attempts))"
    using d by (auto simp: retries_complete_def Let_def distinct_map_filter distinct_hm_insert split: option.splits)
  moreover have "\<forall>p \<in> set (retries_complete h now succeeded attempts). retry_ok (snd p)"
  proof (cases "\<not> succeeded \<and> map_of attempts h \<noteq> None")
    case True
    then obtain retry where r: "map_of attempts h = Some retry" by blast
    have "retry_ok retry" using o map_of_SomeD [OF r] by auto
    then have n: "retry_ok \<lparr> sr_next_attempt = now + min (sr_delay retry * 2) MAX_RETRY_DELAY,
        sr_delay = min (sr_delay retry * 2) MAX_RETRY_DELAY, sr_in_flight = False \<rparr>"
      by (auto simp: retry_ok_def SETTLE_INTERVAL_def MAX_RETRY_DELAY_def)
    show ?thesis using True r hm_insert_all [OF o n] by (simp add: retries_complete_def Let_def)
  next
    case False
    then show ?thesis using o by (auto simp: retries_complete_def)
  qed
  moreover have "card (flying attempts - {h}) \<le> card (flying attempts)"
    using in_flight_count_card(2) [OF d] by (simp add: card_mono)
  ultimately show "retries_wf (retries_complete h now succeeded attempts)"
    using assms f by (auto simp: retries_wf_def)
qed

lemma retries_reach_ok:
  "retries_reach attempts running \<Longrightarrow> retries_wf attempts \<and> flying attempts = set running \<and> distinct running"
proof (induction rule: retries_reach.induct)
  case start
  then show ?case by (simp add: retries_wf_def flying_def)
next
  case (due attempts running now records due attempts')
  then show ?case using retries_due_ok [of attempts now records due attempts'] by auto
next
  case (complete attempts running txf now succeeded)
  then show ?case using retries_complete_ok [of attempts txf now succeeded] by auto
qed

text \<open>C29. The retries the settler runs: at any moment at most four, never two of one transaction, the delay before the
  next attempt always between 1.5 s and a minute; and a pass starts retries only of recorded transactions whose submission was
  attempted, which the table already knew and whose waiting time is over, none of them running already.\<close>

theorem submission_retries_bounded:
  assumes "retries_reach attempts running" and "retries_due now records attempts = (due, attempts')"
  shows "length (running @ due) \<le> MAX_SUBMISSION_RETRIES \<and> distinct (running @ due)
    \<and> (\<forall>p \<in> set attempts'. SETTLE_INTERVAL \<le> sr_delay (snd p) \<and> sr_delay (snd p) \<le> MAX_RETRY_DELAY)
    \<and> (\<forall>h \<in> set due. (\<exists>r \<in> set records. t_final r = h \<and> t_state r = TRecorded \<and> t_submit_attempted_at_ms r \<noteq> None)
         \<and> (\<exists>retry. map_of attempts h = Some retry \<and> sr_next_attempt retry \<le> now))"
proof -
  have "retries_wf attempts" using retries_reach_ok [OF assms(1)] by blast
  note here = retries_due_ok(5,6) [OF this assms(2)]
  have after: "retries_wf attempts'" "flying attempts' = set (running @ due)" "distinct (running @ due)"
    using retries_reach_ok [OF retries_reach.due [OF assms]] by blast+
  then have "length (running @ due) \<le> MAX_SUBMISSION_RETRIES"
    using distinct_card [OF after(3)] by (simp add: retries_wf_def)
  with after(1,3) here show ?thesis by (auto simp: retries_wf_def retry_ok_def)
qed

text \<open>A transaction whose submission was cut off, first seen at instant 0 and retried at 2 s.\<close>

definition cut_off :: "nat transaction_record" where
  "cut_off = (recorded 9 \<lparr> plugin_name = ''p'', qn_name = ''c'' \<rparr> ''run'' [] [] 6 100 [] [] 50)\<lparr> t_submit_attempted_at_ms := Some 60 \<rparr>"

lemma cut_off_reach: "retries_reach [(9 :: nat, fresh_retry 0)] []"
  using retries_reach.due [OF retries_reach.start, of 0 "[cut_off]" "[]" "[(9, fresh_retry 0)]"]
  by (simp add: retries_due_def retry_pending_def cut_off_def recorded_def Let_def hm_insert_def fresh_retry_def SETTLE_INTERVAL_def)

lemma cut_off_due:
  "retries_due 2000000000 [cut_off] [(9, fresh_retry 0)] = ([9], [(9, (fresh_retry 0)\<lparr> sr_in_flight := True \<rparr>)])"
  by (simp add: retries_due_def retry_pending_def cut_off_def recorded_def Let_def hm_insert_def fresh_retry_def SETTLE_INTERVAL_def
      in_flight_count_def MAX_SUBMISSION_RETRIES_def)

lemma submission_retries_bounded_witness:
  "length ([] @ [9 :: nat]) \<le> MAX_SUBMISSION_RETRIES
    \<and> (\<exists>retry. map_of [(9 :: nat, fresh_retry 0)] 9 = Some retry \<and> sr_next_attempt retry \<le> 2000000000)"
  using submission_retries_bounded [OF cut_off_reach cut_off_due] by simp

section \<open>Announcements\<close>

lemma persist_changed_keeps:
  assumes "persist_changed L held locked rs acc = (rs', acc')"
  shows "map (\<lambda>r. (t_final r, t_state r)) rs' = map (\<lambda>r. (t_final r, t_state r)) rs"
  using assms
proof (induction L held locked rs acc arbitrary: rs' acc' rule: persist_changed.induct)
  case (2 L held locked r rs acc)
  show ?case
  proof (cases "tx_terminal (t_state r)")
    case False
    then show ?thesis using "2.IH"(1) "2.prems" by (auto split: prod.splits)
  next
    case True
    obtain res r1 acc1 where p: "persist_settled_objects L held locked r acc = (res, r1, acc1)" by (metis prod_cases3)
    let ?acc1 = "if res = Ok () \<and> r1 \<noteq> r then acc1\<lparr> sa_store := write_record r1 (sa_store acc1) \<rparr> else acc1"
    obtain rs1 acc3 where q: "persist_changed L held locked rs
        (?acc1\<lparr> sa_changed := t_output_files r1 @ t_input_files r1 @ sa_changed ?acc1 \<rparr>) = (rs1, acc3)" by (metis surj_pair)
    have "rs' = r1 # rs1" using "2.prems" True p q by (simp add: Let_def split: if_splits)
    moreover have "map (\<lambda>r. (t_final r, t_state r)) rs1 = map (\<lambda>r. (t_final r, t_state r)) rs"
      by (rule "2.IH"(2) [OF _ p [symmetric] refl refl refl q]) (use True in simp)
    ultimately show ?thesis using persist_settled_txs(2) [OF p] by simp
  qed
qed simp

text \<open>A record that settlement reports is in the state its file has.\<close>

lemma settle_reports_stored:
  assumes "txs_ok s" and "settle_apply L all V now held s = (Ok (out, objs), s1)" and "r' \<in> set (so_records out)"
  shows "record_states s1 (t_final r') = Some (t_state r')"
proof -
  define before where "before = load_records L s"
  define f where "f = settle_record now (sv_queried V) (sv_jobs V) (sv_statuses V) (sv_head_block V)"
  define changed where "changed = map snd (filter (\<lambda>(b, r). b \<noteq> r) (zip before (map f before)))"
  obtain rs' acc where p: "persist_changed L held (locked_inputs (map f before)) changed
      \<lparr> sa_store = fold write_record changed s, sa_changed = [], sa_removed = [], sa_spent = [] \<rparr> = (rs', acc)"
    by (metis surj_pair)
  have "so_records out = rs'"
    using assms(2) p
    by (auto simp: settle_apply_def Let_def before_def [symmetric] f_def [symmetric] changed_def [symmetric]
        split: outcome.splits prod.splits)
  then have "(t_final r', t_state r') \<in> set (map (\<lambda>r. (t_final r, t_state r)) rs')" using assms(3) by simp
  then have "(t_final r', t_state r') \<in> set (map (\<lambda>r. (t_final r, t_state r)) changed)"
    unfolding persist_changed_keeps [OF p] .
  then obtain r where r: "r \<in> set changed" "t_final r' = t_final r" "t_state r' = t_state r" by auto
  then obtain r0 where r0: "r0 \<in> set before" "r = f r0" by (auto simp: changed_def set_zip) (metis nth_mem)
  then have "read_record s (t_final r0) = Some r0" using set_load_records [OF assms(1)] by (simp add: before_def)
  moreover have "t_final r = t_final r0" using settle_record_step [of r0] r0(2) by (simp add: record_step_def f_def)
  ultimately show ?thesis
    using settle_apply_states [OF assms(1), of L all V now held "t_final r0"] assms(2) r r0(2) by (simp add: f_def)
qed

lemma pruned_terminal:
  assumes "h \<in> set (pa_pruned (prune_listed L held now reconciled records s))"
  shows "\<exists>r \<in> set records. t_final r = h \<and> tx_terminal (t_state r)"
proof -
  have step: "set (pa_pruned (prune_record L held locked now r0 acc)) \<subseteq> insert (t_final r0) (set (pa_pruned acc))" for locked r0 acc
  proof -
    obtain res r sacc where p: "persist_settled_objects L held locked r0 (pa_acc acc) = (res, r, sacc)" by (metis prod_cases3)
    then show ?thesis using persist_settled_txs(2) [OF p] by (cases res) (auto simp: prune_record_def Let_def)
  qed
  have "set (pa_pruned (fold (prune_record L held locked now) rs acc)) \<subseteq> t_final ` set rs \<union> set (pa_pruned acc)" for locked rs acc
  proof (induction rs arbitrary: acc)
    case (Cons r rs)
    show ?case using Cons [of "prune_record L held locked now r acc"] step [of locked r acc] by auto
  qed simp
  from subsetD [OF this assms [unfolded prune_listed_def Let_def]] show ?thesis by auto
qed

text \<open>A transaction is announced by an event that carries its record in a final state.\<close>

definition announced :: "('h, 'j) event list \<Rightarrow> 'h \<Rightarrow> bool" where
  "announced evs h \<longleftrightarrow> (\<exists>r. Transaction r \<in> set evs \<and> t_final r = h \<and> tx_terminal (t_state r))"

definition pruned_after :: "('h, 'j) event list \<Rightarrow> bool" where
  "pruned_after evs \<longleftrightarrow> (\<forall>i h. i < length evs \<longrightarrow> evs ! i = TransactionPruned h \<longrightarrow> announced (take i evs) h)"

text \<open>The settler between its steps; other parts of the driver change the store meanwhile. In every pass the listing of
  the check for unannounced records is complete; settlement and the other listings may fail or skip records.\<close>

inductive settler_reach :: "('h, 'o) obj_lib \<Rightarrow> ('h, 'o, 'cp, 'j) settler \<Rightarrow> bool" for L where
  start: "txs_ok s \<Longrightarrow> settler_reach L \<lparr> sl_store = s, sl_reconciled = [], sl_published = {}, sl_events = [] \<rparr>"
| elsewhere: "settler_reach L S \<Longrightarrow> txs_ok s \<Longrightarrow> settler_reach L (S\<lparr> sl_store := s \<rparr>)"
| pass: "settler_reach L S \<Longrightarrow> pl_check F = Some {} \<Longrightarrow> settler_reach L (snd (settler_pass L F view held settled_at prune_at S))"
| updates: "settler_reach L S \<Longrightarrow> settler_reach L (publish_updates ups objects S)"
| sync: "settler_reach L S \<Longrightarrow> settler_reach L (settler_sync L view held settled_at S)"

definition settler_ok :: "('h, 'o, 'cp, 'j) settler \<Rightarrow> bool" where
  "settler_ok S \<longleftrightarrow> txs_ok (sl_store S) \<and> (\<forall>h \<in> sl_published S. announced (sl_events S) h) \<and> pruned_after (sl_events S)"

lemma announced_append: "announced (evs @ evs') h \<longleftrightarrow> announced evs h \<or> announced evs' h"
  by (auto simp: announced_def)

lemma pruned_after_append:
  assumes "pruned_after evs" and "\<And>h. TransactionPruned h \<notin> set xs" and "\<And>h. h \<in> set pruned \<Longrightarrow> announced (evs @ xs) h"
  shows "pruned_after (evs @ xs @ map TransactionPruned pruned)"
  unfolding pruned_after_def
proof (intro allI impI)
  fix i h assume i: "i < length (evs @ xs @ map TransactionPruned pruned)" "(evs @ xs @ map TransactionPruned pruned) ! i = TransactionPruned h"
  consider "i < length evs" | "length evs \<le> i" "i < length (evs @ xs)" | "length (evs @ xs) \<le> i" by linarith
  then show "announced (take i (evs @ xs @ map TransactionPruned pruned)) h"
  proof cases
    case 1
    then show ?thesis using assms(1) i(2) by (simp add: pruned_after_def nth_append)
  next
    case 2
    then have "TransactionPruned h \<in> set xs" using i(2) by (auto simp: nth_append) (metis add_diff_inverse_nat leD nat_add_left_cancel_less nth_mem)
    then show ?thesis using assms(2) by blast
  next
    case 3
    then have "h \<in> set pruned" using i by (auto simp: nth_append split: if_splits)
    moreover have "take i (evs @ xs @ map TransactionPruned pruned) = (evs @ xs) @ take (i - length (evs @ xs)) (map TransactionPruned pruned)"
      using 3 by simp
    ultimately show ?thesis using assms(3) announced_append by metis
  qed
qed

text \<open>What one publication does, whatever it publishes.\<close>

lemma publish_outcome_ok:
  assumes "publish_outcome records pruned removed objects published = (evs', published')"
    and "\<forall>h \<in> published. announced evs h" and "pruned_after evs"
    and "\<And>h. h \<in> set pruned \<Longrightarrow> announced evs h \<or> (\<exists>r \<in> set records. t_final r = h \<and> tx_terminal (t_state r))"
  shows "\<forall>h \<in> published'. announced (evs @ evs') h" and "pruned_after (evs @ evs')"
    and "r \<in> set records \<Longrightarrow> tx_terminal (t_state r) \<Longrightarrow> announced (evs @ evs') (t_final r)"
proof -
  let ?xs = "map Transaction records @ map ObjectRemoved removed @ map ObjectEvent objects"
  have evs': "evs' = ?xs @ map TransactionPruned pruned" and pub: "published' = (published \<union> t_final ` set (filter (\<lambda>r. tx_terminal (t_state r)) records)) - set pruned"
    using assms(1) by (simp_all add: publish_outcome_def)
  have rec: "announced (evs @ ?xs) (t_final r)" if "r \<in> set records" "tx_terminal (t_state r)" for r
    using that by (auto simp: announced_def)
  then show "announced (evs @ evs') (t_final r)" if "r \<in> set records" "tx_terminal (t_state r)"
    using that by (auto simp: evs' announced_append)
  then show "\<forall>h \<in> published'. announced (evs @ evs') h" using assms(2) rec by (auto simp: pub evs' announced_append)
  show "pruned_after (evs @ evs')"
    unfolding evs' using assms(3,4) rec by (intro pruned_after_append) (auto simp: announced_append)
qed

lemma pass_settled_ok:
  assumes "txs_ok s" and "pass_settled L view held settled_at s = (res, s1)"
  shows "txs_ok s1" and "res = Ok (out, objs) \<Longrightarrow> r \<in> set (so_records out) \<Longrightarrow> record_states s1 (t_final r) = Some (t_state r)"
proof -
  have "txs_ok (snd (settle_apply L False V settled_at held s))" for V
    using settle_apply_advances [OF assms(1)] by (simp add: advances_def)
  then show "txs_ok s1" using assms by (auto simp: pass_settled_def split: option.splits if_splits) (metis snd_conv)
  show "record_states s1 (t_final r) = Some (t_state r)" if "res = Ok (out, objs)" "r \<in> set (so_records out)"
    using assms that settle_reports_stored [OF assms(1)]
    by (fastforce simp: pass_settled_def split: option.splits if_splits)
qed

text \<open>With a complete listing the check leaves no finished record out.\<close>

lemma add_unpublished_covers:
  assumes "txs_ok s" and "add_unpublished_terminal L (Some {}) s reported published = (changed, published')"
    and "\<And>r. r \<in> set reported \<Longrightarrow> record_states s (t_final r) = Some (t_state r)"
  shows "published' \<subseteq> published"
    and "r \<in> set (load_records L s) \<Longrightarrow> tx_terminal (t_state r) \<Longrightarrow>
      t_final r \<in> published' \<or> (\<exists>r' \<in> set changed. t_final r' = t_final r \<and> tx_terminal (t_state r'))"
proof -
  have c: "published' = published \<inter> t_final ` set (load_records L s)"
    "changed = reported @ unpublished_terminal (load_records L s) published' reported"
    using assms(2) by (auto simp: add_unpublished_terminal_def list_transactions_def Let_def)
  then show "published' \<subseteq> published" by simp
  show "t_final r \<in> published' \<or> (\<exists>r' \<in> set changed. t_final r' = t_final r \<and> tx_terminal (t_state r'))"
    if r: "r \<in> set (load_records L s)" "tx_terminal (t_state r)"
  proof (cases "t_final r \<in> t_final ` set reported")
    case True
    then obtain r' where r': "r' \<in> set reported" "t_final r' = t_final r" by force
    have "read_record s (t_final r) = Some r" using r(1) set_load_records [OF assms(1)] by simp
    then have "t_state r' = t_state r" using assms(3) [OF r'(1)] r'(2) by (simp add: record_states_def)
    then show ?thesis using r' r(2) by (auto simp: c(2))
  next
    case False
    then show ?thesis using r by (auto simp: c(2) unpublished_terminal_def)
  qed
qed

lemma pass_pruned_ok:
  assumes "txs_ok s" and "pass_pruned L listing held now reconciled s = (res, reconciled', s2)"
  shows "prunes s s2"
    and "res = Ok (pruned, x) \<Longrightarrow> h \<in> set pruned \<Longrightarrow> \<exists>r \<in> set (load_records L s). t_final r = h \<and> tx_terminal (t_state r)"
proof -
  show "prunes s s2"
    using assms prunes_refl [OF assms(1)] prune_listed_prunes [OF assms(1)]
    by (cases listing) (auto simp: pass_pruned_def list_transactions_def Let_def)
  show "\<exists>r \<in> set (load_records L s). t_final r = h \<and> tx_terminal (t_state r)" if "res = Ok (pruned, x)" "h \<in> set pruned"
  proof (cases listing)
    case (Some skipped)
    then have "pruned = pa_pruned (prune_listed L held now reconciled (filter (\<lambda>r. t_final r \<notin> skipped) (load_records L s)) s)"
      using assms(2) that(1) by (auto simp: pass_pruned_def list_transactions_def Let_def)
    then show ?thesis using pruned_terminal that(2) by fastforce
  qed (use assms(2) that in \<open>simp add: pass_pruned_def list_transactions_def\<close>)
qed

lemma pass_reports_stored:
  assumes "txs_ok s" and "pass_settled L view held settled_at s = (settled, s1)" and "pass_outcome L fallback settled s1 = Ok out"
    and "r \<in> set (so_records out)"
  shows "record_states s1 (t_final r) = Some (t_state r)"
proof (cases settled)
  case (Ok x)
  then show ?thesis using pass_settled_ok(2) [OF assms(1,2)] assms(3,4) by (cases x) (simp add: pass_outcome_def)
qed (use assms(3,4) in \<open>auto simp: pass_outcome_def\<close>)

lemma settler_pass_early:
  assumes "settler_ok S" and "pass_settled L view held settled_at (sl_store S) = (settled, s1)"
    and "\<And>out. pass_outcome L (pl_fallback F) settled s1 \<noteq> Ok out"
  shows "settler_ok (snd (settler_pass L F view held settled_at prune_at S))"
  using assms pass_settled_ok(1) [OF _ assms(2)]
  by (cases "pass_outcome L (pl_fallback F) settled s1") (auto simp: settler_pass_def settler_ok_def)

text \<open>What a pass that is not cut short publishes, and the store it leaves.\<close>

lemma settler_pass_publishes:
  fixes S :: "('h, 'o, 'cp, 'j) settler"
  assumes "pass_settled L view held settled_at (sl_store S) = (settled, s1)" and "pass_outcome L (pl_fallback F) settled s1 = Ok out"
    and "add_unpublished_terminal L (pl_check F) s1 (so_records out) (sl_published S) = (changed, published)"
    and "pass_pruned L (pl_prune F) held prune_at (sl_reconciled S) s1 = (res, reconciled, s2)"
  obtains pruned removed objs and evs' :: "('h, 'j) event list" and published' where
    "publish_outcome changed pruned removed objs published = (evs', published')"
    and "pruned = [] \<or> (\<exists>x. res = Ok (pruned, x))"
    and "snd (settler_pass L F view held settled_at prune_at S)
      = S\<lparr> sl_store := s2, sl_reconciled := reconciled, sl_published := published', sl_events := sl_events S @ evs' \<rparr>"
proof -
  obtain e1 :: "('h, 'j) event list" and p1 where e1: "publish_outcome changed [] (so_removed out) (so_objects out) published = (e1, p1)"
    by (metis surj_pair)
  show thesis
  proof (cases res)
    case (Ok x)
    obtain pruned removed objects nxt where x: "x = (pruned, removed, objects, nxt)" by (metis prod_cases4)
    obtain e :: "('h, 'j) event list" and p where e: "publish_outcome changed pruned (so_removed out @ removed) (so_objects out @ objects) published = (e, p)"
      by (metis surj_pair)
    show thesis by (rule that [OF e]) (use Ok x e assms in \<open>simp_all add: settler_pass_def\<close>)
  qed (rule that [OF e1]; use e1 assms in \<open>simp add: settler_pass_def\<close>)+
qed

lemma settler_pass_ok:
  fixes S :: "('h, 'o, 'cp, 'j) settler"
  assumes "settler_ok S" and "pl_check F = Some {}"
  shows "settler_ok (snd (settler_pass L F view held settled_at prune_at S))"
    and "pass_settled L view held settled_at (sl_store S) = (settled, s1) \<Longrightarrow> pass_outcome L (pl_fallback F) settled s1 = Ok out \<Longrightarrow>
      read_record (sl_store (snd (settler_pass L F view held settled_at prune_at S))) h = Some r \<Longrightarrow> tx_terminal (t_state r) \<Longrightarrow>
      announced (sl_events (snd (settler_pass L F view held settled_at prune_at S))) h"
proof -
  let ?S' = "snd (settler_pass L F view held settled_at prune_at S)"
  have S: "txs_ok (sl_store S)" "\<forall>h \<in> sl_published S. announced (sl_events S) h" "pruned_after (sl_events S)"
    using assms(1) by (simp_all add: settler_ok_def)
  have main: "settler_ok ?S' \<and> (\<forall>h r. read_record (sl_store ?S') h = Some r \<and> tx_terminal (t_state r) \<longrightarrow> announced (sl_events ?S') h)"
    if q: "pass_settled L view held settled_at (sl_store S) = (settled, s1)" and out: "pass_outcome L (pl_fallback F) settled s1 = Ok out"
    for settled s1 out
  proof -
    obtain changed published where c: "add_unpublished_terminal L (pl_check F) s1 (so_records out) (sl_published S) = (changed, published)"
      by (metis surj_pair)
    obtain res reconciled s2 where pp: "pass_pruned L (pl_prune F) held prune_at (sl_reconciled S) s1 = (res, reconciled, s2)"
      by (metis prod_cases3)
    obtain pruned removed objs evs' published' where P: "publish_outcome changed pruned removed objs published = (evs', published')"
      and pruned: "pruned = [] \<or> (\<exists>x. res = Ok (pruned, x))"
      and S': "?S' = S\<lparr> sl_store := s2, sl_reconciled := reconciled, sl_published := published', sl_events := sl_events S @ evs' \<rparr>"
      by (rule settler_pass_publishes [OF q out c pp])
    have ok1: "txs_ok s1" by (rule pass_settled_ok(1) [OF S(1) q])
    have stored: "\<And>r. r \<in> set (so_records out) \<Longrightarrow> record_states s1 (t_final r) = Some (t_state r)"
      by (rule pass_reports_stored [OF S(1) q out])
    have sub: "published \<subseteq> sl_published S" by (rule add_unpublished_covers(1) [OF ok1 c [unfolded assms(2)]]) (rule stored)
    have cover: "t_final r \<in> published \<or> (\<exists>r' \<in> set changed. t_final r' = t_final r \<and> tx_terminal (t_state r'))"
      if "r \<in> set (load_records L s1)" "tx_terminal (t_state r)" for r
      by (rule add_unpublished_covers(2) [OF ok1 c [unfolded assms(2)] _ that]) (rule stored)
    have pub: "\<forall>h \<in> published. announced (sl_events S) h" using S(2) sub by blast
    have known: "announced (sl_events S) h \<or> (\<exists>r \<in> set changed. t_final r = h \<and> tx_terminal (t_state r))" if "h \<in> set pruned" for h
      using pass_pruned_ok(2) [OF ok1 pp _ that] pruned that cover pub by fastforce
    note res = publish_outcome_ok [OF P pub S(3) known]
    have pr: "prunes s1 s2" by (rule pass_pruned_ok(1) [OF ok1 pp])
    have "announced (sl_events S @ evs') h" if f: "read_record s2 h = Some r" "tx_terminal (t_state r)" for h r
    proof -
      obtain r0 where r0: "read_record s1 h = Some r0" using pr f(1) unfolding prunes_def by blast
      have t: "tx_terminal (t_state r0)" using pr f r0 unfolding prunes_def open_at_def is_open_def by (metis option.inject)
      have h: "t_final r0 = h" using ok1 r0 by (simp add: txs_ok_def)
      then have "r0 \<in> set (load_records L s1)" using set_load_records [OF ok1, of r0 L] r0 by simp
      from cover [OF this t] show ?thesis using pub res(3) h by (metis announced_append)
    qed
    then show ?thesis unfolding S' using res(1,2) pr by (auto simp: settler_ok_def prunes_def)
  qed
  obtain settled0 s10 where q: "pass_settled L view held settled_at (sl_store S) = (settled0, s10)" by (metis surj_pair)
  show "settler_ok ?S'"
    using main [OF q] settler_pass_early [OF assms(1) q] by blast
  show "announced (sl_events ?S') h" if "pass_settled L view held settled_at (sl_store S) = (settled, s1)"
    "pass_outcome L (pl_fallback F) settled s1 = Ok out" "read_record (sl_store ?S') h = Some r" "tx_terminal (t_state r)"
    using main [OF that(1,2)] that(3,4) by blast
qed

lemma publish_updates_ok:
  fixes S :: "('h, 'o, 'cp, 'j) settler"
  assumes "settler_ok S"
  shows "settler_ok (publish_updates ups objects S)"
proof -
  obtain evs' :: "('h, 'j) event list" and published' where p: "publish_outcome (List.map_filter (read_record (sl_store S)) ups) [] [] objects (sl_published S) = (evs', published')"
    by (metis surj_pair)
  show ?thesis
    using publish_outcome_ok(1,2) [OF p, of "sl_events S"] assms by (simp add: publish_updates_def settler_ok_def p)
qed

lemma settler_sync_ok:
  fixes S :: "('h, 'o, 'cp, 'j) settler"
  assumes "settler_ok S"
  shows "settler_ok (settler_sync L view held settled_at S)"
proof (cases view)
  case (Some V)
  obtain res s1 where q: "settle_apply L True V settled_at held (sl_store S) = (res, s1)" by (metis surj_pair)
  have ok: "txs_ok s1"
    using settle_apply_advances [of "sl_store S" L True V settled_at held] assms q by (simp add: advances_def settler_ok_def)
  show ?thesis
  proof (cases res)
    case (Ok x)
    obtain out objs where x: "x = (out, objs)" by (metis surj_pair)
    obtain evs' :: "('h, 'j) event list" and published' where p: "publish_outcome (so_records out) [] (so_removed out) (so_objects out) (sl_published S) = (evs', published')"
      by (metis surj_pair)
    show ?thesis
      using publish_outcome_ok(1,2) [OF p, of "sl_events S"] assms ok by (simp add: settler_sync_def settler_ok_def p Some q Ok x)
  qed (use assms ok in \<open>simp_all add: settler_sync_def settler_ok_def Some q\<close>)
qed (use assms in \<open>simp add: settler_sync_def\<close>)

lemma settler_reach_ok: "settler_reach L S \<Longrightarrow> settler_ok S"
proof (induction rule: settler_reach.induct)
  case (start s)
  then show ?case by (simp add: settler_ok_def pruned_after_def)
next
  case (elsewhere S s)
  then show ?case by (simp add: settler_ok_def)
qed (simp_all add: settler_pass_ok(1) publish_updates_ok settler_sync_ok)


text \<open>Two transactions that expired while no daemon ran, the first long enough ago to be pruned; the chain cannot be read.\<close>

definition expired_tx :: "nat \<Rightarrow> nat \<Rightarrow> nat transaction_record" where
  "expired_tx h at = (recorded h \<lparr> plugin_name = ''p'', qn_name = ''c'' \<rparr> ''run'' [] [] 6 100 [] [] at)\<lparr> t_state := TExpired, t_settled_at_ms := Some at \<rparr>"

definition expired_store :: "(nat, nat, unit) driver_store" where
  "expired_store = write_record (expired_tx 9 5) (write_record (expired_tx 8 700000)
     \<lparr> live_dir = [], nullified_dir = [], discarded_dir = [], tx_dirs = [], imported_keys = [] \<rparr>)"

definition expired_lib :: "(nat, nat) obj_lib" where
  "expired_lib = \<lparr> ol_commitment = (\<lambda>obj. obj), ol_get = (\<lambda>obj field. Ok (Some (length field))),
     ol_hash_values = sum_list, ol_text_value = length, ol_hex = (\<lambda>h. replicate h (CHR ''a'')) \<rparr>"

definition expired_start :: "(nat, nat, unit, unit) settler" where
  "expired_start = \<lparr> sl_store = expired_store, sl_reconciled = [], sl_published = {}, sl_events = [] \<rparr>"

lemma expired_reach: "settler_reach expired_lib expired_start"
  unfolding expired_start_def
  by (rule settler_reach.start)
    (auto simp: txs_ok_def expired_store_def expired_tx_def recorded_def write_record_def hm_insert_def read_record_def tx_dir_at_def
      empty_tx_dir_def split: if_splits)

lemma expired_records: "load_records expired_lib expired_store = [expired_tx 9 5, expired_tx 8 700000]"
  by (simp add: load_records_def expired_store_def expired_tx_def recorded_def write_record_def hm_insert_def tx_dir_at_def
      empty_tx_dir_def List.map_filter_def expired_lib_def)

lemma expired_tx_fields:
  "t_final (expired_tx h at) = h" "t_state (expired_tx h at) = TExpired" "t_settled_at_ms (expired_tx h at) = Some at"
  "t_output_files (expired_tx h at) = []" "t_input_files (expired_tx h at) = []"
  by (simp_all add: expired_tx_def recorded_def)

lemma expired_pruning:
  "prune_listed expired_lib [] 800000 [] [expired_tx 9 5, expired_tx 8 700000] expired_store =
     \<lparr> pa_acc = \<lparr> sa_store = remove_transaction 9 expired_store, sa_changed = [], sa_removed = [], sa_spent = [] \<rparr>,
       pa_reconciled = [(8, expired_tx 8 700000)], pa_pruned = [9], pa_next = Some 1300000 \<rparr>"
  by (simp add: prune_listed_def expired_tx_fields prune_record_def cleanup_at_def u64_sat_add_def Let_def
      TRANSACTION_RETENTION_MS_def persist_settled_objects_def remove_unknown_outputs_def dir_remove_def hm_insert_def min_opt_def)

text \<open>All listings complete, and the listing of the check failing.\<close>

definition all_listed :: "nat pass_listings" where
  "all_listed = \<lparr> pl_fallback = Some {}, pl_check = Some {}, pl_prune = Some {} \<rparr>"

definition check_fails :: "nat pass_listings" where
  "check_fails = all_listed\<lparr> pl_check := None \<rparr>"

lemmas expired_pass_simps = settler_pass_def pass_settled_def pass_outcome_def pass_pruned_def add_unpublished_terminal_def list_transactions_def
  expired_start_def all_listed_def check_fails_def Let_def expired_records expired_pruning pruned_objects_def publish_outcome_def
  unpublished_terminal_def expired_tx_fields



text \<open>A pruned record is gone.\<close>

lemma prune_record_removes:
  assumes "\<forall>h \<in> set (pa_pruned acc). read_record (sa_store (pa_acc acc)) h = None \<and> h \<noteq> t_final r0"
  shows "\<forall>h \<in> set (pa_pruned (prune_record L held locked now r0 acc)).
    read_record (sa_store (pa_acc (prune_record L held locked now r0 acc))) h = None"
    and "set (pa_pruned (prune_record L held locked now r0 acc)) \<subseteq> insert (t_final r0) (set (pa_pruned acc))"
proof -
  obtain res r sacc where p: "persist_settled_objects L held locked r0 (pa_acc acc) = (res, r, sacc)" by (metis prod_cases3)
  have same: "read_record (sa_store sacc) h = read_record (sa_store (pa_acc acc)) h" for h
    using persist_settled_txs(1) [OF p] by (simp add: read_record_def tx_dir_at_def)
  have r: "t_final r = t_final r0" using persist_settled_txs(2) [OF p] by simp
  show "\<forall>h \<in> set (pa_pruned (prune_record L held locked now r0 acc)).
    read_record (sa_store (pa_acc (prune_record L held locked now r0 acc))) h = None"
    using assms p same r by (cases res) (auto simp: prune_record_def Let_def)
  show "set (pa_pruned (prune_record L held locked now r0 acc)) \<subseteq> insert (t_final r0) (set (pa_pruned acc))"
    using p r by (cases res) (auto simp: prune_record_def Let_def)
qed

lemma prune_listed_removes:
  assumes "distinct (map t_final records)" and "h \<in> set (pa_pruned (prune_listed L held now reconciled records s))"
  shows "read_record (sa_store (pa_acc (prune_listed L held now reconciled records s))) h = None"
proof -
  have all: "\<forall>h \<in> set (pa_pruned (fold (prune_record L held locked now) rs acc)).
      read_record (sa_store (pa_acc (fold (prune_record L held locked now) rs acc))) h = None"
    if "distinct (map t_final rs)" "\<forall>h \<in> set (pa_pruned acc). read_record (sa_store (pa_acc acc)) h = None \<and> h \<notin> t_final ` set rs"
    for locked rs acc
    using that
  proof (induction rs arbitrary: acc)
    case (Cons r rs)
    have "\<forall>h \<in> set (pa_pruned acc). read_record (sa_store (pa_acc acc)) h = None \<and> h \<noteq> t_final r" using Cons.prems(2) by auto
    note step = prune_record_removes [OF this, of L held locked now]
    have "h \<notin> t_final ` set rs" if "h \<in> set (pa_pruned (prune_record L held locked now r acc))" for h
    proof -
      have "h = t_final r \<or> h \<in> set (pa_pruned acc)" using subsetD [OF step(2) that] by simp
      then show ?thesis using Cons.prems by (elim disjE) simp_all
    qed
    then have "\<forall>h \<in> set (pa_pruned (prune_record L held locked now r acc)).
        read_record (sa_store (pa_acc (prune_record L held locked now r acc))) h = None \<and> h \<notin> t_final ` set rs"
      using step(1) by blast
    then show ?case using Cons.IH Cons.prems(1) by simp
  qed simp
  show ?thesis
    using assms(2) unfolding prune_listed_def Let_def
    by (rule all [THEN bspec, rotated 2]) (use assms(1) in \<open>simp_all add: distinct_map_filter\<close>)
qed

lemma distinct_load_records:
  assumes "txs_ok s"
  shows "distinct (map t_final (load_records L s))"
proof -
  have "distinct (map t_final (List.map_filter (\<lambda>(h, d). td_record d) ds))"
    if "distinct (map fst ds)" "\<forall>(h, d) \<in> set ds. \<forall>r. td_record d = Some r \<longrightarrow> t_final r = h" for ds :: "('a \<times> 'a tx_dir) list"
    using that by (induction ds) (auto simp: List.map_filter_simps split: option.splits, force simp: List.map_filter_def)
  moreover have "\<forall>(h, d) \<in> set (tx_dirs s). \<forall>r. td_record d = Some r \<longrightarrow> t_final r = h"
    using assms by (auto simp: txs_ok_def read_record_Some) metis
  ultimately have "distinct (map t_final (List.map_filter (\<lambda>(h, d). td_record d) (tx_dirs s)))" using assms by (simp add: txs_ok_def)
  then show ?thesis by (simp add: load_records_def distinct_map)
qed

text \<open>C0. The check for unannounced records is only logged when its listing fails, and the pass prunes all the same. When no
  event has announced a finished transaction, as after a restart, settlement is unavailable, that listing fails and pruning finds the transaction
  due, the pass succeeds and tells clients that the transaction was pruned, although none was ever told that it
  landed or expired; and its record is gone, so no later pass can tell them.\<close>

theorem failed_check_prunes_unannounced:
  assumes "settler_reach L S" and "\<not> announced (sl_events S) h" and "pl_check F = None" and "pl_fallback F \<noteq> None"
    and "pass_pruned L (pl_prune F) held prune_at (sl_reconciled S) (sl_store S) = (Ok (pruned, x), reconciled, s2)" and "h \<in> set pruned"
  shows "\<exists>res S'. settler_pass L F None held settled_at prune_at S = (Ok res, S')
    \<and> TransactionPruned h \<in> set (sl_events S') \<and> \<not> announced (sl_events S') h \<and> read_record (sl_store S') h = None"
proof -
  have ok: "txs_ok (sl_store S)" using settler_reach_ok [OF assms(1)] by (simp add: settler_ok_def)
  obtain skipped where f: "pl_fallback F = Some skipped" using assms(4) by blast
  obtain listing where l: "pl_prune F = Some listing" using assms(5) by (cases "pl_prune F") (simp_all add: pass_pruned_def list_transactions_def)
  let ?records = "filter (\<lambda>r. t_final r \<notin> listing) (load_records L (sl_store S))"
  have pa: "pruned = pa_pruned (prune_listed L held prune_at (sl_reconciled S) ?records (sl_store S))"
    "s2 = sa_store (pa_acc (prune_listed L held prune_at (sl_reconciled S) ?records (sl_store S)))"
    using assms(5) l by (auto simp: pass_pruned_def list_transactions_def Let_def)
  have "distinct (map t_final ?records)" using distinct_load_records [OF ok] by (rule distinct_map_filter)
  from prune_listed_removes [OF this] have gone: "read_record s2 h = None" using assms(6) by (simp add: pa)
  show ?thesis
    using assms(2,3,6) gone
    by (cases x) (auto simp: settler_pass_def pass_settled_def pass_outcome_def f list_transactions_def add_unpublished_terminal_def assms(5)
        publish_outcome_def announced_def)
qed

theorem failed_check_prunes_unannounced_witness:
  "\<exists>res S'. settler_pass expired_lib check_fails None [] 800000 800000 expired_start = (Ok res, S')
    \<and> TransactionPruned 9 \<in> set (sl_events S') \<and> \<not> announced (sl_events S') 9 \<and> read_record (sl_store S') 9 = None"
proof -
  have "pass_pruned expired_lib (pl_prune check_fails) [] 800000 (sl_reconciled expired_start) (sl_store expired_start)
      = (Ok ([9], [], [], Some 1300000), [(8, expired_tx 8 700000)], remove_transaction 9 expired_store)"
    by (simp add: expired_pass_simps)
  moreover have "\<not> announced (sl_events expired_start) 9" "pl_check check_fails = None" "pl_fallback check_fails \<noteq> None"
    by (simp_all add: expired_start_def announced_def check_fails_def all_listed_def)
  ultimately show ?thesis using failed_check_prunes_unannounced [OF expired_reach] by simp
qed

text \<open>While a record is open the next pass is at most 30 s away, and at most 1.5 s while one may be decided by the chain; and it is never
  scheduled without a pause.\<close>

lemma next_pass_soon:
  assumes "open_records > 0" and "unattempted \<le> open_records"
  shows "\<exists>d. next_pass_delay open_records unattempted cleanup now_ms = Some d \<and> 0 < d \<and> d \<le> UNATTEMPTED_CHECK_INTERVAL
    \<and> (unattempted < open_records \<longrightarrow> d \<le> SETTLE_INTERVAL)"
  using assms by (auto simp: next_pass_delay_def Let_def UNATTEMPTED_CHECK_INTERVAL_def SETTLE_INTERVAL_def min_def split: option.splits)

end
