(* ===== verification/Spec2Isabelle.thy ===== *)
theory Spec2Isabelle
  imports Sync_Loop_Properties Sync_Api_Properties Relay_Properties Relay_Eth Archive_Recovery Driver_Properties
    Dobjd_Services Dobjd_Settle_Properties
begin

text \<open>
  Verification of the Digital Objects Network services.

  \<^bold>\<open>The system.\<close> Objects are commitments; a transaction creates objects and publishes nullifiers that spend
  others. Its proof is shrunk, written in a binary payload format and posted to Ethereum in one blob addressed
  to a fixed address. Four services carry this: the relayer posts payloads, the archiver keeps the blobs of
  relevant blocks beyond their lifetime, the synchronizer replays every slot of the beacon chain and derives the set of
  created objects, the set of nullifiers and the chain of state roots, and the driver with its daemon dobjd
  runs on the player's machine. Services talk over HTTP; this development models all four.

  \<^bold>\<open>Theories and code.\<close>
  \<^item> \<open>Prelude\<close>: outcomes (\<open>Ok\<close>, \<open>Err\<close>, \<open>Panic\<close>) with their folds, Rust's casts and saturating arithmetic,
    insertion-ordered hash maps, decimal text.
  \<^item> \<open>Byte_Codec\<close>, \<open>Simple_Blob\<close>, \<open>Payload_Codec\<close> (\<open>libs/payload\<close>): little-endian words, hex, field
    elements; the coding of bytes into one EIP-4844 blob (\<open>blob.rs\<close>); the payload format, its reader and writer and the
    verifying parser (\<open>payload.rs\<close>, \<open>proof.rs\<close>, \<open>lib.rs\<close>).
  \<^item> \<open>Pod2_Containers\<close> (\<open>don_state.rs\<close>, \<open>container_db.rs\<close>, part of \<open>txlib\<close>): states, headers and the
    queries on the containers; pod2's arrays, sets and proofs are the record \<open>pod2\<close>, with their laws as the
    hypothesis \<open>pod2_sound\<close>, which the symbolic instance \<open>sym_pod2\<close> satisfies.
  \<^item> \<open>State_Machine\<close> (\<open>state_machine.rs\<close>): parsing the blobs of a slot, the checks of a payload, the derivation
    of a slot. \<open>State_Log\<close> (\<open>state_log_db.rs\<close>): the three tables with their constraints, commits and rollbacks.
  \<^item> \<open>Eth_Clients\<close> (\<open>libs/eth-clients\<close>): client errors and their classification, the retry loop, availability
    polling, beacon types. \<open>Sync_Node\<close> (\<open>node.rs\<close>): payload resolution before and after Gloas, blobs, derivation
    and commit of a slot. \<open>Sync_Ledger\<close>: the abstract ledger and the grounding window.
  \<^item> \<open>Sync_Loop\<close> (\<open>sync_loop.rs\<close>, \<open>catchup.rs\<close>): the daemon as a step function over the nodes' answers, with
    head tracking, batches, reorgs and restarts. \<open>Sync_Api\<close> (\<open>api.rs\<close>): the query handlers.
  \<^item> \<open>Relay_Db\<close>, \<open>Relay_Worker\<close>, \<open>Relay_Eth\<close>, \<open>Relay_Api\<close> (\<open>services/relayer\<close>): the job table, submission,
    polling and fee bumps of the worker, the Ethereum gateway over a JSON-RPC provider, the handlers.
    \<open>Relay_Machine\<close>: the abstract machine of one job.
  \<^item> \<open>Archive_Store\<close>, \<open>Archive_Node\<close> (\<open>services/archiver\<close>): the blob store on a model of its file tree, with
    multi-file operations as sequences of primitive ones; archiving, following the chain, serving blobs.
  \<^item> \<open>Driver_Names\<close>, \<open>Driver_Store\<close>, \<open>Driver_Pipeline\<close>, \<open>Driver_Settle\<close> (\<open>libs/driver\<close>, with the
    transaction records of \<open>libs/wire-types\<close>): names of object files, the object and transaction directories, the
    table of held inputs (\<open>object_store.rs\<close>, \<open>transactions.rs\<close>, \<open>holds.rs\<close>); proving, recording, deleting,
    submitting, settling and pruning transactions (\<open>execute.rs\<close>, \<open>pipeline.rs\<close>); renaming, discarding and
    importing objects (\<open>driver.rs\<close>). \<open>Driver_Queries\<close>: listings and the feasibility of actions (\<open>driver.rs\<close>).
    \<open>Driver_Exclusive\<close>: the operations as steps of one machine.
  \<^item> \<open>Dobjd_Registry\<close>, \<open>Dobjd_Runs\<close>, \<open>Dobjd_Settle\<close>, \<open>Dobjd_Services\<close> (\<open>services/dobjd\<close>): the registry of runs
    and proof jobs (\<open>registry.rs\<close>), the life of a run from proving to settlement with its stages and events
    (\<open>runs.rs\<close>, \<open>proof_jobs.rs\<close>, \<open>events.rs\<close>, \<open>routes/wait.rs\<close>, \<open>routes/actions.rs\<close>), the settler's passes,
    announcements and retries (\<open>settle.rs\<close>), announcements for clients, status codes and the guard of the API
    (\<open>state.rs\<close>, \<open>error.rs\<close>, \<open>web_access.rs\<close>).

  \<^bold>\<open>What is shown.\<close>
  \<^item> Synchronizer: deriving a slot refines the abstract ledger (\<open>Sync_Properties\<close>), no object is created and no
    nullifier spent twice, the tables of every reachable log describe exactly the ledger of its slots, a
    rollback followed by the new branch leaves the log the branch alone would have given; the daemon's log is
    contiguous and reachable whatever the nodes answer, and rewinding goes back exactly to the divergence
    (\<open>Sync_Loop_Properties\<close>); the API's membership, grounding and status answers are exact
    (\<open>Sync_Api_Properties\<close>).
  \<^item> Relayer (\<open>Relay_Properties\<close>, through the locale \<open>row_evolution\<close> interpreted on the job table): every
    stored payload was verified and fits a blob, jobs are never lost, a job is confirmed only on a successful
    receipt, iterations refine the machine of one job and make progress, with the two cases where the code does not
    follow its retry policy; bounds of delays and fees.
  \<^item> Archiver: names read back and requested blobs are served exactly (\<open>Archive_Properties\<close>), a crash between any two
    file operations loses no completed block (\<open>Archive_Recovery\<close>); the archiver's answers and the
    synchronizer's pairing compose to a lookup by hash, except when a hash is requested twice.
  \<^item> Driver (\<open>Driver_Exclusive\<close>, \<open>Driver_Recording\<close>, \<open>Driver_Properties\<close>): no file is an input of two proofs or
    open transactions at once, an offered transaction keeps its record until it settles, recording is all or
    nothing, settlement decides exactly by the chain's answers, a transaction expired by age is one the
    synchronizer's state machine rejects, renaming and importing keep the store's names apart; an action is reported
    feasible exactly when a proof of it would start (\<open>Driver_Queries\<close>).
  \<^item> Daemon: a run ends once and truthfully whatever its worker meets, and its event stream can be resumed without loss
    (\<open>Dobjd_Run_Properties\<close>, with the trait \<open>Retained\<close> as the locale \<open>retained\<close> interpreted on runs and
    proof jobs); transactions are announced as finished before they are announced as pruned, and retries are
    bounded (\<open>Dobjd_Settle_Properties\<close>).
  \<^item> Codecs: round trips of blobs and payloads, well-formedness of what readers accept, the inputs that
    panic.

  \<^bold>\<open>Bounds.\<close> Loops over data are structural recursions or recursions with a measure; \<open>last_header\<close> ends because every turn
  removes a file. Polling and retry loops take their bound from the code (\<open>AvailabilityPolling\<close>, the
  backoff). Daemons are step functions, so that an unbounded run is an arbitrary sequence of steps. Block slots in
  the recovery theorem are below \<open>10 ^ 9\<close>, where the order of directory names is the order of slots.

  \<^bold>\<open>Not modelled.\<close> Proof systems (plonky2, pod2's solver, \<open>intro-pods\<close>, proof shrinking) and cryptography are
  parameters. HTTP servers and transports, logging, timers and reading the environment are left out or are arguments
  of a step. Of the driver, the plugin catalog, HTTP clients and settings are left out, and disk faults are modelled for
  recording only; of dobjd, the routes, the MCP server and the UI. The SDK's scripting engine, plugin packaging, the user
  interfaces and the example apps are not modelled.
\<close>

end
